(* ===== verification/Go_Prelude.thy ===== *)
theory Go_Prelude
  imports Main "HOL-Library.AList" "HOL-Library.Multiset"
begin

text \<open>
  What the components share of Go: errors as values, contexts and clock readings as explicit
  inputs, 64-bit wrap-around, maps as association lists with distinct keys, and the unspecified
  order of a \<open>range\<close> over a map. The collections \<open>go_map\<close>, \<open>inv_intro\<close> and \<open>step_defs\<close>
  gather the rewriting rules, preservation lemmas and operation definitions that the component
  theories use.
\<close>

named_theorems go_map \<open>rewriting rules of the map model\<close>
named_theorems inv_intro \<open>every operation keeps its invariant\<close>
named_theorems step_defs \<open>definitions of operations, to be unfolded together\<close>

section \<open>Time and integers\<close>

text \<open>
  A \<open>time.Time\<close> is the number of nanoseconds since the zero time (1 January of year 1), a
  \<open>time.Duration\<close> a signed 64-bit number of nanoseconds. Every reading of \<open>time.Now()\<close> is an
  argument of the operation that takes it.
\<close>

type_synonym time = int
type_synonym duration = int
type_synonym bytes = string

definition wrap64 :: "int \<Rightarrow> int" where
  "wrap64 x = (x + 2 ^ 63) mod 2 ^ 64 - 2 ^ 63"

definition second :: duration where
  "second = 1000000000"

lemma wrap64_id: "- (2 ^ 63) \<le> x \<Longrightarrow> x < 2 ^ 63 \<Longrightarrow> wrap64 x = x"
  by (simp add: wrap64_def)

lemma wrap64_range: "- (2 ^ 63) \<le> wrap64 x \<and> wrap64 x < 2 ^ 63"
proof -
  have "0 \<le> (x + 2 ^ 63) mod 2 ^ 64" and "(x + 2 ^ 63) mod 2 ^ 64 < 2 ^ 64" by simp_all
  then show ?thesis by (simp add: wrap64_def)
qed

lemma second_pos [simp]: "0 < second"
  by (simp add: second_def)

section \<open>Contexts\<close>

text \<open>
  A \<open>context.Context\<close> is seen through \<open>ctx.Err()\<close> only. One operation that polls it once takes
  the answer (a \<open>poll\<close>); an operation whose callees poll it again takes a \<open>ctx\<close>, which gives
  the answer of its n-th poll. A context once done stays done: \<open>ctx_sticky\<close>.
\<close>

datatype ctx_error = Canceled | DeadlineExceeded

type_synonym poll = "ctx_error option"
type_synonym ctx = "nat \<Rightarrow> poll"

definition ctx_sticky :: "ctx \<Rightarrow> bool" where
  "ctx_sticky cx \<longleftrightarrow> (\<forall>i j. i \<le> j \<longrightarrow> cx i \<noteq> None \<longrightarrow> cx j \<noteq> None)"

abbreviation background :: ctx where
  "background \<equiv> (\<lambda>_. None)"

lemma ctx_sticky_background [simp]: "ctx_sticky background"
  by (simp add: ctx_sticky_def)

lemma ctx_sticky_None: "ctx_sticky cx \<Longrightarrow> cx j = None \<Longrightarrow> i \<le> j \<Longrightarrow> cx i = None"
  unfolding ctx_sticky_def by blast

end
