(* ===== verification/Errors.thy ===== *)
theory Errors
  imports Go_Prelude
begin

text \<open>
  Go's \<open>error\<close> values. A package-level \<open>errors.New\<close> is an identity of its own, so every such
  variable of the program is a constructor of its package's type: two packages that declare an
  \<open>ErrOrderNotFound\<close> have two errors, as in Go, where \<open>switch err\<close> compares pointers.
  \<open>Errorf\<close> and \<open>Wrapf\<close> are the fresh values of \<open>fmt.Errorf\<close> (without and with \<open>%w\<close>),
  \<open>StatusErr\<close> those of \<open>status.Error\<close>, \<open>LibErr\<close> an error made by a library.
\<close>

datatype order_svc_error =
  OErrOrderNotFound | OErrInvalidMarket | OErrInsufficientBalance
| OErrInvalidPrice | OErrInvalidQuantity | OErrTooManyOrders

datatype order_mem_error = MemErrOrderNotFound

datatype spot_svc_error =
  SErrMarketNotFound | SErrInvalidMarket | SErrInvalidRole | SErrPermissionDenied

datatype spot_mem_error = MemErrMarketNotFound

datatype user_repo_error =
  RErrUserNotFound | RErrUserAlreadyExists | RErrTokenNotFound | RErrTokenRevoked | RErrTokenExpired

datatype user_svc_error =
  UErrInvalidEmail | UErrInvalidPassword | UErrUserNotFound | UErrUserAlreadyExists
| UErrInvalidCredentials | UErrTokenInvalid | UErrUnauthorized | UErrPermissionDenied

datatype jwt_error = JErrTokenExpired | JErrTokenInvalid

datatype validate_error =
  VErrEmptyField | VErrInvalidEmail | VErrWeakPassword | VErrInvalidUUID
| VErrTooShort | VErrTooLong | VErrInvalidFormat | VErrInvalidRange

datatype client_error = CErrTokenExpired

datatype sentinel =
  OrderSvc order_svc_error
| OrderMem order_mem_error
| SpotSvc spot_svc_error
| SpotMem spot_mem_error
| UserRepo user_repo_error
| UserSvc user_svc_error
| Jwt jwt_error
| Validate validate_error
| Client client_error

datatype code =
  CodeOK | CodeCanceled | CodeUnknown | CodeInvalidArgument | CodeDeadlineExceeded | CodeNotFound
| CodeAlreadyExists | CodePermissionDenied | CodeResourceExhausted | CodeFailedPrecondition
| CodeInternal | CodeUnavailable | CodeUnauthenticated

datatype err =
  Sentinel sentinel
| CtxErr ctx_error
| Errorf string
| Wrapf string err
| StatusErr code string
| LibErr string

type_synonym 'a result = "err + 'a"

text \<open>\<open>errors.Is(e, target)\<close> for a target that is a package-level error: the chain of \<open>%w\<close> is walked.\<close>

fun errors_is :: "err \<Rightarrow> sentinel \<Rightarrow> bool" where
  "errors_is (Sentinel s) t = (s = t)"
| "errors_is (Wrapf m e) t = errors_is e t"
| "errors_is _ t = False"

text \<open>An operation's own poll of the context: its first statement in most of the program.\<close>

definition polled :: "poll \<Rightarrow> 'a result \<Rightarrow> 'a result" where
  "polled p r = (case p of Some e \<Rightarrow> Inl (CtxErr e) | None \<Rightarrow> r)"

lemma polled_None [simp]: "polled None r = r"
  by (simp add: polled_def)

lemma polled_Some [simp]: "polled (Some e) r = Inl (CtxErr e)"
  by (simp add: polled_def)

lemma polled_Inr [simp]: "polled p r = Inr x \<longleftrightarrow> p = None \<and> r = Inr x"
  by (cases p) simp_all

end
