(* ===== verification/Proto.thy ===== *)
theory Proto
  imports Errors
begin

text \<open>
  The messages and enumerations of the gRPC interfaces, from the generated Go code under
  \<open>proto/\<close>. A proto3 enumeration is open: it is a 32-bit number with names for some values, so
  each datatype has a constructor for the other numbers, coded such that every number is
  exactly one value. Timestamps are values of the protobuf library: a type parameter \<open>'ts\<close>.
\<close>

section \<open>Enumerations\<close>

text \<open>A number outside the \<open>n\<close> named ones: \<open>0, 1, \<dots>\<close> stand for \<open>n, n + 1, \<dots>\<close>, the negative ones for themselves.\<close>

definition other_number :: "int \<Rightarrow> int \<Rightarrow> int" where
  "other_number n j = (if j \<ge> 0 then n + j else j)"

definition number_other :: "int \<Rightarrow> int \<Rightarrow> int" where
  "number_other n i = (if i \<ge> n then i - n else i)"

lemma number_other_inverse: "0 \<le> n \<Longrightarrow> number_other n (other_number n j) = j"
  by (simp add: number_other_def other_number_def)

lemma other_number_inverse: "0 \<le> n \<Longrightarrow> i < 0 \<or> n \<le> i \<Longrightarrow> other_number n (number_other n i) = i"
  by (auto simp: number_other_def other_number_def)

lemma other_number_outside: "0 \<le> n \<Longrightarrow> other_number n j < 0 \<or> n \<le> other_number n j"
  by (simp add: other_number_def)

datatype user_role =
  USER_ROLE_UNSPECIFIED | USER_ROLE_USER | USER_ROLE_PREMIUM | USER_ROLE_ADMIN | UserRole_other int

datatype order_type =
  ORDER_TYPE_UNSPECIFIED | ORDER_TYPE_BUY | ORDER_TYPE_SELL | OrderType_other int

datatype order_status =
  ORDER_STATUS_UNSPECIFIED | ORDER_STATUS_CREATED | ORDER_STATUS_PENDING | ORDER_STATUS_FILLED
| ORDER_STATUS_CANCELLED | ORDER_STATUS_REJECTED | OrderStatus_other int

fun user_role_number :: "user_role \<Rightarrow> int" where
  "user_role_number USER_ROLE_UNSPECIFIED = 0"
| "user_role_number USER_ROLE_USER = 1"
| "user_role_number USER_ROLE_PREMIUM = 2"
| "user_role_number USER_ROLE_ADMIN = 3"
| "user_role_number (UserRole_other j) = other_number 4 j"

definition user_role_of :: "int \<Rightarrow> user_role" where
  "user_role_of i =
     (if i = 0 then USER_ROLE_UNSPECIFIED else if i = 1 then USER_ROLE_USER
      else if i = 2 then USER_ROLE_PREMIUM else if i = 3 then USER_ROLE_ADMIN
      else UserRole_other (number_other 4 i))"

lemma user_role_of_number [simp]: "user_role_of (user_role_number r) = r"
  by (cases r) (auto simp: user_role_of_def number_other_def other_number_def)

lemma user_role_number_of [simp]: "user_role_number (user_role_of i) = i"
  by (auto simp: user_role_of_def intro!: other_number_inverse)

lemma user_role_number_inj: "user_role_number r = user_role_number s \<Longrightarrow> r = s"
  by (metis user_role_of_number)

text \<open>Roles are ordered by their numbers.\<close>

instantiation user_role :: linorder
begin

definition less_eq_user_role :: "user_role \<Rightarrow> user_role \<Rightarrow> bool" where
  "less_eq_user_role r s \<longleftrightarrow> user_role_number r \<le> user_role_number s"

definition less_user_role :: "user_role \<Rightarrow> user_role \<Rightarrow> bool" where
  "less_user_role r s \<longleftrightarrow> user_role_number r < user_role_number s"

instance
  by standard (auto simp: less_eq_user_role_def less_user_role_def intro: user_role_number_inj)

end

text \<open>\<open>UserRole_value\<close>, the map from names to numbers, and \<open>String()\<close>: the name of a named value;
  how the protobuf library prints another number is the parameter \<open>itoa\<close>.\<close>

definition UserRole_value :: "(string \<times> int) list" where
  "UserRole_value =
     [(''USER_ROLE_UNSPECIFIED'', 0), (''USER_ROLE_USER'', 1), (''USER_ROLE_PREMIUM'', 2), (''USER_ROLE_ADMIN'', 3)]"

fun user_role_String :: "(int \<Rightarrow> string) \<Rightarrow> user_role \<Rightarrow> string" where
  "user_role_String itoa USER_ROLE_UNSPECIFIED = ''USER_ROLE_UNSPECIFIED''"
| "user_role_String itoa USER_ROLE_USER = ''USER_ROLE_USER''"
| "user_role_String itoa USER_ROLE_PREMIUM = ''USER_ROLE_PREMIUM''"
| "user_role_String itoa USER_ROLE_ADMIN = ''USER_ROLE_ADMIN''"
| "user_role_String itoa (UserRole_other j) = itoa (other_number 4 j)"

definition named_role :: "user_role \<Rightarrow> bool" where
  "named_role r \<longleftrightarrow> r \<in> {USER_ROLE_UNSPECIFIED, USER_ROLE_USER, USER_ROLE_PREMIUM, USER_ROLE_ADMIN}"

lemma UserRole_value_String:
  "named_role r \<Longrightarrow> map_of UserRole_value (user_role_String itoa r) = Some (user_role_number r)"
  by (auto simp: named_role_def UserRole_value_def)

text \<open>The numbers of order types and statuses, which the database stores.\<close>

fun order_type_number :: "order_type \<Rightarrow> int" where
  "order_type_number ORDER_TYPE_UNSPECIFIED = 0"
| "order_type_number ORDER_TYPE_BUY = 1"
| "order_type_number ORDER_TYPE_SELL = 2"
| "order_type_number (OrderType_other j) = other_number 3 j"

definition order_type_of :: "int \<Rightarrow> order_type" where
  "order_type_of i =
     (if i = 0 then ORDER_TYPE_UNSPECIFIED else if i = 1 then ORDER_TYPE_BUY else if i = 2 then ORDER_TYPE_SELL
      else OrderType_other (number_other 3 i))"

fun order_status_number :: "order_status \<Rightarrow> int" where
  "order_status_number ORDER_STATUS_UNSPECIFIED = 0"
| "order_status_number ORDER_STATUS_CREATED = 1"
| "order_status_number ORDER_STATUS_PENDING = 2"
| "order_status_number ORDER_STATUS_FILLED = 3"
| "order_status_number ORDER_STATUS_CANCELLED = 4"
| "order_status_number ORDER_STATUS_REJECTED = 5"
| "order_status_number (OrderStatus_other j) = other_number 6 j"

definition order_status_of :: "int \<Rightarrow> order_status" where
  "order_status_of i =
     (if i = 0 then ORDER_STATUS_UNSPECIFIED else if i = 1 then ORDER_STATUS_CREATED
      else if i = 2 then ORDER_STATUS_PENDING else if i = 3 then ORDER_STATUS_FILLED
      else if i = 4 then ORDER_STATUS_CANCELLED else if i = 5 then ORDER_STATUS_REJECTED
      else OrderStatus_other (number_other 6 i))"

lemma order_type_of_number [simp]: "order_type_of (order_type_number t) = t"
  by (cases t) (auto simp: order_type_of_def number_other_def other_number_def)

lemma order_status_of_number [simp]: "order_status_of (order_status_number s) = s"
  by (cases s) (auto simp: order_status_of_def number_other_def other_number_def)

section \<open>Messages of the order service\<close>

record 'ts order_pb =
  o_OrderId :: string
  o_UserId :: string
  o_MarketId :: string
  o_Type :: order_type
  o_Status :: order_status
  o_Price :: string
  o_Quantity :: string
  o_FilledQuantity :: string
  o_CreatedAt :: "'ts option"
  o_UpdatedAt :: "'ts option"

record create_order_request =
  cor_MarketId :: string
  cor_Type :: order_type
  cor_Price :: string
  cor_Quantity :: string
  cor_IdempotencyKey :: string

record create_order_response =
  cors_OrderId :: string
  cors_Status :: order_status

section \<open>Messages of the spot service\<close>

record 'ts market_pb =
  m_MarketId :: string
  m_Symbol :: string
  m_BaseCurrency :: string
  m_QuoteCurrency :: string
  m_Enabled :: bool
  m_MinOrderSize :: string
  m_MaxOrderSize :: string
  m_PriceIncrement :: string
  m_SizeIncrement :: string
  m_CreatedAt :: "'ts option"
  m_UpdatedAt :: "'ts option"
  m_DeletedAt :: "'ts option"

record pagination_response =
  pr_NextPageToken :: string
  pr_HasMore :: bool

section \<open>Messages of the user service\<close>

record 'ts user_pb =
  u_UserId :: string
  u_Email :: string
  u_Username :: string
  u_Role :: user_role
  u_IsActive :: bool
  u_CreatedAt :: "'ts option"
  u_UpdatedAt :: "'ts option"

record register_request =
  rr_Email :: string
  rr_Password :: string
  rr_Username :: string
  rr_IdempotencyKey :: string

text \<open>\<open>RegisterResponse\<close> and \<open>LoginResponse\<close> have the same two fields.\<close>

record 'ts auth_response =
  ar_User :: "'ts user_pb"
  ar_AccessToken :: string

end
