(* ===== verification/Go_Map.thy ===== *)
theory Go_Map
  imports Go_Prelude
begin

text \<open>
  A Go map is an association list with distinct keys: lookup, store, delete and \<open>len\<close>.
  A \<open>range\<close> loop visits the entries in an order the language leaves open; \<open>range_order\<close> takes
  that choice as a number, and every order is the choice of some number.
\<close>

type_synonym ('k, 'v) gomap = "('k \<times> 'v) list"

definition gm_ok :: "('k, 'v) gomap \<Rightarrow> bool" where
  "gm_ok m \<longleftrightarrow> distinct (map fst m)"

definition gm_get :: "('k, 'v) gomap \<Rightarrow> 'k \<Rightarrow> 'v option" where
  "gm_get m k = map_of m k"

definition gm_put :: "'k \<Rightarrow> 'v \<Rightarrow> ('k, 'v) gomap \<Rightarrow> ('k, 'v) gomap" where
  "gm_put k v m = AList.update k v m"

definition gm_del :: "'k \<Rightarrow> ('k, 'v) gomap \<Rightarrow> ('k, 'v) gomap" where
  "gm_del k m = AList.delete k m"

definition gm_keys :: "('k, 'v) gomap \<Rightarrow> 'k set" where
  "gm_keys m = fst ` set m"

lemma gm_ok_Nil [simp]: "gm_ok []"
  by (simp add: gm_ok_def)

lemma gm_get_Nil [simp]: "gm_get [] k = None"
  by (simp add: gm_get_def)

lemma gm_keys_Nil [simp]: "gm_keys [] = {}"
  by (simp add: gm_keys_def)

lemma gm_get_put [simp, go_map]: "gm_get (gm_put k v m) j = (if j = k then Some v else gm_get m j)"
  by (simp add: gm_get_def gm_put_def update_conv')

lemma gm_get_del [simp, go_map]: "gm_get (gm_del k m) j = (if j = k then None else gm_get m j)"
  by (simp add: gm_get_def gm_del_def delete_conv')

lemma gm_ok_put [simp, go_map]: "gm_ok m \<Longrightarrow> gm_ok (gm_put k v m)"
  by (simp add: gm_ok_def gm_put_def distinct_update)

lemma gm_ok_del [simp, go_map]: "gm_ok m \<Longrightarrow> gm_ok (gm_del k m)"
  by (simp add: gm_ok_def gm_del_def distinct_delete)

lemma gm_keys_put [simp, go_map]: "gm_keys (gm_put k v m) = insert k (gm_keys m)"
  by (simp add: gm_keys_def gm_put_def dom_update)

lemma gm_keys_del [simp, go_map]: "gm_keys (gm_del k m) = gm_keys m - {k}"
  by (auto simp: gm_keys_def gm_del_def AList.delete_eq)

lemma gm_get_None: "gm_get m k = None \<longleftrightarrow> k \<notin> gm_keys m"
  by (simp add: gm_get_def gm_keys_def map_of_eq_None_iff)

lemma gm_get_Some_key: "gm_get m k = Some v \<Longrightarrow> k \<in> gm_keys m"
  by (metis gm_get_None option.distinct(1))

lemma gm_key_get: "k \<in> gm_keys m \<Longrightarrow> \<exists>v. gm_get m k = Some v"
  by (metis gm_get_None not_Some_eq)

lemma gm_get_in: "gm_get m k = Some v \<Longrightarrow> (k, v) \<in> set m"
  by (simp add: gm_get_def map_of_SomeD)

lemma gm_in_get: "gm_ok m \<Longrightarrow> (k, v) \<in> set m \<Longrightarrow> gm_get m k = Some v"
  by (simp add: gm_ok_def gm_get_def)

lemma gm_get_iff: "gm_ok m \<Longrightarrow> gm_get m k = Some v \<longleftrightarrow> (k, v) \<in> set m"
  using gm_get_in gm_in_get by metis

text \<open>The length of a map is the number of its keys.\<close>

lemma gm_len: "gm_ok m \<Longrightarrow> length m = card (gm_keys m)"
  by (metis gm_keys_def gm_ok_def distinct_card length_map list.set_map)

lemma finite_gm_keys [simp]: "finite (gm_keys m)"
  by (simp add: gm_keys_def)

lemma gm_len_put:
  "gm_ok m \<Longrightarrow> length (gm_put k v m) = (if k \<in> gm_keys m then length m else Suc (length m))"
  by (simp add: gm_len card_insert_if)

lemma gm_len_del:
  "gm_ok m \<Longrightarrow> length (gm_del k m) = (if k \<in> gm_keys m then length m - 1 else length m)"
  by (simp add: gm_len)

lemma gm_len_del_le: "length (gm_del k m) \<le> length m"
  by (simp add: gm_del_def AList.delete_eq)

lemma gm_put_new: "k \<notin> gm_keys m \<Longrightarrow> gm_put k v m = m @ [(k, v)]"
  unfolding gm_put_def gm_keys_def
  by (induction m) auto

text \<open>Keeping some of the entries, as a \<open>range\<close> loop that deletes the others does.\<close>

lemma gm_ok_filter [simp]: "gm_ok m \<Longrightarrow> gm_ok (filter P m)"
  by (simp add: gm_ok_def distinct_map_filter)

lemma gm_get_filter:
  "gm_ok m \<Longrightarrow> gm_get (filter P m) k =
    (case gm_get m k of Some v \<Rightarrow> if P (k, v) then Some v else None | None \<Rightarrow> None)"
  by (induction m) (auto simp: gm_get_def gm_ok_def map_of_eq_None_iff split: option.splits)

section \<open>The order of a range loop\<close>

fun range_order :: "nat \<Rightarrow> 'a list \<Rightarrow> 'a list" where
  "range_order s [] = []"
| "range_order s (x # xs) =
     (let ys = x # xs; i = s mod length ys
      in ys ! i # range_order (s div length ys) (take i ys @ drop (Suc i) ys))"

lemma mset_remove_nth: "i < length xs \<Longrightarrow> add_mset (xs ! i) (mset (take i xs @ drop (Suc i) xs)) = mset xs"
  by (metis id_take_nth_drop mset.simps(2) mset_append union_mset_add_mset_right)

lemma mset_range_order [simp]: "mset (range_order s xs) = mset xs"
proof (induction s xs rule: range_order.induct)
  case (1 s)
  then show ?case by simp
next
  case (2 s x xs)
  let ?ys = "x # xs" and ?i = "s mod length (x # xs)"
  have "?i < length ?ys" by (rule mod_less_divisor) simp
  then have "add_mset (?ys ! ?i) (mset (take ?i ?ys @ drop (Suc ?i) ?ys)) = mset ?ys"
    by (rule mset_remove_nth)
  then show ?case using "2.IH"[OF refl refl] by (simp only: range_order.simps Let_def mset.simps)
qed

lemma set_range_order [simp]: "set (range_order s xs) = set xs"
  by (rule mset_eq_setD) simp

lemma length_range_order [simp]: "length (range_order s xs) = length xs"
  by (rule mset_eq_length) simp

lemma range_order_eq_Nil [simp]: "range_order s xs = [] \<longleftrightarrow> xs = []"
  by (metis length_0_conv length_range_order)

lemma range_order_unfold:
  "xs \<noteq> [] \<Longrightarrow> range_order s xs =
    xs ! (s mod length xs) # range_order (s div length xs)
      (take (s mod length xs) xs @ drop (Suc (s mod length xs)) xs)"
  by (cases xs) (simp_all only: range_order.simps Let_def refl simp_thms)

text \<open>Every order the runtime may choose is the order of some number.\<close>

lemma range_order_complete: "mset ys = mset xs \<Longrightarrow> \<exists>s. range_order s xs = ys"
proof (induction ys arbitrary: xs)
  case Nil
  then show ?case by simp
next
  case (Cons y ys)
  have "y \<in> set xs" using Cons.prems by (metis list.set_intros(1) mset_eq_setD)
  then obtain i where i: "i < length xs" and y: "xs ! i = y" by (auto simp: in_set_conv_nth)
  let ?zs = "take i xs @ drop (Suc i) xs"
  have "add_mset y (mset ?zs) = add_mset y (mset ys)"
    using mset_remove_nth[OF i] Cons.prems y by simp
  then have "mset ys = mset ?zs" by simp
  then obtain s where s: "range_order s ?zs = ys" using Cons.IH by blast
  have dv: "(i + length xs * s) div length xs = s"
    using i div_mult_self2[of "length xs" i s] by (cases xs) auto
  have "range_order (i + length xs * s) xs = xs ! i # range_order s ?zs"
    using i dv by (subst range_order_unfold) auto
  then have "range_order (i + length xs * s) xs = y # ys" using y s by simp
  then show ?case by blast
qed

end
