(* ===== verification/Spot_Domain.thy ===== *)
theory Spot_Domain
  imports Proto Go_Map
begin

text \<open>
  Markets of the spot service: the domain type, its in-memory repository with the seeded data
  (\<open>spot-service/internal/domain\<close>, \<open>internal/adapters/inmemory\<close>) and the mapping to and from the
  protobuf message (\<open>internal/mapper\<close>). Decimals are values of \<open>shopspring/decimal\<close>: a type
  parameter \<open>'d\<close>, with the library's parser and printer as arguments of the mappers; timestamps
  likewise (\<open>'ts\<close>).
\<close>

section \<open>Markets\<close>

record 'd market =
  mk_ID :: string
  mk_Symbol :: string
  mk_BaseCurrency :: string
  mk_QuoteCurrency :: string
  mk_Enabled :: bool
  mk_DeletedAt :: "time option"
  mk_MinOrderSize :: 'd
  mk_MaxOrderSize :: 'd
  mk_PriceIncrement :: 'd
  mk_SizeIncrement :: 'd
  mk_AllowedRoles :: "string list"
  mk_CreatedAt :: time
  mk_UpdatedAt :: time

definition IsActive :: "'d market \<Rightarrow> bool" where
  "IsActive m \<longleftrightarrow> mk_Enabled m \<and> mk_DeletedAt m = None"

section \<open>The in-memory repository\<close>

type_synonym 'd market_store = "(string, 'd market) gomap"

text \<open>\<open>seedData\<close>: three markets; \<open>dec\<close> is \<open>decimal.RequireFromString\<close>, \<open>year_ago\<close> is
  \<open>now.AddDate(-1, 0, 0)\<close>. Roles and creation times keep their zero values.\<close>

definition seed_market ::
  "(string \<Rightarrow> 'd) \<Rightarrow> string \<Rightarrow> string \<Rightarrow> string \<Rightarrow> bool \<Rightarrow> time option \<Rightarrow> string \<Rightarrow> string \<Rightarrow> string \<Rightarrow> string \<Rightarrow> 'd market"
where
  "seed_market dec i symb base enabled deleted mn mx pinc sinc =
     \<lparr>mk_ID = i, mk_Symbol = symb, mk_BaseCurrency = base, mk_QuoteCurrency = ''USD'',
      mk_Enabled = enabled, mk_DeletedAt = deleted,
      mk_MinOrderSize = dec mn, mk_MaxOrderSize = dec mx,
      mk_PriceIncrement = dec pinc, mk_SizeIncrement = dec sinc,
      mk_AllowedRoles = [], mk_CreatedAt = 0, mk_UpdatedAt = 0\<rparr>"

definition seedData :: "(string \<Rightarrow> 'd) \<Rightarrow> time \<Rightarrow> 'd market_store" where
  "seedData dec year_ago =
     gm_put ''old_token'' (seed_market dec ''old_token'' ''OLD_USD'' ''OLD'' False (Some year_ago)
       ''1.0'' ''10.0'' ''0.01'' ''1.0'')
    (gm_put ''eth_usd'' (seed_market dec ''eth_usd'' ''ETH_USD'' ''ETH'' True None
       ''0.0001'' ''100.0'' ''0.01'' ''0.0001'')
    (gm_put ''btc_usd'' (seed_market dec ''btc_usd'' ''BTC_USD'' ''BTC'' True None
       ''0.0001'' ''100.0'' ''0.01'' ''0.0001'') []))"

text \<open>\<open>GetAll\<close>: the markets in the order of the range loop over the map.\<close>

definition market_GetAll :: "poll \<Rightarrow> nat \<Rightarrow> 'd market_store \<Rightarrow> 'd market list result" where
  "market_GetAll p ord store = polled p (Inr (map snd (range_order ord store)))"

text \<open>\<open>GetByID\<close> returns a pointer; the in-memory repository never returns a nil one.\<close>

definition market_GetByID :: "poll \<Rightarrow> string \<Rightarrow> 'd market_store \<Rightarrow> 'd market option result" where
  "market_GetByID p i store =
     polled p (case gm_get store i of
        Some m \<Rightarrow> Inr (Some m)
      | None \<Rightarrow> Inl (Sentinel (SpotMem MemErrMarketNotFound)))"

lemma gm_keys_seedData: "gm_keys (seedData dec y) = {''btc_usd'', ''eth_usd'', ''old_token''}"
  by (auto simp: seedData_def)

section \<open>The mapping to and from the protobuf message\<close>

definition toProtoTimestamp :: "(time \<Rightarrow> 'ts) \<Rightarrow> time \<Rightarrow> 'ts option" where
  "toProtoTimestamp newts t = (if t = 0 then None else Some (newts t))"

definition toProtoTimestampPtr :: "(time \<Rightarrow> 'ts) \<Rightarrow> time option \<Rightarrow> 'ts option" where
  "toProtoTimestampPtr newts t =
     (case t of None \<Rightarrow> None | Some t' \<Rightarrow> if t' = 0 then None else Some (newts t'))"

definition toDomainTime :: "('ts \<Rightarrow> time) \<Rightarrow> 'ts option \<Rightarrow> time" where
  "toDomainTime astime ts = (case ts of None \<Rightarrow> 0 | Some t \<Rightarrow> astime t)"

definition toDomainTimePtr :: "('ts \<Rightarrow> time) \<Rightarrow> 'ts option \<Rightarrow> time option" where
  "toDomainTimePtr astime ts = map_option astime ts"

text \<open>\<open>mustDecimal\<close> drops the parser's error and keeps the value it returns with it.\<close>

definition mustDecimal :: "(string \<Rightarrow> 'd \<times> err option) \<Rightarrow> string \<Rightarrow> 'd" where
  "mustDecimal newFromString s = fst (newFromString s)"

definition spot_ToProto :: "(time \<Rightarrow> 'ts) \<Rightarrow> ('d \<Rightarrow> string) \<Rightarrow> 'd market option \<Rightarrow> 'ts market_pb option" where
  "spot_ToProto newts str mp =
     (case mp of None \<Rightarrow> None | Some m \<Rightarrow> Some
        \<lparr>m_MarketId = mk_ID m, m_Symbol = mk_Symbol m, m_BaseCurrency = mk_BaseCurrency m,
         m_QuoteCurrency = mk_QuoteCurrency m, m_Enabled = mk_Enabled m,
         m_MinOrderSize = str (mk_MinOrderSize m), m_MaxOrderSize = str (mk_MaxOrderSize m),
         m_PriceIncrement = str (mk_PriceIncrement m), m_SizeIncrement = str (mk_SizeIncrement m),
         m_CreatedAt = toProtoTimestamp newts (mk_CreatedAt m),
         m_UpdatedAt = toProtoTimestamp newts (mk_UpdatedAt m),
         m_DeletedAt = toProtoTimestampPtr newts (mk_DeletedAt m)\<rparr>)"

definition spot_ToDomain ::
  "('ts \<Rightarrow> time) \<Rightarrow> (string \<Rightarrow> 'd \<times> err option) \<Rightarrow> 'ts market_pb option \<Rightarrow> 'd market option" where
  "spot_ToDomain astime nfs mp =
     (case mp of None \<Rightarrow> None | Some m \<Rightarrow> Some
        \<lparr>mk_ID = m_MarketId m, mk_Symbol = m_Symbol m, mk_BaseCurrency = m_BaseCurrency m,
         mk_QuoteCurrency = m_QuoteCurrency m, mk_Enabled = m_Enabled m,
         mk_DeletedAt = toDomainTimePtr astime (m_DeletedAt m),
         mk_MinOrderSize = mustDecimal nfs (m_MinOrderSize m),
         mk_MaxOrderSize = mustDecimal nfs (m_MaxOrderSize m),
         mk_PriceIncrement = mustDecimal nfs (m_PriceIncrement m),
         mk_SizeIncrement = mustDecimal nfs (m_SizeIncrement m),
         mk_AllowedRoles = [], mk_CreatedAt = toDomainTime astime (m_CreatedAt m),
         mk_UpdatedAt = toDomainTime astime (m_UpdatedAt m)\<rparr>)"

definition UserRolesFromProto :: "(int \<Rightarrow> string) \<Rightarrow> user_role list \<Rightarrow> string list" where
  "UserRolesFromProto itoa roles = map (user_role_String itoa) roles"

text \<open>What the libraries document: printing a decimal and parsing it gives it back, and so does a
  timestamp made from a time.\<close>

definition decimal_roundtrip :: "(string \<Rightarrow> 'd \<times> err option) \<Rightarrow> ('d \<Rightarrow> string) \<Rightarrow> bool" where
  "decimal_roundtrip nfs str \<longleftrightarrow> (\<forall>d. nfs (str d) = (d, None))"

definition timestamp_roundtrip :: "('ts \<Rightarrow> time) \<Rightarrow> (time \<Rightarrow> 'ts) \<Rightarrow> bool" where
  "timestamp_roundtrip astime newts \<longleftrightarrow> (\<forall>t. astime (newts t) = t)"

text \<open>A market sent as a protobuf message and read back is the same market, except that its
  allowed roles are lost and a deletion stamped with the zero time becomes no deletion.\<close>

lemma market_mapping_roundtrip:
  assumes "decimal_roundtrip nfs str" and "timestamp_roundtrip astime newts"
  shows "spot_ToDomain astime nfs (spot_ToProto newts str (Some m)) =
    Some (m\<lparr>mk_AllowedRoles := [], mk_DeletedAt := (if mk_DeletedAt m = Some 0 then None else mk_DeletedAt m)\<rparr>)"
proof -
  have ts: "toDomainTime astime (toProtoTimestamp newts t) = t" for t
    using assms(2) by (simp add: toDomainTime_def toProtoTimestamp_def timestamp_roundtrip_def)
  have tp: "toDomainTimePtr astime (toProtoTimestampPtr newts d) = (if d = Some 0 then None else d)" for d
    using assms(2)
    by (simp add: toDomainTimePtr_def toProtoTimestampPtr_def timestamp_roundtrip_def split: option.split)
  have "mustDecimal nfs (str d) = d" for d
    using assms(1) by (simp add: mustDecimal_def decimal_roundtrip_def)
  then show ?thesis using ts tp by (simp add: spot_ToDomain_def spot_ToProto_def)
qed

lemma market_mapping_seeded:
  "spot_ToDomain id (\<lambda>s. (s, None)) (spot_ToProto id id (Some (seed_market id ''btc_usd'' ''BTC_USD'' ''BTC'' True None
      ''0.0001'' ''100.0'' ''0.01'' ''0.0001''))) =
   Some (seed_market id ''btc_usd'' ''BTC_USD'' ''BTC'' True None ''0.0001'' ''100.0'' ''0.01'' ''0.0001'')"
  by (subst market_mapping_roundtrip)
     (simp_all add: decimal_roundtrip_def timestamp_roundtrip_def seed_market_def)

end
