(* ===== verification/Lru_Cache.thy ===== *)
theory Lru_Cache
  imports Go_Map Errors
begin

text \<open>
  The in-memory cache of the spot service (\<open>spot-service/internal/cache/lru.go\<close>): a map from keys
  to entries and a list of elements, most recently used first, linked both ways: an entry names
  its list element, an element carries its key. The elements of \<open>container/list\<close> are pointers;
  here each has a number, given out by \<open>PushFront\<close> from a counter.
\<close>

section \<open>The cache\<close>

type_synonym element = "nat \<times> string"

record cache_entry =
  ent_key :: string
  ent_value :: bytes
  ent_expiresAt :: time
  ent_element :: nat

record lru =
  lru_data :: "(string, cache_entry) gomap"
  lru_ll :: "element list"
  lru_maxSize :: int
  lru_next :: nat

definition NewLRUCache :: "int \<Rightarrow> lru" where
  "NewLRUCache n = \<lparr>lru_data = [], lru_ll = [], lru_maxSize = n, lru_next = 0\<rparr>"

text \<open>\<open>Remove\<close> and \<open>MoveToFront\<close> of \<open>container/list\<close>: they act only on an element of the list.\<close>

definition ll_remove :: "nat \<Rightarrow> element list \<Rightarrow> element list" where
  "ll_remove i ll = filter (\<lambda>e. fst e \<noteq> i) ll"

definition ll_move_to_front :: "nat \<Rightarrow> element list \<Rightarrow> element list" where
  "ll_move_to_front i ll = filter (\<lambda>e. fst e = i) ll @ filter (\<lambda>e. fst e \<noteq> i) ll"

text \<open>\<open>time.Date(9999, 1, 1, 0, 0, 0, 0, time.UTC)\<close>: 9998 years after the zero time, 2424 of them leap.\<close>

definition far_future :: time where
  "far_future = (9998 * 365 + 2424) * 86400 * second"

definition calcExpiresAt :: "time \<Rightarrow> int \<Rightarrow> time" where
  "calcExpiresAt now ttlSeconds =
     (if ttlSeconds > 0 then now + wrap64 (ttlSeconds * second) else far_future)"

definition removeEntry :: "cache_entry \<Rightarrow> lru \<Rightarrow> lru" where
  "removeEntry ent c =
     c\<lparr>lru_ll := ll_remove (ent_element ent) (lru_ll c), lru_data := gm_del (ent_key ent) (lru_data c)\<rparr>"

definition removeOldest :: "lru \<Rightarrow> lru" where
  "removeOldest c =
     (if lru_ll c = [] then c
      else let (i, key) = last (lru_ll c)
           in c\<lparr>lru_ll := ll_remove i (lru_ll c), lru_data := gm_del key (lru_data c)\<rparr>)"

text \<open>\<open>found = false\<close> is \<open>None\<close>, a value found is \<open>Some\<close>.\<close>

definition lru_Get :: "poll \<Rightarrow> time \<Rightarrow> string \<Rightarrow> lru \<Rightarrow> lru \<times> bytes option result" where
  "lru_Get p now key c =
     (case p of Some e \<Rightarrow> (c, Inl (CtxErr e)) | None \<Rightarrow>
      (case gm_get (lru_data c) key of
         Some ent \<Rightarrow>
           if now > ent_expiresAt ent then (removeEntry ent c, Inr None)
           else (c\<lparr>lru_ll := ll_move_to_front (ent_element ent) (lru_ll c)\<rparr>, Inr (Some (ent_value ent)))
       | None \<Rightarrow> (c, Inr None)))"

definition lru_Set :: "poll \<Rightarrow> time \<Rightarrow> string \<Rightarrow> bytes \<Rightarrow> int \<Rightarrow> lru \<Rightarrow> lru \<times> unit result" where
  "lru_Set p now key value ttlSeconds c =
     (case p of Some e \<Rightarrow> (c, Inl (CtxErr e)) | None \<Rightarrow>
      (case gm_get (lru_data c) key of
         Some ent \<Rightarrow>
           (c\<lparr>lru_data := gm_put key
                (ent\<lparr>ent_value := value, ent_expiresAt := calcExpiresAt now ttlSeconds\<rparr>) (lru_data c),
              lru_ll := ll_move_to_front (ent_element ent) (lru_ll c)\<rparr>, Inr ())
       | None \<Rightarrow>
           let c1 = (if int (length (lru_ll c)) \<ge> lru_maxSize c then removeOldest c else c);
               i = lru_next c1;
               ent = \<lparr>ent_key = key, ent_value = value,
                      ent_expiresAt = calcExpiresAt now ttlSeconds, ent_element = i\<rparr>
           in (c1\<lparr>lru_ll := (i, key) # lru_ll c1, lru_data := gm_put key ent (lru_data c1),
                  lru_next := Suc i\<rparr>, Inr ())))"

definition lru_Delete :: "poll \<Rightarrow> string \<Rightarrow> lru \<Rightarrow> lru \<times> unit result" where
  "lru_Delete p key c =
     (case p of Some e \<Rightarrow> (c, Inl (CtxErr e)) | None \<Rightarrow>
      (case gm_get (lru_data c) key of
         Some ent \<Rightarrow> (removeEntry ent c, Inr ())
       | None \<Rightarrow> (c, Inr ())))"

definition lru_Close :: "lru \<Rightarrow> lru \<times> unit result" where
  "lru_Close c = (c\<lparr>lru_data := [], lru_ll := []\<rparr>, Inr ())"

text \<open>\<open>Stats\<close> is a map from names to values of any type.\<close>

datatype stat_value = StatString string | StatInt int

type_synonym cache_stats = "(string, stat_value) gomap"

definition lru_Stats :: "lru \<Rightarrow> cache_stats" where
  "lru_Stats c = [(''type'', StatString ''lru-memory''), (''total_keys'', StatInt (int (length (lru_data c)))),
     (''max_size'', StatInt (lru_maxSize c))]"

section \<open>The well-formedness invariant\<close>

text \<open>
  Map and list hold the same keys, each key once, each element once, and the links agree; the
  element numbers in use are below the counter.
\<close>

definition lru_wf :: "lru \<Rightarrow> bool" where
  "lru_wf c \<longleftrightarrow>
     gm_ok (lru_data c) \<and> distinct (map fst (lru_ll c)) \<and> distinct (map snd (lru_ll c)) \<and>
     set (map snd (lru_ll c)) = gm_keys (lru_data c) \<and>
     (\<forall>k ent. gm_get (lru_data c) k = Some ent \<longrightarrow>
        ent_key ent = k \<and> (ent_element ent, k) \<in> set (lru_ll c)) \<and>
     (\<forall>e \<in> set (lru_ll c). fst e < lru_next c)"

lemma lru_wfD:
  assumes "lru_wf c"
  shows "gm_ok (lru_data c)" and "distinct (map fst (lru_ll c))" and "distinct (map snd (lru_ll c))"
    and "snd ` set (lru_ll c) = gm_keys (lru_data c)"
    and "gm_get (lru_data c) k = Some ent \<Longrightarrow> ent_key ent = k"
    and "gm_get (lru_data c) k = Some ent \<Longrightarrow> (ent_element ent, k) \<in> set (lru_ll c)"
    and "e \<in> set (lru_ll c) \<Longrightarrow> fst e < lru_next c"
  using assms by (auto simp: lru_wf_def)

text \<open>An element is determined by its number and by its key.\<close>

lemma distinct_fst_inj: "distinct (map fst xs) \<Longrightarrow> (a, b) \<in> set xs \<Longrightarrow> (a, b') \<in> set xs \<Longrightarrow> b = b'"
  by (metis eq_key_imp_eq_value)

lemma distinct_snd_inj: "distinct (map snd xs) \<Longrightarrow> (a, b) \<in> set xs \<Longrightarrow> (a', b) \<in> set xs \<Longrightarrow> a = a'"
  by (metis distinct_map inj_onD prod.sel)

lemma filter_fst_eq_filter_snd:
  "distinct (map fst ll) \<Longrightarrow> distinct (map snd ll) \<Longrightarrow> (i, k) \<in> set ll \<Longrightarrow> e \<in> set ll \<Longrightarrow>
   fst e = i \<longleftrightarrow> snd e = k"
  by (cases e) (metis distinct_fst_inj distinct_snd_inj fst_conv snd_conv)

lemma ll_remove_by_key:
  "distinct (map fst ll) \<Longrightarrow> distinct (map snd ll) \<Longrightarrow> (i, k) \<in> set ll \<Longrightarrow>
   ll_remove i ll = filter (\<lambda>e. snd e \<noteq> k) ll"
  unfolding ll_remove_def by (rule filter_cong) (auto simp: filter_fst_eq_filter_snd)

lemma filter_the_key:
  "distinct (map snd ll) \<Longrightarrow> (i, k) \<in> set ll \<Longrightarrow> filter (\<lambda>e. snd e = k) ll = [(i, k)]"
proof (induction ll)
  case Nil
  then show ?case by simp
next
  case (Cons e ll)
  show ?case
  proof (cases "snd e = k")
    case True
    then have "k \<notin> snd ` set ll" using Cons.prems(1) by auto
    then have "filter (\<lambda>e. snd e = k) ll = []" by (auto simp: filter_empty_conv)
    moreover have "e = (i, k)" using Cons.prems(2) \<open>k \<notin> snd ` set ll\<close> by (force simp: image_iff)
    ultimately show ?thesis by simp
  next
    case False
    then show ?thesis using Cons by auto
  qed
qed

lemma ll_move_to_front_by_key:
  assumes "distinct (map fst ll)" and "distinct (map snd ll)" and "(i, k) \<in> set ll"
  shows "ll_move_to_front i ll = (i, k) # filter (\<lambda>e. snd e \<noteq> k) ll"
proof -
  have "filter (\<lambda>e. fst e = i) ll = filter (\<lambda>e. snd e = k) ll"
    by (rule filter_cong) (use assms in \<open>auto simp: filter_fst_eq_filter_snd\<close>)
  moreover have "filter (\<lambda>e. fst e \<noteq> i) ll = filter (\<lambda>e. snd e \<noteq> k) ll"
    using ll_remove_by_key[OF assms] by (simp add: ll_remove_def)
  ultimately show ?thesis by (simp add: ll_move_to_front_def filter_the_key[OF assms(2,3)])
qed


section \<open>The abstract cache: a recency queue\<close>

text \<open>
  What the cache promises: a queue of (key, value, expiry), most recently used first, at most
  one entry a key. \<open>spec_get\<close> and \<open>spec_set\<close> are the textbook LRU operations on it.
\<close>

type_synonym recency = "(string \<times> bytes \<times> time) list"

definition spec_drop :: "string \<Rightarrow> recency \<Rightarrow> recency" where
  "spec_drop k q = filter (\<lambda>x. fst x \<noteq> k) q"

definition spec_get :: "time \<Rightarrow> string \<Rightarrow> recency \<Rightarrow> recency \<times> bytes option" where
  "spec_get now k q =
     (case map_of q k of
        None \<Rightarrow> (q, None)
      | Some (v, x) \<Rightarrow>
          if now > x then (spec_drop k q, None) else ((k, v, x) # spec_drop k q, Some v))"

definition spec_set :: "string \<Rightarrow> bytes \<Rightarrow> time \<Rightarrow> int \<Rightarrow> recency \<Rightarrow> recency" where
  "spec_set k v x cap q =
     (k, v, x) # (if k \<in> fst ` set q then spec_drop k q
                  else if int (length q) \<ge> cap then butlast q else q)"

definition entry_of :: "(string, cache_entry) gomap \<Rightarrow> element \<Rightarrow> string \<times> bytes \<times> time" where
  "entry_of m e =
     (snd e, case gm_get m (snd e) of Some ent \<Rightarrow> (ent_value ent, ent_expiresAt ent) | None \<Rightarrow> ([], 0))"

definition lru_abs :: "lru \<Rightarrow> recency" where
  "lru_abs c = map (entry_of (lru_data c)) (lru_ll c)"

lemma fst_entry_of [simp]: "fst (entry_of m e) = snd e"
  by (simp add: entry_of_def)

lemma length_lru_abs [simp]: "length (lru_abs c) = length (lru_ll c)"
  by (simp add: lru_abs_def)

lemma keys_lru_abs: "map fst (lru_abs c) = map snd (lru_ll c)"
  by (simp add: lru_abs_def)

lemma set_keys_lru_abs: "lru_wf c \<Longrightarrow> fst ` set (lru_abs c) = gm_keys (lru_data c)"
  by (metis keys_lru_abs list.set_map lru_wfD(4))

lemma distinct_keys_lru_abs: "lru_wf c \<Longrightarrow> distinct (map fst (lru_abs c))"
  by (simp add: keys_lru_abs lru_wfD)

lemma length_lru_data: "lru_wf c \<Longrightarrow> length (lru_data c) = length (lru_ll c)"
  by (metis distinct_card gm_len length_map list.set_map lru_wfD(1,3,4))

text \<open>Looking a key up in the map is looking it up in the queue.\<close>

lemma map_of_lru_abs:
  assumes wf: "lru_wf c"
  shows "map_of (lru_abs c) k =
    map_option (\<lambda>ent. (ent_value ent, ent_expiresAt ent)) (gm_get (lru_data c) k)"
proof (cases "gm_get (lru_data c) k")
  case None
  then have "k \<notin> fst ` set (lru_abs c)" using wf by (simp add: set_keys_lru_abs gm_get_None)
  then show ?thesis using None by (simp add: map_of_eq_None_iff[THEN iffD2])
next
  case (Some ent)
  then have "(ent_element ent, k) \<in> set (lru_ll c)" using wf lru_wfD(6) by blast
  then have "entry_of (lru_data c) (ent_element ent, k) \<in> set (lru_abs c)" by (simp add: lru_abs_def)
  then have "(k, ent_value ent, ent_expiresAt ent) \<in> set (lru_abs c)" using Some by (simp add: entry_of_def)
  then show ?thesis using Some wf by (simp add: distinct_keys_lru_abs)
qed

text \<open>Changing one key of the map changes no other entry of the queue.\<close>

lemma entry_of_del: "snd e \<noteq> k \<Longrightarrow> entry_of (gm_del k m) e = entry_of m e"
  by (simp add: entry_of_def)

lemma entry_of_put: "snd e \<noteq> k \<Longrightarrow> entry_of (gm_put k v m) e = entry_of m e"
  by (simp add: entry_of_def)

lemma spec_drop_map: "spec_drop k (map (entry_of m) ll) = map (entry_of m) (filter (\<lambda>e. snd e \<noteq> k) ll)"
  by (simp add: spec_drop_def filter_map comp_def)

lemma map_entry_of_drop:
  "(\<And>e. snd e \<noteq> k \<Longrightarrow> entry_of m' e = entry_of m e) \<Longrightarrow>
   map (entry_of m') (filter (\<lambda>e. snd e \<noteq> k) ll) = spec_drop k (map (entry_of m) ll)"
  by (simp add: spec_drop_map)

section \<open>The internal steps\<close>

lemma removeEntry_simps [simp]:
  "lru_maxSize (removeEntry ent c) = lru_maxSize c" "lru_next (removeEntry ent c) = lru_next c"
  by (simp_all add: removeEntry_def)

lemma removeEntry_ll:
  assumes "lru_wf c" and "gm_get (lru_data c) k = Some ent"
  shows "lru_ll (removeEntry ent c) = filter (\<lambda>e. snd e \<noteq> k) (lru_ll c)"
    and "lru_data (removeEntry ent c) = gm_del k (lru_data c)"
  using assms by (simp_all add: removeEntry_def ll_remove_by_key[OF lru_wfD(2,3,6)] lru_wfD(5))

lemma removeEntry_abs:
  assumes "lru_wf c" and "gm_get (lru_data c) k = Some ent"
  shows "lru_abs (removeEntry ent c) = spec_drop k (lru_abs c)"
  using assms by (simp add: lru_abs_def removeEntry_ll map_entry_of_drop entry_of_del)

lemma lru_wf_drop:
  assumes "lru_wf c"
  shows "lru_wf (c\<lparr>lru_ll := filter (\<lambda>e. snd e \<noteq> k) (lru_ll c), lru_data := gm_del k (lru_data c)\<rparr>)"
  using assms by (auto simp: lru_wf_def distinct_map_filter)

lemma removeEntry_wf [inv_intro]:
  assumes "lru_wf c" and "gm_get (lru_data c) k = Some ent"
  shows "lru_wf (removeEntry ent c)"
proof -
  have "removeEntry ent c = c\<lparr>lru_ll := filter (\<lambda>e. snd e \<noteq> k) (lru_ll c), lru_data := gm_del k (lru_data c)\<rparr>"
    using removeEntry_ll[OF assms] by (simp add: removeEntry_def)
  then show ?thesis using lru_wf_drop[OF assms(1)] by simp
qed

lemma filter_last_key:
  "distinct (map snd ll) \<Longrightarrow> ll \<noteq> [] \<Longrightarrow> filter (\<lambda>e. snd e \<noteq> snd (last ll)) ll = butlast ll"
proof (induction ll rule: rev_induct)
  case Nil
  then show ?case by simp
next
  case (snoc e ll)
  then have "filter (\<lambda>x. snd x \<noteq> snd e) ll = ll" by (auto simp: filter_id_conv image_iff)
  then show ?case by simp
qed

lemma removeOldest_eq:
  assumes "lru_wf c" and "lru_ll c \<noteq> []"
  shows "removeOldest c =
    c\<lparr>lru_ll := butlast (lru_ll c), lru_data := gm_del (snd (last (lru_ll c))) (lru_data c)\<rparr>"
proof -
  obtain i k where l: "last (lru_ll c) = (i, k)" by (cases "last (lru_ll c)")
  then have "(i, k) \<in> set (lru_ll c)" using assms(2) last_in_set by metis
  then have "ll_remove i (lru_ll c) = butlast (lru_ll c)"
    using assms l filter_last_key[of "lru_ll c"] by (simp add: ll_remove_by_key[OF lru_wfD(2,3)] lru_wfD)
  then show ?thesis using assms l by (simp add: removeOldest_def)
qed

lemma removeOldest_abs: "lru_wf c \<Longrightarrow> lru_abs (removeOldest c) = butlast (lru_abs c)"
proof (cases "lru_ll c = []")
  case True
  then show ?thesis by (simp add: removeOldest_def lru_abs_def)
next
  case False
  assume wf: "lru_wf c"
  let ?k = "snd (last (lru_ll c))"
  have "lru_abs (removeOldest c) = map (entry_of (gm_del ?k (lru_data c))) (filter (\<lambda>e. snd e \<noteq> ?k) (lru_ll c))"
    using wf False by (simp add: lru_abs_def removeOldest_eq filter_last_key lru_wfD)
  also have "\<dots> = map (entry_of (lru_data c)) (filter (\<lambda>e. snd e \<noteq> ?k) (lru_ll c))"
    by (simp add: entry_of_del)
  also have "\<dots> = butlast (lru_abs c)"
    using wf False by (simp add: lru_abs_def filter_last_key lru_wfD map_butlast)
  finally show ?thesis .
qed

lemma removeOldest_wf [inv_intro]: "lru_wf c \<Longrightarrow> lru_wf (removeOldest c)"
proof (cases "lru_ll c = []")
  case True
  then show "lru_wf c \<Longrightarrow> ?thesis" by (simp add: removeOldest_def)
next
  case False
  assume wf: "lru_wf c"
  show ?thesis
    using lru_wf_drop[OF wf, of "snd (last (lru_ll c))"] wf False
    by (simp add: removeOldest_eq filter_last_key lru_wfD)
qed


section \<open>Moving an element to the front\<close>

text \<open>\<open>touch\<close> is the effect of \<open>MoveToFront\<close> on a cache that holds the key.\<close>

lemma touch_wf:
  assumes wf: "lru_wf c" and ent: "gm_get (lru_data c) k = Some ent"
  shows "lru_wf (c\<lparr>lru_ll := ll_move_to_front (ent_element ent) (lru_ll c)\<rparr>)"
proof -
  have "mset (ll_move_to_front (ent_element ent) (lru_ll c)) = mset (lru_ll c)"
    by (simp add: ll_move_to_front_def)
  then have st: "set (ll_move_to_front (ent_element ent) (lru_ll c)) = set (lru_ll c)"
    and d1: "distinct (map fst (ll_move_to_front (ent_element ent) (lru_ll c)))"
    and d2: "distinct (map snd (ll_move_to_front (ent_element ent) (lru_ll c)))"
    using wf by (metis mset_eq_setD, metis lru_wfD(2) mset_eq_imp_distinct_iff mset_map,
      metis lru_wfD(3) mset_eq_imp_distinct_iff mset_map)
  show ?thesis using wf st d1 d2 unfolding lru_wf_def by simp
qed

lemma touch_abs:
  assumes wf: "lru_wf c" and ent: "gm_get (lru_data c) k = Some ent"
  shows "map (entry_of m) (ll_move_to_front (ent_element ent) (lru_ll c)) =
    entry_of m (ent_element ent, k) # spec_drop k (map (entry_of m) (lru_ll c))"
  using ll_move_to_front_by_key[OF lru_wfD(2,3)[OF wf] lru_wfD(6)[OF wf ent]]
  by (simp add: spec_drop_map)

section \<open>The operations refine the recency queue\<close>

lemma lru_Get_abs:
  assumes wf: "lru_wf c"
  shows "lru_abs (fst (lru_Get None now k c)) = fst (spec_get now k (lru_abs c))"
    and "snd (lru_Get None now k c) = Inr (snd (spec_get now k (lru_abs c)))"
proof -
  have "lru_abs (fst (lru_Get None now k c)) = fst (spec_get now k (lru_abs c)) \<and>
    snd (lru_Get None now k c) = Inr (snd (spec_get now k (lru_abs c)))"
  proof (cases "gm_get (lru_data c) k")
    case None
    then show ?thesis by (simp add: lru_Get_def spec_get_def map_of_lru_abs[OF wf])
  next
    case (Some ent)
    have "entry_of (lru_data c) (ent_element ent, k) = (k, ent_value ent, ent_expiresAt ent)"
      using Some by (simp add: entry_of_def)
    then have "lru_abs (c\<lparr>lru_ll := ll_move_to_front (ent_element ent) (lru_ll c)\<rparr>) =
      (k, ent_value ent, ent_expiresAt ent) # spec_drop k (lru_abs c)"
      using touch_abs[OF wf Some] by (simp add: lru_abs_def)
    then show ?thesis
      using Some removeEntry_abs[OF wf Some]
      by (simp add: lru_Get_def spec_get_def map_of_lru_abs[OF wf])
  qed
  then show "lru_abs (fst (lru_Get None now k c)) = fst (spec_get now k (lru_abs c))"
    and "snd (lru_Get None now k c) = Inr (snd (spec_get now k (lru_abs c)))" by blast+
qed

lemma lru_Get_wf [inv_intro]: "lru_wf c \<Longrightarrow> lru_wf (fst (lru_Get p now k c))"
  by (auto simp: lru_Get_def split: option.splits intro: removeEntry_wf touch_wf)

lemma lru_insert_abs:
  assumes wf: "lru_wf c" and new: "k \<notin> gm_keys (lru_data c)"
  shows "lru_abs (c\<lparr>lru_ll := (i, k) # lru_ll c,
      lru_data := gm_put k \<lparr>ent_key = k, ent_value = v, ent_expiresAt = x, ent_element = i\<rparr> (lru_data c),
      lru_next := n\<rparr>) = (k, v, x) # lru_abs c"
proof -
  have "\<forall>e \<in> set (lru_ll c). snd e \<noteq> k" using wf new lru_wfD(4) by force
  then show ?thesis
    by (simp add: lru_abs_def entry_of_put cong: map_cong) (simp add: entry_of_def)
qed

lemma lru_insert_wf:
  assumes wf: "lru_wf c" and new: "k \<notin> gm_keys (lru_data c)"
  shows "lru_wf (c\<lparr>lru_ll := (lru_next c, k) # lru_ll c,
      lru_data := gm_put k \<lparr>ent_key = k, ent_value = v, ent_expiresAt = x, ent_element = lru_next c\<rparr> (lru_data c),
      lru_next := Suc (lru_next c)\<rparr>)"
proof -
  have "lru_next c \<notin> fst ` set (lru_ll c)" using lru_wfD(7)[OF wf] by force
  moreover have "k \<notin> snd ` set (lru_ll c)" using new lru_wfD(4)[OF wf] by simp
  ultimately show ?thesis using wf unfolding lru_wf_def by (auto simp: less_Suc_eq)
qed

text \<open>The two branches of \<open>Set\<close>: an update in place, and an insertion after a possible eviction.\<close>

definition lru_room :: "lru \<Rightarrow> lru" where
  "lru_room c = (if int (length (lru_ll c)) \<ge> lru_maxSize c then removeOldest c else c)"

lemma lru_room_wf [inv_intro]: "lru_wf c \<Longrightarrow> lru_wf (lru_room c)"
  by (simp add: lru_room_def removeOldest_wf)

lemma lru_room_abs:
  "lru_wf c \<Longrightarrow> lru_abs (lru_room c) =
    (if int (length (lru_abs c)) \<ge> lru_maxSize c then butlast (lru_abs c) else lru_abs c)"
  by (simp add: lru_room_def removeOldest_abs)

lemma removeOldest_keys: "lru_wf c \<Longrightarrow> gm_keys (lru_data (removeOldest c)) \<subseteq> gm_keys (lru_data c)"
  by (auto simp: removeOldest_def split: prod.splits)

lemma lru_room_keys: "lru_wf c \<Longrightarrow> k \<notin> gm_keys (lru_data c) \<Longrightarrow> k \<notin> gm_keys (lru_data (lru_room c))"
  using removeOldest_keys by (auto simp: lru_room_def)

lemma lru_Set_hit:
  "gm_get (lru_data c) k = Some ent \<Longrightarrow> lru_Set None now k v ttl c =
    (c\<lparr>lru_data := gm_put k (ent\<lparr>ent_value := v, ent_expiresAt := calcExpiresAt now ttl\<rparr>) (lru_data c),
       lru_ll := ll_move_to_front (ent_element ent) (lru_ll c)\<rparr>, Inr ())"
  by (simp add: lru_Set_def)

lemma lru_Set_miss:
  "gm_get (lru_data c) k = None \<Longrightarrow> lru_Set None now k v ttl c =
    ((lru_room c)\<lparr>lru_ll := (lru_next (lru_room c), k) # lru_ll (lru_room c),
       lru_data := gm_put k \<lparr>ent_key = k, ent_value = v, ent_expiresAt = calcExpiresAt now ttl,
         ent_element = lru_next (lru_room c)\<rparr> (lru_data (lru_room c)),
       lru_next := Suc (lru_next (lru_room c))\<rparr>, Inr ())"
  by (simp add: lru_Set_def lru_room_def Let_def)

lemma lru_update_wf:
  assumes wf: "lru_wf c" and ent: "gm_get (lru_data c) k = Some ent"
  shows "lru_wf (c\<lparr>lru_data := gm_put k (ent\<lparr>ent_value := v, ent_expiresAt := x\<rparr>) (lru_data c)\<rparr>)"
proof -
  have "k \<in> gm_keys (lru_data c)" using ent by (rule gm_get_Some_key)
  then have "insert k (gm_keys (lru_data c)) = gm_keys (lru_data c)" by blast
  then show ?thesis using wf ent unfolding lru_wf_def by (simp split: if_splits)
qed

lemma lru_Set_wf [inv_intro]: "lru_wf c \<Longrightarrow> lru_wf (fst (lru_Set p now k v ttl c))"
proof (cases p)
  case (Some e)
  then show "lru_wf c \<Longrightarrow> ?thesis" by (simp add: lru_Set_def)
next
  case None
  assume wf: "lru_wf c"
  show ?thesis
  proof (cases "gm_get (lru_data c) k")
    case miss: None
    show ?thesis
      using lru_insert_wf[OF lru_room_wf[OF wf] lru_room_keys[OF wf]] miss None
      by (simp add: lru_Set_miss gm_get_None)
  next
    case (Some ent)
    let ?ent = "ent\<lparr>ent_value := v, ent_expiresAt := calcExpiresAt now ttl\<rparr>"
    have "lru_wf (c\<lparr>lru_data := gm_put k ?ent (lru_data c)\<rparr>)" by (rule lru_update_wf[OF wf Some])
    then show ?thesis
      using touch_wf[where k = k and ent = ?ent] Some None by (fastforce simp: lru_Set_hit)
  qed
qed

lemma lru_Set_abs:
  assumes wf: "lru_wf c"
  shows "lru_abs (fst (lru_Set None now k v ttl c)) =
    spec_set k v (calcExpiresAt now ttl) (lru_maxSize c) (lru_abs c)"
proof (cases "gm_get (lru_data c) k")
  case None
  then have "k \<notin> fst ` set (lru_abs c)" using wf by (simp add: set_keys_lru_abs gm_get_None)
  then show ?thesis
    using None lru_insert_abs[OF lru_room_wf[OF wf] lru_room_keys[OF wf]]
    by (simp add: lru_Set_miss gm_get_None spec_set_def lru_room_abs[OF wf])
next
  case (Some ent)
  let ?m = "gm_put k (ent\<lparr>ent_value := v, ent_expiresAt := calcExpiresAt now ttl\<rparr>) (lru_data c)"
  have "k \<in> fst ` set (lru_abs c)" using Some wf by (auto simp: set_keys_lru_abs gm_get_Some_key)
  moreover have "spec_drop k (map (entry_of ?m) (lru_ll c)) = spec_drop k (lru_abs c)"
    unfolding lru_abs_def spec_drop_map by (simp add: entry_of_put)
  moreover have "entry_of ?m (ent_element ent, k) = (k, v, calcExpiresAt now ttl)"
    by (simp add: entry_of_def)
  ultimately show ?thesis
    using Some touch_abs[OF wf Some, of ?m] by (simp add: lru_Set_hit lru_abs_def spec_set_def)
qed

lemma lru_Delete_wf [inv_intro]: "lru_wf c \<Longrightarrow> lru_wf (fst (lru_Delete p k c))"
  by (auto simp: lru_Delete_def split: option.splits intro: removeEntry_wf)

lemma spec_drop_absent: "k \<notin> fst ` set q \<Longrightarrow> spec_drop k q = q"
  by (force simp: spec_drop_def filter_id_conv)

lemma lru_Delete_abs: "lru_wf c \<Longrightarrow> lru_abs (fst (lru_Delete None k c)) = spec_drop k (lru_abs c)"
  by (auto simp: lru_Delete_def removeEntry_abs gm_get_None set_keys_lru_abs spec_drop_absent
      split: option.splits)

lemma lru_Close_wf [inv_intro]: "lru_wf (fst (lru_Close c))"
  by (simp add: lru_Close_def lru_wf_def)

lemma NewLRUCache_wf [inv_intro]: "lru_wf (NewLRUCache n)"
  by (simp add: NewLRUCache_def lru_wf_def)

lemma NewLRUCache_simps [simp]:
  "lru_ll (NewLRUCache n) = []" "lru_data (NewLRUCache n) = []" "lru_maxSize (NewLRUCache n) = n"
  "lru_abs (NewLRUCache n) = []"
  by (simp_all add: NewLRUCache_def lru_abs_def)

lemma lru_maxSize_const [simp]:
  "lru_maxSize (fst (lru_Get p now k c)) = lru_maxSize c"
  "lru_maxSize (fst (lru_Set p now k v ttl c)) = lru_maxSize c"
  "lru_maxSize (fst (lru_Delete p k c)) = lru_maxSize c"
  "lru_maxSize (fst (lru_Close c)) = lru_maxSize c"
  by (auto simp: lru_Get_def lru_Set_def lru_Delete_def lru_Close_def removeEntry_def removeOldest_def Let_def
      split: option.splits prod.splits)

end
