(* ===== verification/Lru_Runs.thy ===== *)
theory Lru_Runs
  imports Lru_Cache
begin

text \<open>
  Sequences of cache calls: every reachable cache is well formed and within its capacity, it is
  at all times the recency queue of the abstract cache, and a key survives as long as fewer than
  \<open>maxSize\<close> other keys are used after it.
\<close>

section \<open>Runs\<close>

datatype cache_op =
  OpGet poll time string
| OpSet poll time string bytes int
| OpDelete poll string
| OpClose

fun cache_step :: "cache_op \<Rightarrow> lru \<Rightarrow> lru" where
  "cache_step (OpGet p now k) c = fst (lru_Get p now k c)"
| "cache_step (OpSet p now k v ttl) c = fst (lru_Set p now k v ttl c)"
| "cache_step (OpDelete p k) c = fst (lru_Delete p k c)"
| "cache_step OpClose c = fst (lru_Close c)"

definition lru_run :: "cache_op list \<Rightarrow> lru \<Rightarrow> lru" where
  "lru_run ops c = fold cache_step ops c"

fun spec_step :: "int \<Rightarrow> cache_op \<Rightarrow> recency \<Rightarrow> recency" where
  "spec_step cap (OpGet p now k) q = (if p = None then fst (spec_get now k q) else q)"
| "spec_step cap (OpSet p now k v ttl) q = (if p = None then spec_set k v (calcExpiresAt now ttl) cap q else q)"
| "spec_step cap (OpDelete p k) q = (if p = None then spec_drop k q else q)"
| "spec_step cap OpClose q = []"

definition spec_run :: "int \<Rightarrow> cache_op list \<Rightarrow> recency \<Rightarrow> recency" where
  "spec_run cap ops q = fold (spec_step cap) ops q"

lemma cache_step_wf [inv_intro]: "lru_wf c \<Longrightarrow> lru_wf (cache_step op c)"
  by (cases op) (auto intro: inv_intro)

lemma cache_step_maxSize [simp]: "lru_maxSize (cache_step op c) = lru_maxSize c"
  by (cases op) simp_all

lemma lru_run_wf [inv_intro]: "lru_wf c \<Longrightarrow> lru_wf (lru_run ops c)"
  unfolding lru_run_def by (induction ops arbitrary: c) (auto intro: inv_intro)

lemma lru_run_maxSize [simp]: "lru_maxSize (lru_run ops c) = lru_maxSize c"
  unfolding lru_run_def by (induction ops arbitrary: c) simp_all

lemma lru_cancelled [simp]:
  "fst (lru_Get (Some e) now k c) = c" "fst (lru_Set (Some e) now k v ttl c) = c"
  "fst (lru_Delete (Some e) k c) = c"
  by (simp_all add: lru_Get_def lru_Set_def lru_Delete_def)

lemma cache_step_abs:
  "lru_wf c \<Longrightarrow> lru_abs (cache_step op c) = spec_step (lru_maxSize c) op (lru_abs c)"
proof (cases op)
  case (OpGet p now k)
  then show "lru_wf c \<Longrightarrow> ?thesis" by (cases p) (simp_all add: lru_Get_abs)
next
  case (OpSet p now k v ttl)
  then show "lru_wf c \<Longrightarrow> ?thesis" by (cases p) (simp_all add: lru_Set_abs)
next
  case (OpDelete p k)
  then show "lru_wf c \<Longrightarrow> ?thesis" by (cases p) (simp_all add: lru_Delete_abs)
next
  case OpClose
  then show ?thesis by (simp add: lru_Close_def lru_abs_def)
qed

lemma lru_run_abs: "lru_wf c \<Longrightarrow> lru_abs (lru_run ops c) = spec_run (lru_maxSize c) ops (lru_abs c)"
  unfolding lru_run_def spec_run_def
  by (induction ops arbitrary: c) (simp_all add: cache_step_abs cache_step_wf)

section \<open>Capacity\<close>

lemma length_spec_drop: "length (spec_drop k q) \<le> length q"
  by (simp add: spec_drop_def)

lemma length_spec_get: "distinct (map fst q) \<Longrightarrow> length (fst (spec_get now k q)) \<le> length q"
proof (cases "map_of q k")
  case None
  then show ?thesis by (simp add: spec_get_def)
next
  case (Some vx)
  then have "k \<in> fst ` set q" by (metis map_of_eq_None_iff option.distinct(1))
  then have "length (spec_drop k q) < length q"
    unfolding spec_drop_def by (auto intro!: length_filter_less)
  then show ?thesis using Some by (auto simp: spec_get_def split: prod.splits)
qed

lemma length_spec_set:
  assumes "int (length q) \<le> max 1 cap"
  shows "int (length (spec_set k v x cap q)) \<le> max 1 cap"
proof (cases "k \<in> fst ` set q")
  case True
  then have "length (spec_drop k q) < length q"
    unfolding spec_drop_def by (auto intro!: length_filter_less)
  then show ?thesis using True assms by (simp add: spec_set_def)
next
  case False
  then show ?thesis using assms by (cases q rule: rev_cases) (auto simp: spec_set_def)
qed

lemma cache_step_capacity:
  assumes wf: "lru_wf c" and cap: "int (length (lru_abs c)) \<le> max 1 (lru_maxSize c)"
  shows "int (length (lru_abs (cache_step op c))) \<le> max 1 (lru_maxSize c)"
proof (cases op)
  case (OpGet p now k)
  then show ?thesis
    unfolding cache_step_abs[OF wf] using cap length_spec_get[OF distinct_keys_lru_abs[OF wf], of now k]
    by (simp del: length_lru_abs)
next
  case (OpSet p now k v ttl)
  then show ?thesis
    unfolding cache_step_abs[OF wf] using cap length_spec_set by (simp del: length_lru_abs)
next
  case (OpDelete p k)
  then show ?thesis
    unfolding cache_step_abs[OF wf] using cap length_spec_drop[of k "lru_abs c"]
    by (simp del: length_lru_abs)
next
  case OpClose
  then show ?thesis unfolding cache_step_abs[OF wf] by (simp del: length_lru_abs)
qed

lemma lru_run_capacity:
  "lru_wf c \<Longrightarrow> int (length (lru_ll c)) \<le> max 1 (lru_maxSize c) \<Longrightarrow>
   int (length (lru_ll (lru_run ops c))) \<le> max 1 (lru_maxSize c)"
  unfolding lru_run_def
proof (induction ops arbitrary: c)
  case Nil
  then show ?case by simp
next
  case (Cons op ops)
  then show ?case
    using cache_step_capacity[OF Cons.prems(1), of op] cache_step_wf[OF Cons.prems(1), of op]
      Cons.IH[of "cache_step op c"] by simp
qed

section \<open>Retention\<close>

text \<open>
  \<open>op_keeps k x\<close>: the call neither overwrites nor deletes \<open>k\<close>, nor reads it after its expiry
  \<open>x\<close> (which would drop it). \<open>op_key\<close> is the key a call uses.
\<close>

fun op_keeps :: "string \<Rightarrow> time \<Rightarrow> cache_op \<Rightarrow> bool" where
  "op_keeps k x (OpGet p now k') = (k' = k \<longrightarrow> now \<le> x)"
| "op_keeps k x (OpSet p now k' v ttl) = (k' \<noteq> k)"
| "op_keeps k x (OpDelete p k') = (k' \<noteq> k)"
| "op_keeps k x OpClose = False"

fun op_key :: "cache_op \<Rightarrow> string set" where
  "op_key (OpGet p now k) = {k}"
| "op_key (OpSet p now k v ttl) = {k}"
| "op_key (OpDelete p k) = {k}"
| "op_key OpClose = {}"

definition used_keys :: "cache_op list \<Rightarrow> string set" where
  "used_keys ops = \<Union> (set (map op_key ops))"

text \<open>The queue holds \<open>k\<close>, and only keys of \<open>T\<close> are in front of it.\<close>

definition ahead :: "string \<Rightarrow> bytes \<Rightarrow> time \<Rightarrow> string set \<Rightarrow> recency \<Rightarrow> bool" where
  "ahead k v x T q \<longleftrightarrow> distinct (map fst q) \<and>
     (\<exists>a b. q = a @ (k, v, x) # b \<and> fst ` set a \<subseteq> T)"

lemma aheadE:
  assumes "ahead k v x T q"
  obtains a b where "q = a @ (k, v, x) # b" and "fst ` set a \<subseteq> T" and "k \<notin> fst ` set a"
    and "k \<notin> fst ` set b" and "distinct (map fst a)" and "distinct (map fst q)"
  using assms unfolding ahead_def by auto

lemma spec_drop_append: "spec_drop k (a @ b) = spec_drop k a @ spec_drop k b"
  by (simp add: spec_drop_def)

lemma spec_drop_Cons: "spec_drop k (e # b) = (if fst e = k then spec_drop k b else e # spec_drop k b)"
  by (simp add: spec_drop_def)

lemma distinct_spec_drop: "distinct (map fst q) \<Longrightarrow> distinct (map fst (spec_drop k q))"
  by (simp add: spec_drop_def distinct_map_filter)

lemma spec_drop_key: "k \<notin> fst ` set (spec_drop k q)"
  by (auto simp: spec_drop_def)

lemma spec_drop_subset: "fst ` set (spec_drop k q) \<subseteq> fst ` set q"
  by (auto simp: spec_drop_def)

lemma ahead_drop:
  assumes "ahead k v x T q" and "k' \<noteq> k"
  shows "ahead k v x T (spec_drop k' q)"
  using assms(1)
proof (rule aheadE)
  fix a b
  assume q: "q = a @ (k, v, x) # b" and a: "fst ` set a \<subseteq> T" and d: "distinct (map fst q)"
  have "spec_drop k' q = spec_drop k' a @ (k, v, x) # spec_drop k' b"
    using q assms(2) by (simp add: spec_drop_append spec_drop_Cons)
  moreover have "fst ` set (spec_drop k' a) \<subseteq> T" using a spec_drop_subset by blast
  ultimately show ?thesis using distinct_spec_drop[OF d] unfolding ahead_def by blast
qed

lemma ahead_front:
  assumes "ahead k v x T q" and "k' \<noteq> k" and "k' \<in> T"
  shows "ahead k v x T ((k', w) # spec_drop k' q)"
proof -
  obtain a b where q: "spec_drop k' q = a @ (k, v, x) # b" and a: "fst ` set a \<subseteq> T"
    and d: "distinct (map fst (spec_drop k' q))"
    using ahead_drop[OF assms(1,2)] by (rule aheadE)
  have "(k', w) # spec_drop k' q = ((k', w) # a) @ (k, v, x) # b" using q by simp
  moreover have "distinct (map fst ((k', w) # spec_drop k' q))" using d spec_drop_key by auto
  moreover have "fst ` set ((k', w) # a) \<subseteq> T" using a assms(3) by simp
  ultimately show ?thesis unfolding ahead_def by blast
qed

lemma ahead_self:
  assumes "distinct (map fst q)"
  shows "ahead k v x T ((k, v, x) # spec_drop k q)"
  using distinct_spec_drop[OF assms] spec_drop_key unfolding ahead_def
  by (auto intro: exI[of _ "[]"])

lemma ahead_lookup: "ahead k v x T q \<Longrightarrow> map_of q k = Some (v, x)"
  by (erule aheadE) (auto simp: map_add_Some_iff map_of_eq_None_iff)

text \<open>The eviction of a full cache never reaches \<open>k\<close>: too few keys can be in front of it.\<close>

lemma ahead_butlast:
  assumes ah: "ahead k v x T q" and fin: "finite T" and small: "int (card T) < cap"
    and k': "k' \<in> T" and new: "k' \<notin> fst ` set q" and full: "cap \<le> int (length q)"
  shows "ahead k v x T (butlast q)"
  using ah
proof (rule aheadE)
  fix a b
  assume q: "q = a @ (k, v, x) # b" and a: "fst ` set a \<subseteq> T"
    and da: "distinct (map fst a)" and d: "distinct (map fst q)"
  have "fst ` set a \<subseteq> T - {k'}" using a new q by auto
  then have "card (fst ` set a) \<le> card (T - {k'})" using fin by (simp add: card_mono)
  moreover have "card (fst ` set a) = length a" using distinct_card[OF da] by simp
  moreover have "card (T - {k'}) < card T" using k' fin by (rule card_Diff1_less[rotated])
  ultimately have "b \<noteq> []" using small full q by auto
  then have "butlast q = a @ (k, v, x) # butlast b" using q by (simp add: butlast_append)
  moreover have "distinct (map fst (butlast q))" using d by (metis distinct_butlast map_butlast)
  ultimately show ?thesis using a unfolding ahead_def by blast
qed

lemma ahead_step:
  assumes ah: "ahead k v x T q" and fin: "finite T" and small: "int (card T) < cap"
    and keeps: "op_keeps k x op" and keys: "op_key op - {k} \<subseteq> T"
  shows "ahead k v x T (spec_step cap op q)"
proof (cases op)
  case (OpGet p now k')
  show ?thesis
  proof (cases "k' = k")
    case True
    then show ?thesis
      using OpGet keeps ah ahead_lookup[OF ah] ahead_self[of q k v x T]
      by (auto simp: spec_get_def ahead_def)
  next
    case False
    then have "k' \<in> T" using OpGet keys by simp
    then show ?thesis
      using OpGet False ah ahead_drop[OF ah False] ahead_front[OF ah False]
      by (simp add: spec_get_def split: option.split prod.split)
  qed
next
  case (OpSet p now k' w ttl)
  then have ne: "k' \<noteq> k" and T: "k' \<in> T" using keeps keys by auto
  have "ahead k v x T ((k', z) # q')" if "ahead k v x T q'" and "k' \<notin> fst ` set q'" for q' z
    using ahead_front[OF that(1) ne T, of z] spec_drop_absent[OF that(2)] by simp
  moreover have "k' \<notin> fst ` set q \<Longrightarrow> k' \<notin> fst ` set (butlast q)" by (auto dest: in_set_butlastD)
  ultimately show ?thesis
    using OpSet ah ahead_front[OF ah ne T] ahead_butlast[OF ah fin small T]
    by (simp add: spec_set_def)
next
  case (OpDelete p k')
  then show ?thesis using keeps ah ahead_drop by simp
next
  case OpClose
  then show ?thesis using keeps by simp
qed

lemma ahead_run:
  "ahead k v x T q \<Longrightarrow> finite T \<Longrightarrow> int (card T) < cap \<Longrightarrow>
   list_all (op_keeps k x) ops \<Longrightarrow> used_keys ops - {k} \<subseteq> T \<Longrightarrow> ahead k v x T (spec_run cap ops q)"
  unfolding spec_run_def
proof (induction ops arbitrary: q)
  case Nil
  then show ?case by simp
next
  case (Cons op ops)
  then have "ahead k v x T (spec_step cap op q)"
    by (intro ahead_step) (auto simp: used_keys_def)
  then show ?case using Cons by (auto simp: used_keys_def)
qed

lemma finite_used_keys [simp]: "finite (used_keys ops)"
proof -
  have "finite (op_key op)" for op by (cases op) simp_all
  then show ?thesis by (simp add: used_keys_def)
qed

lemma spec_set_ahead:
  "distinct (map fst q) \<Longrightarrow> ahead k v x T (spec_set k v x cap q)"
  using distinct_spec_drop[of q k] spec_drop_key[of k q] unfolding ahead_def spec_set_def
  by (auto intro: exI[of _ "[]"] dest: in_set_butlastD simp: map_butlast distinct_butlast image_iff)

section \<open>The properties of the cache\<close>

text \<open>C1: whatever calls are made on a new cache, map and list stay linked one to one and the
  cache never holds more than \<open>maxSize\<close> keys (one, when \<open>maxSize\<close> is not positive).\<close>

theorem lru_always_well_formed:
  "lru_wf (lru_run ops (NewLRUCache n)) \<and> int (length (lru_data (lru_run ops (NewLRUCache n)))) \<le> max 1 n"
proof -
  let ?c = "lru_run ops (NewLRUCache n)"
  have wf: "lru_wf ?c" by (intro inv_intro)
  have "int (length (lru_ll ?c)) \<le> max 1 (lru_maxSize (NewLRUCache n))"
    by (rule lru_run_capacity) (simp_all add: NewLRUCache_wf)
  then show ?thesis using wf length_lru_data[OF wf] by simp
qed

text \<open>C2: the map-and-list cache is at all times the recency queue of the textbook LRU cache, and
  \<open>Get\<close> answers what the queue answers.\<close>

theorem lru_refines_recency_queue:
  fixes ops n
  defines "c \<equiv> lru_run ops (NewLRUCache n)" and "q \<equiv> spec_run n ops []"
  shows "lru_abs c = q \<and> snd (lru_Get None now k c) = Inr (snd (spec_get now k q))"
proof -
  have "lru_abs c = q" unfolding c_def q_def using lru_run_abs[OF NewLRUCache_wf, of ops n] by simp
  moreover have "lru_wf c" unfolding c_def by (intro inv_intro)
  ultimately show ?thesis using lru_Get_abs(2) by simp
qed

text \<open>C3: a value stored is found again as long as it has not expired, is not overwritten or
  deleted, and fewer than \<open>maxSize\<close> other keys are used in between: only least recently used keys
  are evicted.\<close>

theorem lru_retention:
  assumes "lru_wf c" and "list_all (op_keeps k (calcExpiresAt t0 ttl)) ops"
    and "int (card (used_keys ops - {k})) < lru_maxSize c" and "now \<le> calcExpiresAt t0 ttl"
  shows "snd (lru_Get None now k (lru_run ops (fst (lru_Set None t0 k v ttl c)))) = Inr (Some v)"
proof -
  let ?c = "fst (lru_Set None t0 k v ttl c)" and ?x = "calcExpiresAt t0 ttl"
  let ?T = "used_keys ops - {k}"
  have wf: "lru_wf ?c" using assms(1) by (rule lru_Set_wf)
  have "ahead k v ?x ?T (lru_abs ?c)"
    using assms(1) by (simp add: lru_Set_abs spec_set_ahead distinct_keys_lru_abs)
  then have "ahead k v ?x ?T (lru_abs (lru_run ops ?c))"
    using assms ahead_run[where T = ?T] by (simp add: lru_run_abs[OF wf])
  then have "map_of (lru_abs (lru_run ops ?c)) k = Some (v, ?x)" by (rule ahead_lookup)
  then show ?thesis using assms(4) wf by (simp add: lru_Get_abs(2) lru_run_wf spec_get_def)
qed

theorem lru_retention_witness:
  "snd (lru_Get None 10 ''a'' (lru_run [OpSet None 7 ''b'' ''2'' 60, OpGet None 8 ''a'', OpSet None 9 ''b'' ''3'' 0]
     (fst (lru_Set None 5 ''a'' ''1'' 60 (NewLRUCache 2))))) = Inr (Some ''1'')"
  by (rule lru_retention) (auto simp: NewLRUCache_wf used_keys_def calcExpiresAt_def
      second_def wrap64_def insert_Diff_if)

text \<open>For a time to live of 1 to 9223372036 seconds the entry expires exactly then; one second
  more overflows the 64-bit duration and the entry is stored already expired.\<close>

lemma lru_ttl_bounds:
  "(0 < ttl \<and> ttl \<le> 9223372036 \<longrightarrow> calcExpiresAt now ttl = now + ttl * 1000000000) \<and>
   calcExpiresAt now 9223372037 < now"
  by (simp add: calcExpiresAt_def second_def wrap64_def)

lemma lru_ttl_bounds_witness: "calcExpiresAt 5 300 = 5 + 300 * 1000000000"
  using lru_ttl_bounds[of 300 5] by simp

end
