(* ===== verification/Cache_Port.thy ===== *)
theory Cache_Port
  imports Lru_Runs
begin

text \<open>
  The port \<open>Cache\<close> (\<open>shared/ports/cache.go\<close>) as the record of operations that a service holds,
  and the contract it promises as a locale: what a cache holds at a time (\<open>live\<close>), that reading
  never invents a value, that storing and deleting change one key, that a cancelled call changes
  nothing. The LRU cache is interpreted as a provider of it.
\<close>

record 's cache_ops =
  c_Get :: "poll \<Rightarrow> time \<Rightarrow> string \<Rightarrow> 's \<Rightarrow> 's \<times> bytes option result"
  c_Set :: "poll \<Rightarrow> time \<Rightarrow> string \<Rightarrow> bytes \<Rightarrow> int \<Rightarrow> 's \<Rightarrow> 's \<times> unit result"
  c_Delete :: "poll \<Rightarrow> string \<Rightarrow> 's \<Rightarrow> 's \<times> unit result"

text \<open>A cache may fail (a server may be unreachable), but what it answers is what it holds.\<close>

locale cache_port =
  fixes ops :: "'s cache_ops"
    and live :: "time \<Rightarrow> 's \<Rightarrow> string \<Rightarrow> bytes option"
    and cinv :: "'s \<Rightarrow> bool"
  assumes get_answer: "cinv s \<Longrightarrow> snd (c_Get ops p now k s) = Inr r \<Longrightarrow> r = live now s k"
    and get_inv: "cinv s \<Longrightarrow> cinv (fst (c_Get ops p now k s))"
    and set_inv: "cinv s \<Longrightarrow> cinv (fst (c_Set ops p now k v ttl s))"
    and del_inv: "cinv s \<Longrightarrow> cinv (fst (c_Delete ops p k s))"
    and get_live: "cinv s \<Longrightarrow> live t (fst (c_Get ops p now k s)) j = Some w \<Longrightarrow> live t s j = Some w"
    and set_live: "cinv s \<Longrightarrow> live t (fst (c_Set ops p now k v ttl s)) j = Some w \<Longrightarrow>
      j = k \<and> w = v \<or> live t s j = Some w"
    and del_live: "cinv s \<Longrightarrow> live t (fst (c_Delete ops p k s)) j = Some w \<Longrightarrow> live t s j = Some w"
begin

text \<open>\<open>agrees dec R s\<close>: whatever the cache may ever answer decodes to what the source \<open>R\<close> of the
  data holds under that key, if it decodes at all.\<close>

definition agrees :: "(bytes \<Rightarrow> 'm option) \<Rightarrow> (string \<Rightarrow> 'm option) \<Rightarrow> 's \<Rightarrow> bool" where
  "agrees dec R s \<longleftrightarrow> (\<forall>t k b m. live t s k = Some b \<longrightarrow> dec b = Some m \<longrightarrow> R k = Some m)"

lemma agrees_get: "cinv s \<Longrightarrow> agrees dec R s \<Longrightarrow> agrees dec R (fst (c_Get ops p now k s))"
  unfolding agrees_def using get_live by blast

lemma agrees_del: "cinv s \<Longrightarrow> agrees dec R s \<Longrightarrow> agrees dec R (fst (c_Delete ops p k s))"
  unfolding agrees_def using del_live by blast

lemma agrees_set:
  "cinv s \<Longrightarrow> agrees dec R s \<Longrightarrow> (\<And>m. dec v = Some m \<Longrightarrow> R k = Some m) \<Longrightarrow>
   agrees dec R (fst (c_Set ops p now k v ttl s))"
  unfolding agrees_def using set_live by blast

lemma agrees_hit:
  "cinv s \<Longrightarrow> agrees dec R s \<Longrightarrow> snd (c_Get ops p now k s) = Inr (Some b) \<Longrightarrow> dec b = Some m \<Longrightarrow> R k = Some m"
  unfolding agrees_def using get_answer by metis

end

text \<open>A cache that never fails while the context is not done, and keeps what it is given.\<close>

locale reliable_cache = cache_port +
  assumes get_total: "cinv s \<Longrightarrow> snd (c_Get ops None now k s) = Inr (live now s k)"
    and get_done: "c_Get ops (Some e) now k s = (s, Inl (CtxErr e))"
    and set_total: "cinv s \<Longrightarrow> snd (c_Set ops None now k v ttl s) = Inr ()"
    and set_done: "c_Set ops (Some e) now k v ttl s = (s, Inl (CtxErr e))"
    and set_holds: "cinv s \<Longrightarrow> 0 < ttl \<Longrightarrow> ttl \<le> 9223372036 \<Longrightarrow> t \<le> now + ttl * second \<Longrightarrow>
      live t (fst (c_Set ops None now k v ttl s)) k = Some v"
begin

lemma set_get:
  "cinv s \<Longrightarrow> 0 < ttl \<Longrightarrow> ttl \<le> 9223372036 \<Longrightarrow> t \<le> now + ttl * second \<Longrightarrow>
   snd (c_Get ops None t k (fst (c_Set ops None now k v ttl s))) = Inr (Some v)"
  by (simp add: get_total set_inv set_holds)

end

section \<open>The LRU cache provides the port\<close>

definition lru_ops :: "lru cache_ops" where
  "lru_ops = \<lparr>c_Get = lru_Get, c_Set = lru_Set, c_Delete = lru_Delete\<rparr>"

definition lru_live :: "time \<Rightarrow> lru \<Rightarrow> string \<Rightarrow> bytes option" where
  "lru_live t c k =
     (case gm_get (lru_data c) k of
        Some ent \<Rightarrow> if t > ent_expiresAt ent then None else Some (ent_value ent)
      | None \<Rightarrow> None)"

lemma lru_ops_simps [simp]:
  "c_Get lru_ops = lru_Get" "c_Set lru_ops = lru_Set" "c_Delete lru_ops = lru_Delete"
  by (simp_all add: lru_ops_def)

lemma lru_Get_answer: "snd (lru_Get None now k c) = Inr (lru_live now c k)"
  by (simp add: lru_Get_def lru_live_def split: option.split)

lemma lru_removeEntry_live:
  "lru_wf c \<Longrightarrow> gm_get (lru_data c) k = Some ent \<Longrightarrow>
   lru_live t (removeEntry ent c) j = (if j = k then None else lru_live t c j)"
  by (simp add: lru_live_def removeEntry_ll)

lemma lru_live_ll [simp]: "lru_live t (c\<lparr>lru_ll := ll\<rparr>) = lru_live t c"
  by (simp add: fun_eq_iff lru_live_def)

lemma lru_Get_live:
  "lru_wf c \<Longrightarrow> lru_live t (fst (lru_Get p now k c)) j = Some w \<Longrightarrow> lru_live t c j = Some w"
  by (auto simp: lru_Get_def lru_removeEntry_live split: option.splits if_splits)

lemma lru_room_live: "lru_live t (lru_room c) j = Some w \<Longrightarrow> lru_live t c j = Some w"
  by (auto simp: lru_room_def removeOldest_def lru_live_def split: if_splits prod.splits option.splits)

lemma lru_Set_live:
  assumes "lru_wf c" and "lru_live t (fst (lru_Set p now k v ttl c)) j = Some w"
  shows "j = k \<and> w = v \<or> lru_live t c j = Some w"
proof (cases p)
  case (Some e)
  then show ?thesis using assms by simp
next
  case None
  show ?thesis
  proof (cases "gm_get (lru_data c) k")
    case miss: None
    then show ?thesis
      using assms None lru_room_live[of t c j w]
      by (auto simp: lru_Set_miss lru_live_def split: if_splits option.splits)
  next
    case (Some ent)
    then show ?thesis
      using assms None by (auto simp: lru_Set_hit lru_live_def split: if_splits option.splits)
  qed
qed

lemma lru_Delete_live:
  "lru_wf c \<Longrightarrow> lru_live t (fst (lru_Delete p k c)) j = Some w \<Longrightarrow> lru_live t c j = Some w"
  by (auto simp: lru_Delete_def lru_removeEntry_live split: option.splits if_splits)

lemma lru_Set_holds:
  "t \<le> calcExpiresAt now ttl \<Longrightarrow> lru_live t (fst (lru_Set None now k v ttl c)) k = Some v"
  by (cases "gm_get (lru_data c) k") (simp_all add: lru_Set_hit lru_Set_miss lru_live_def)

lemma calcExpiresAt_exact:
  "0 < ttl \<Longrightarrow> ttl \<le> 9223372036 \<Longrightarrow> calcExpiresAt now ttl = now + ttl * second"
  by (simp add: calcExpiresAt_def second_def wrap64_def)

interpretation lru_cache: reliable_cache lru_ops lru_live lru_wf
proof (unfold_locales, goal_cases)
  case (1 s p now k r)
  then show ?case by (cases p) (simp_all add: lru_Get_answer, simp add: lru_Get_def)
next
  case (2 s p now k)
  then show ?case by (simp add: lru_Get_wf)
next
  case (3 s p now k v ttl)
  then show ?case by (simp add: lru_Set_wf)
next
  case (4 s p k)
  then show ?case by (simp add: lru_Delete_wf)
next
  case (5 s t p now k j w)
  then show ?case by (simp add: lru_Get_live)
next
  case (6 s t p now k v ttl j w)
  then show ?case by (simp add: lru_Set_live)
next
  case (7 s t p k j w)
  then show ?case by (simp add: lru_Delete_live)
next
  case (8 s now k)
  then show ?case by (simp add: lru_Get_answer)
next
  case (9 e now k s)
  then show ?case by (simp add: lru_Get_def)
next
  case (10 s now k v ttl)
  then show ?case by (simp add: lru_Set_def Let_def split: option.split)
next
  case (11 e now k v ttl s)
  then show ?case by (simp add: lru_Set_def)
next
  case (12 s ttl t now k v)
  then show ?case by (simp add: lru_Set_holds calcExpiresAt_exact)
qed

end
