(* ===== verification/Uid.thy ===== *)
theory Uid
  imports Errors
begin

text \<open>
  Identifiers (\<open>shared/uid/uid.go\<close>). The parser of \<open>github.com/google/uuid\<close> is a parameter
  \<open>parses\<close>: whether \<open>uuid.Parse\<close> accepts a string. The package documents the accepted forms: 36
  characters, 36 with the \<open>urn:uuid:\<close> prefix, 38 with braces, or 32 without hyphens.
\<close>

definition IsValid :: "(string \<Rightarrow> bool) \<Rightarrow> string \<Rightarrow> bool" where
  "IsValid parses i = parses i"

text \<open>The error returned, if any.\<close>

definition uid_Validate :: "(string \<Rightarrow> bool) \<Rightarrow> string \<Rightarrow> string \<Rightarrow> err option" where
  "uid_Validate parses i fieldName =
     (if i = '''' then Some (Errorf (fieldName @ '': cannot be empty''))
      else if \<not> IsValid parses i then Some (Errorf (fieldName @ '': invalid UUID format''))
      else None)"

definition uuid_lengths :: "(string \<Rightarrow> bool) \<Rightarrow> bool" where
  "uuid_lengths parses \<longleftrightarrow> (\<forall>s. parses s \<longrightarrow> length s \<in> {32, 36, 38, 45})"

lemma uid_Validate_None: "uid_Validate parses i f = None \<longleftrightarrow> i \<noteq> [] \<and> parses i"
  by (simp add: uid_Validate_def IsValid_def)

lemma uid_Validate_length:
  "uuid_lengths parses \<Longrightarrow> length i \<notin> {32, 36, 38, 45} \<Longrightarrow> uid_Validate parses i f \<noteq> None"
  unfolding uid_Validate_None uuid_lengths_def by blast

lemma uid_Validate_Errorf: "uid_Validate parses i f = Some e \<Longrightarrow> \<exists>m. e = Errorf m"
  by (auto simp: uid_Validate_def split: if_splits)

end
