(* ===== verification/Spot_Service.thy ===== *)
theory Spot_Service
  imports Spot_Domain Cache_Port Uid
begin

text \<open>
  The spot service (\<open>spot-service/internal/service/service.go\<close>) and its gRPC handler
  (\<open>internal/handler/spot_handler.go\<close>). \<open>GetMarketByID\<close> reads through a cache; the cache is a record
  of operations (the port), possibly absent. JSON encoding of a market (which goes through the
  decimal library's own encoder) is the pair of parameters \<open>enc\<close> and \<open>dec\<close>.
\<close>

section \<open>ViewMarkets\<close>

text \<open>The two nested loops with their breaks: some user role is an allowed role.\<close>

fun has_access :: "string list \<Rightarrow> string list \<Rightarrow> bool" where
  "has_access [] allowed = False"
| "has_access (u # us) allowed = (if List.member allowed u then True else has_access us allowed)"

fun filter_markets :: "string list \<Rightarrow> 'd market list \<Rightarrow> 'd market list" where
  "filter_markets roles [] = []"
| "filter_markets roles (m # ms) =
     (if \<not> mk_Enabled m then filter_markets roles ms
      else if mk_DeletedAt m \<noteq> None then filter_markets roles ms
      else if length roles > 0 \<and> length (mk_AllowedRoles m) > 0 \<and> \<not> has_access roles (mk_AllowedRoles m)
        then filter_markets roles ms
      else m # filter_markets roles ms)"

text \<open>The result: the markets, the next page token and whether there is more. The pagination
  argument is only logged.\<close>

definition spot_ViewMarkets ::
  "(poll \<Rightarrow> 'd market list result) \<Rightarrow> ctx \<Rightarrow> string list \<Rightarrow> ('d market list \<times> string \<times> bool) result"
where
  "spot_ViewMarkets getAll cx roles =
     polled (cx 0) (case getAll (cx 1) of Inl e \<Rightarrow> Inl e
       | Inr ms \<Rightarrow> Inr (filter_markets roles ms, '''', False))"

section \<open>GetMarketByID\<close>

text \<open>The polls of the context, in order: the service's own (0), the cache lookup (1), the
  deletion of an undecodable entry (2), the repository (3), the cache store (4).\<close>

definition cache_lookup ::
  "(bytes \<Rightarrow> 'd market option) \<Rightarrow> 's cache_ops option \<Rightarrow> ctx \<Rightarrow> time \<Rightarrow> string \<Rightarrow> 's \<Rightarrow> 's \<times> 'd market option"
where
  "cache_lookup dec cache cx now i s =
     (case cache of None \<Rightarrow> (s, None) | Some c \<Rightarrow>
      (case c_Get c (cx 1) now i s of
         (s', Inl e) \<Rightarrow> (s', None)
       | (s', Inr None) \<Rightarrow> (s', None)
       | (s', Inr (Some data)) \<Rightarrow>
           (case dec data of
              None \<Rightarrow> (fst (c_Delete c (cx 2) i s'), None)
            | Some m \<Rightarrow> (s', Some m))))"

definition cache_store ::
  "('d market \<Rightarrow> bytes option) \<Rightarrow> 's cache_ops option \<Rightarrow> ctx \<Rightarrow> time \<Rightarrow> string \<Rightarrow> 'd market option \<Rightarrow> 's \<Rightarrow> 's"
where
  "cache_store enc cache cx now i mp s =
     (case cache of None \<Rightarrow> s | Some c \<Rightarrow>
      (case mp of None \<Rightarrow> s | Some m \<Rightarrow>
       (case enc m of None \<Rightarrow> s | Some data \<Rightarrow> fst (c_Set c (cx 4) now i data 300 s))))"

definition spot_GetMarketByID ::
  "(string \<Rightarrow> bool) \<Rightarrow> ('d market \<Rightarrow> bytes option) \<Rightarrow> (bytes \<Rightarrow> 'd market option) \<Rightarrow>
   (poll \<Rightarrow> string \<Rightarrow> 'd market option result) \<Rightarrow> 's cache_ops option \<Rightarrow>
   ctx \<Rightarrow> time \<Rightarrow> time \<Rightarrow> string \<Rightarrow> 's \<Rightarrow> 's \<times> 'd market option result"
where
  "spot_GetMarketByID parses enc dec getByID cache cx t1 t2 i s =
     (case uid_Validate parses i ''market_id'' of Some e \<Rightarrow> (s, Inl e) | None \<Rightarrow>
      (case cx 0 of Some e \<Rightarrow> (s, Inl (CtxErr e)) | None \<Rightarrow>
       (case cache_lookup dec cache cx t1 i s of
          (s1, Some m) \<Rightarrow> (s1, Inr (Some m))
        | (s1, None) \<Rightarrow>
            (case getByID (cx 3) i of
               Inl e \<Rightarrow> (s1, Inl e)
             | Inr mp \<Rightarrow> (cache_store enc cache cx t2 i mp s1, Inr mp)))))"

section \<open>The gRPC handler\<close>

definition spot_toGRPCError :: "err \<Rightarrow> err" where
  "spot_toGRPCError e =
     (if e = Sentinel (SpotSvc SErrMarketNotFound) then StatusErr CodeNotFound ''market not found''
      else if e = Sentinel (SpotSvc SErrInvalidMarket) \<or> e = Sentinel (SpotSvc SErrInvalidRole)
        then StatusErr CodeInvalidArgument ''invalid request parameters''
      else if e = Sentinel (SpotSvc SErrPermissionDenied) then StatusErr CodePermissionDenied ''access denied''
      else StatusErr CodeInternal ''internal server error'')"

text \<open>A response's market is a pointer; a request's roles arrive as enumeration values.\<close>

definition handler_ViewMarkets ::
  "(time \<Rightarrow> 'ts) \<Rightarrow> ('d \<Rightarrow> string) \<Rightarrow> (int \<Rightarrow> string) \<Rightarrow> (poll \<Rightarrow> 'd market list result) \<Rightarrow> ctx \<Rightarrow>
   user_role list \<Rightarrow> ('ts market_pb option list \<times> pagination_response) result"
where
  "handler_ViewMarkets newts str itoa getAll cx roles =
     (case spot_ViewMarkets getAll cx (UserRolesFromProto itoa roles) of
        Inl e \<Rightarrow> Inl (spot_toGRPCError e)
      | Inr (ms, nextPage, hasMore) \<Rightarrow>
          Inr (map (\<lambda>m. spot_ToProto newts str (Some m)) ms,
               \<lparr>pr_NextPageToken = nextPage, pr_HasMore = hasMore\<rparr>))"

definition handler_GetMarket ::
  "(time \<Rightarrow> 'ts) \<Rightarrow> ('d \<Rightarrow> string) \<Rightarrow> (string \<Rightarrow> bool) \<Rightarrow> ('d market \<Rightarrow> bytes option) \<Rightarrow>
   (bytes \<Rightarrow> 'd market option) \<Rightarrow> (poll \<Rightarrow> string \<Rightarrow> 'd market option result) \<Rightarrow> 's cache_ops option \<Rightarrow>
   ctx \<Rightarrow> time \<Rightarrow> time \<Rightarrow> string \<Rightarrow> 's \<Rightarrow> 's \<times> 'ts market_pb option result"
where
  "handler_GetMarket newts str parses enc dec getByID cache cx t1 t2 i s =
     (if i = '''' then (s, Inl (StatusErr CodeInvalidArgument ''market_id is required''))
      else case spot_GetMarketByID parses enc dec getByID cache cx t1 t2 i s of
        (s', Inl e) \<Rightarrow> (s', Inl (spot_toGRPCError e))
      | (s', Inr mp) \<Rightarrow> (s', Inr (spot_ToProto newts str mp)))"

end
