(* ===== verification/Spot_Props.thy ===== *)
theory Spot_Props
  imports Spot_Service
begin

text \<open>
  What the spot service promises: the markets shown are exactly the visible ones, reading a
  market through a cache answers what the repository alone would answer, and the errors of the
  gRPC handler. The read-through lemmas are proved once for any cache that keeps the port's
  contract, then used for the LRU cache.
\<close>

section \<open>ViewMarkets\<close>

definition visible :: "string list \<Rightarrow> 'd market \<Rightarrow> bool" where
  "visible roles m \<longleftrightarrow> IsActive m \<and>
     (roles = [] \<or> mk_AllowedRoles m = [] \<or> set roles \<inter> set (mk_AllowedRoles m) \<noteq> {})"

lemma has_access_iff: "has_access roles allowed \<longleftrightarrow> set roles \<inter> set allowed \<noteq> {}"
  by (induction roles) auto

lemma filter_markets_eq: "filter_markets roles ms = filter (visible roles) ms"
  by (induction ms) (auto simp: visible_def IsActive_def has_access_iff)

text \<open>C5: whatever order the map is ranged in, \<open>ViewMarkets\<close> returns each active market that
  the roles may see exactly once, no other market, and a last page. A caller that sends no role
  sees the role-restricted markets too.\<close>

theorem view_markets_exact:
  "\<exists>ms. spot_ViewMarkets (\<lambda>p. market_GetAll p ord store) background roles = Inr (ms, '''', False) \<and>
    mset ms = filter_mset (visible roles) (image_mset snd (mset store))"
proof -
  let ?ms = "filter_markets roles (map snd (range_order ord store))"
  have "mset ?ms = filter_mset (visible roles) (image_mset snd (mset store))"
    by (simp add: filter_markets_eq)
  then show ?thesis by (auto simp: spot_ViewMarkets_def market_GetAll_def)
qed

section \<open>Reading through a cache\<close>

text \<open>\<open>encodes enc dec\<close>: what JSON encodes it decodes. \<open>source_of getByID R\<close>: the repository
  answers from the table \<open>R\<close>, or with an error.\<close>

definition encodes :: "('m \<Rightarrow> bytes option) \<Rightarrow> (bytes \<Rightarrow> 'm option) \<Rightarrow> bool" where
  "encodes enc dec \<longleftrightarrow> (\<forall>m b. enc m = Some b \<longrightarrow> dec b = Some m)"

definition source_of :: "(poll \<Rightarrow> string \<Rightarrow> 'm option result) \<Rightarrow> (string \<Rightarrow> 'm option) \<Rightarrow> bool" where
  "source_of getByID R \<longleftrightarrow> (\<forall>p i mp. getByID p i = Inr mp \<longrightarrow> mp = R i \<and> mp \<noteq> None)"

lemma source_ofD: "source_of getByID R \<Longrightarrow> getByID p i = Inr mp \<Longrightarrow> mp = R i \<and> mp \<noteq> None"
  by (simp add: source_of_def)

text \<open>The four ways a call can end.\<close>

lemma spot_outcome:
  fixes parses enc dec getByID cache cx t1 t2 i s
  defines "r \<equiv> spot_GetMarketByID parses enc dec getByID cache cx t1 t2 i s"
  assumes "cache_lookup dec cache cx t1 i s = (s1, h)"
  obtains (early) e where "r = (s, Inl e)"
  | (hit) m where "h = Some m" "r = (s1, Inr (Some m))"
  | (err) e where "getByID (cx 3) i = Inl e" "r = (s1, Inl e)"
  | (miss) mp where "getByID (cx 3) i = Inr mp" "r = (cache_store enc cache cx t2 i mp s1, Inr mp)"
proof -
  have "(\<exists>e. r = (s, Inl e)) \<or> (\<exists>m. h = Some m \<and> r = (s1, Inr (Some m))) \<or>
    (\<exists>e. getByID (cx 3) i = Inl e \<and> r = (s1, Inl e)) \<or>
    (\<exists>mp. getByID (cx 3) i = Inr mp \<and> r = (cache_store enc cache cx t2 i mp s1, Inr mp))"
    using assms(2) unfolding r_def spot_GetMarketByID_def
    by (cases "uid_Validate parses i ''market_id''"; cases "cx 0"; cases h; cases "getByID (cx 3) i") simp_all
  then show thesis using that by blast
qed

context cache_port
begin

lemma cache_lookup_inv:
  "cinv s \<Longrightarrow> agrees dec R s \<Longrightarrow>
   cinv (fst (cache_lookup dec (Some ops) cx t i s)) \<and> agrees dec R (fst (cache_lookup dec (Some ops) cx t i s))"
  using get_inv[of s "cx 1" t i] agrees_get[of s dec R "cx 1" t i] del_inv agrees_del
  by (auto simp: cache_lookup_def split: prod.splits sum.splits option.splits)

lemma cache_lookup_hit:
  "cinv s \<Longrightarrow> agrees dec R s \<Longrightarrow> cache_lookup dec (Some ops) cx t i s = (s1, Some m) \<Longrightarrow> R i = Some m"
  using agrees_hit[of s dec R "cx 1" t i]
  by (auto simp: cache_lookup_def split: prod.splits sum.splits option.splits)

lemma cache_store_inv:
  assumes "cinv s" and "agrees dec R s" and "encodes enc dec" and "mp = R i"
  shows "cinv (cache_store enc (Some ops) cx t i mp s) \<and> agrees dec R (cache_store enc (Some ops) cx t i mp s)"
proof (cases mp)
  case None
  then show ?thesis using assms by (simp add: cache_store_def)
next
  case (Some m)
  show ?thesis
  proof (cases "enc m")
    case None
    then show ?thesis using assms(1,2) Some by (simp add: cache_store_def)
  next
    case b: (Some b)
    then have "dec b = Some m" using assms(3) by (simp add: encodes_def)
    moreover have "R i = Some m" using assms(4) Some by simp
    ultimately show ?thesis
      using assms(1,2) Some b set_inv agrees_set[of s dec R b i] by (simp add: cache_store_def)
  qed
qed

text \<open>One call: the cache stays in agreement with the repository, and a market returned is the
  repository's.\<close>

lemma read_through:
  fixes parses enc dec getByID cx t1 t2 i s
  defines "r \<equiv> spot_GetMarketByID parses enc dec getByID (Some ops) cx t1 t2 i s"
  assumes s: "cinv s" "agrees dec R s" and enc: "encodes enc dec" and src: "source_of getByID R"
  shows "cinv (fst r) \<and> agrees dec R (fst r) \<and> (\<forall>mp. snd r = Inr mp \<longrightarrow> mp = R i \<and> mp \<noteq> None)"
proof -
  obtain s1 h where l: "cache_lookup dec (Some ops) cx t1 i s = (s1, h)" by fastforce
  then have s1: "cinv s1" "agrees dec R s1" using cache_lookup_inv[OF s, of cx t1 i] by auto
  show ?thesis
    using l
  proof (cases rule: spot_outcome[where parses = parses and enc = enc and getByID = getByID and ?t2.0 = t2])
    case early
    then show ?thesis using s by (simp add: r_def)
  next
    case hit
    then show ?thesis using s1 l cache_lookup_hit[OF s] by (fastforce simp: r_def)
  next
    case err
    then show ?thesis using s1 by (simp add: r_def)
  next
    case (miss mp)
    have mp: "mp = R i" "mp \<noteq> None"
      using source_ofD[OF src miss(1)] by blast+
    have "r = (cache_store enc (Some ops) cx t2 i mp s1, Inr mp)" using miss(2) by (simp only: r_def)
    then show ?thesis using cache_store_inv[OF s1 enc mp(1), of cx t2] mp by simp
  qed
qed

text \<open>With a context that is not done, the call answers what it would answer without a cache.\<close>

lemma cache_transparent:
  assumes "cinv s" and "agrees dec R s"
    and "\<And>i. getByID None i = (case R i of Some m \<Rightarrow> Inr (Some m) | None \<Rightarrow> Inl e0)"
  shows "snd (spot_GetMarketByID parses enc dec getByID (Some ops) background t1 t2 i s) =
    snd (spot_GetMarketByID parses enc dec getByID None background t1 t2 i u)"
proof -
  obtain s1 h where l: "cache_lookup dec (Some ops) background t1 i s = (s1, h)" by fastforce
  show ?thesis
  proof (cases h)
    case (Some m)
    then have "R i = Some m" using l cache_lookup_hit[OF assms(1,2)] by blast
    then show ?thesis
      using l Some assms(3)[of i] by (simp add: spot_GetMarketByID_def cache_lookup_def split: option.split)
  next
    case None
    then show ?thesis
      using l by (simp add: spot_GetMarketByID_def cache_lookup_def[of dec None] split: option.split sum.split)
  qed
qed

end

text \<open>A sequence of calls on one service, each with its context, clock readings and key.\<close>

fun spot_calls ::
  "(string \<Rightarrow> bool) \<Rightarrow> ('d market \<Rightarrow> bytes option) \<Rightarrow> (bytes \<Rightarrow> 'd market option) \<Rightarrow>
   (poll \<Rightarrow> string \<Rightarrow> 'd market option result) \<Rightarrow> 's cache_ops option \<Rightarrow>
   (ctx \<times> time \<times> time \<times> string) list \<Rightarrow> 's \<Rightarrow> 'd market option result list"
where
  "spot_calls parses enc dec getByID cache [] s = []"
| "spot_calls parses enc dec getByID cache ((cx, t1, t2, i) # calls) s =
     (let (s', r) = spot_GetMarketByID parses enc dec getByID cache cx t1 t2 i s
      in r # spot_calls parses enc dec getByID cache calls s')"

lemma market_source: "source_of (\<lambda>p i. market_GetByID p i store) (gm_get store)"
  by (auto simp: source_of_def market_GetByID_def split: option.splits)

lemma market_GetByID_None:
  "market_GetByID None i store =
    (case gm_get store i of Some m \<Rightarrow> Inr (Some m) | None \<Rightarrow> Inl (Sentinel (SpotMem MemErrMarketNotFound)))"
  by (simp add: market_GetByID_def)

lemma lru_agrees_new: "lru_cache.agrees dec R (NewLRUCache n)"
  unfolding lru_cache.agrees_def by (simp add: lru_live_def)

lemma spot_calls_transparent:
  assumes "lru_wf c" and "lru_cache.agrees dec (gm_get store) c" and "encodes enc dec"
    and "\<forall>x \<in> set calls. fst x = background"
  shows "spot_calls parses enc dec (\<lambda>p i. market_GetByID p i store) (Some lru_ops) calls c =
    map (\<lambda>(cx, t1, t2, i). snd (spot_GetMarketByID parses enc dec (\<lambda>p i. market_GetByID p i store) None cx t1 t2 i ())) calls"
  using assms
proof (induction calls arbitrary: c)
  case Nil
  then show ?case by simp
next
  case (Cons x calls)
  obtain cx t1 t2 i where x: "x = (cx, t1, t2, i)" by (cases x)
  then have cx: "cx = background" using Cons.prems(4) by simp
  let ?r = "spot_GetMarketByID parses enc dec (\<lambda>p i. market_GetByID p i store) (Some lru_ops) cx t1 t2 i c"
  have "lru_wf (fst ?r)" and "lru_cache.agrees dec (gm_get store) (fst ?r)"
    using lru_cache.read_through[OF Cons.prems(1,2,3) market_source] by blast+
  moreover have "snd ?r = snd (spot_GetMarketByID parses enc dec (\<lambda>p i. market_GetByID p i store) None cx t1 t2 i ())"
    unfolding cx
    by (rule lru_cache.cache_transparent[where R = "gm_get store", OF Cons.prems(1,2)])
       (rule market_GetByID_None)
  ultimately show ?case using Cons x by (simp add: case_prod_unfold Let_def)
qed

section \<open>The properties\<close>

text \<open>On a service started with an empty LRU cache, every sequence of \<open>GetMarketByID\<close> calls
  answers exactly what the repository without a cache answers, at any times and for any cache
  size: caching is invisible.\<close>

lemma spot_cache_invisible:
  assumes "encodes enc dec" and "\<forall>x \<in> set calls. fst x = background"
  shows "spot_calls parses enc dec (\<lambda>p i. market_GetByID p i store) (Some lru_ops) calls (NewLRUCache n) =
    map (\<lambda>(cx, t1, t2, i). snd (spot_GetMarketByID parses enc dec (\<lambda>p i. market_GetByID p i store) None cx t1 t2 i ())) calls"
  by (rule spot_calls_transparent[OF NewLRUCache_wf lru_agrees_new assms])

text \<open>The gRPC handler never answers \<open>NotFound\<close> for a market the in-memory repository does
  not hold, whatever the cache: the repository's own error is not the one the handler tests for, so
  the caller gets \<open>Internal\<close>.\<close>

lemma get_market_never_not_found:
  "snd (handler_GetMarket newts str parses enc dec (\<lambda>p j. market_GetByID p j store) cache cx t1 t2 i s)
    \<noteq> Inl (StatusErr CodeNotFound msg)"
proof -
  let ?r = "spot_GetMarketByID parses enc dec (\<lambda>p j. market_GetByID p j store) cache cx t1 t2 i s"
  have "e \<noteq> Sentinel (SpotSvc SErrMarketNotFound)" if "snd ?r = Inl e" for e
    using that uid_Validate_Errorf[of parses i "''market_id''"]
    by (auto simp: spot_GetMarketByID_def market_GetByID_def polled_def
        split: option.splits sum.splits prod.splits)
  then have "snd ?r = Inl e \<Longrightarrow> spot_toGRPCError e \<noteq> StatusErr CodeNotFound msg" for e
    by (simp add: spot_toGRPCError_def)
  then show ?thesis by (cases ?r) (auto simp: handler_GetMarket_def split: sum.splits)
qed

text \<open>None of the seeded markets can be fetched: their identifiers are not UUIDs, so for any
  parser that accepts only the documented lengths \<open>GetMarketByID\<close> fails before it reads anything.\<close>

lemma seeded_markets_unreachable:
  assumes "uuid_lengths parses" and "i \<in> gm_keys (seedData dc y)"
  shows "\<exists>m. spot_GetMarketByID parses enc dec getByID cache cx t1 t2 i s = (s, Inl (Errorf m))"
proof -
  have "length i \<notin> {32, 36, 38, 45}" using assms(2) by (auto simp: gm_keys_seedData)
  then obtain e where e: "uid_Validate parses i ''market_id'' = Some e"
    using uid_Validate_length[OF assms(1)] by blast
  then show ?thesis using uid_Validate_Errorf[OF e] by (auto simp: spot_GetMarketByID_def)
qed

lemma seeded_markets_unreachable_witness:
  "\<exists>m. spot_GetMarketByID (\<lambda>s. length s = 36) (\<lambda>m. None) (\<lambda>b. None)
     (\<lambda>p i. market_GetByID p i (seedData (\<lambda>_. ()) 0)) (Some lru_ops) background 0 0 ''btc_usd'' (NewLRUCache 10) =
   (NewLRUCache 10, Inl (Errorf m))"
  by (rule seeded_markets_unreachable[where dc = "\<lambda>_. ()" and y = 0])
     (simp_all add: uuid_lengths_def gm_keys_seedData)

end
