(* ===== verification/User_Domain.thy ===== *)
theory User_Domain
  imports Proto
begin

text \<open>
  Users and refresh tokens of the user service (\<open>user-service/internal/domain\<close>): the types, the
  checks on e-mail addresses and passwords, and the mapping to the protobuf message. bcrypt is a
  pair of parameters: the hash of a password at a cost, and whether a hash matches a password.
\<close>

section \<open>Users\<close>

record user =
  us_UserID :: string
  us_Email :: string
  us_Username :: string
  us_Password :: string
  us_Role :: user_role
  us_IsActive :: bool
  us_CreatedAt :: time
  us_UpdatedAt :: time

definition HashPassword :: "(string \<Rightarrow> int \<Rightarrow> string result) \<Rightarrow> string \<Rightarrow> int \<Rightarrow> string result" where
  "HashPassword bcrypt password cost =
     (if cost < 10 \<or> cost > 14 then Inl (Errorf ''invalid bcrypt cost: %d (must be 10-14)'')
      else bcrypt password cost)"

definition CheckPassword :: "(string \<Rightarrow> string \<Rightarrow> bool) \<Rightarrow> string \<Rightarrow> string \<Rightarrow> bool" where
  "CheckPassword compare password hash = compare hash password"

text \<open>What bcrypt documents: a hash matches the password it was made from.\<close>

definition bcrypt_matches :: "(string \<Rightarrow> int \<Rightarrow> string result) \<Rightarrow> (string \<Rightarrow> string \<Rightarrow> bool) \<Rightarrow> bool" where
  "bcrypt_matches bcrypt compare \<longleftrightarrow> (\<forall>p c h. bcrypt p c = Inr h \<longrightarrow> compare h p)"

definition user_ToProto :: "(time \<Rightarrow> 'ts) \<Rightarrow> user \<Rightarrow> 'ts user_pb" where
  "user_ToProto newts u =
     \<lparr>u_UserId = us_UserID u, u_Email = us_Email u, u_Username = us_Username u, u_Role = us_Role u,
      u_IsActive = us_IsActive u, u_CreatedAt = Some (newts (us_CreatedAt u)),
      u_UpdatedAt = Some (newts (us_UpdatedAt u))\<rparr>"

text \<open>\<open>astime\<close> is the library's \<open>AsTime\<close>, which also accepts a nil timestamp.\<close>

definition UserFromProto :: "('ts option \<Rightarrow> time) \<Rightarrow> 'ts user_pb option \<Rightarrow> user option" where
  "UserFromProto astime p =
     (case p of None \<Rightarrow> None | Some q \<Rightarrow> Some
        \<lparr>us_UserID = u_UserId q, us_Email = u_Email q, us_Username = u_Username q, us_Password = '''',
         us_Role = u_Role q, us_IsActive = u_IsActive q, us_CreatedAt = astime (u_CreatedAt q),
         us_UpdatedAt = astime (u_UpdatedAt q)\<rparr>)"

section \<open>Checks\<close>

text \<open>
  The first loop of \<open>ValidateEmail\<close>: the number of at signs and the index of the last one. Go
  ranges over the runes of the string with their byte offsets; the bytes compared with are ASCII,
  which occur in UTF-8 only as themselves, so ranging over the bytes gives the same.
\<close>

fun at_scan :: "string \<Rightarrow> int \<Rightarrow> int \<Rightarrow> int \<Rightarrow> int \<times> int" where
  "at_scan [] i atCount atIndex = (atCount, atIndex)"
| "at_scan (c # cs) i atCount atIndex =
     (if c = CHR ''@'' then at_scan cs (i + 1) (atCount + 1) i else at_scan cs (i + 1) atCount atIndex)"

fun has_byte :: "char \<Rightarrow> string \<Rightarrow> bool" where
  "has_byte b [] = False"
| "has_byte b (c # cs) = (if c = b then True else has_byte b cs)"

definition ValidateEmail :: "string \<Rightarrow> bool" where
  "ValidateEmail email =
     (if length email < 3 \<or> length email > 254 then False
      else let (atCount, atIndex) = at_scan email 0 0 (- 1)
      in if atCount \<noteq> 1 \<or> atIndex \<le> 0 \<or> atIndex \<ge> int (length email) - 1 then False
      else let localpart = take (nat atIndex) email; domain = drop (nat atIndex + 1) email
      in if length localpart = 0 \<or> length domain < 3 then False
      else if \<not> has_byte (CHR ''.'') domain then False
      else if has_byte (CHR '' '') email then False
      else True)"

definition ValidatePassword :: "string \<Rightarrow> bool" where
  "ValidatePassword password \<longleftrightarrow> length password \<ge> 8"

lemma has_byte_iff: "has_byte b s \<longleftrightarrow> b \<in> set s"
  by (induction s) auto

lemma at_scan_none: "CHR ''@'' \<notin> set s \<Longrightarrow> at_scan s i n k = (n, k)"
  by (induction s arbitrary: i) auto

lemma at_scan_append:
  "at_scan (s @ t) i n k = (case at_scan s i n k of (n', k') \<Rightarrow> at_scan t (i + int (length s)) n' k')"
  by (induction s arbitrary: i n k) (auto simp: algebra_simps split: prod.splits)

lemma at_scan_count_mono: "n \<le> fst (at_scan s i n k)"
proof (induction s arbitrary: i n k)
  case Nil
  then show ?case by simp
next
  case (Cons c s)
  show ?case using Cons[of "n + 1" "i + 1" i] Cons[of n "i + 1" k] by simp
qed

lemma at_scan_count_pos: "CHR ''@'' \<in> set s \<Longrightarrow> n < fst (at_scan s i n k)"
proof (induction s arbitrary: i n k)
  case Nil
  then show ?case by simp
next
  case (Cons c s)
  show ?case
    using Cons.IH[of n "i + 1" k] at_scan_count_mono[of "n + 1" s "i + 1" i] Cons.prems by auto
qed

text \<open>Exactly one at sign: the string splits at it, and its index is the length of the first part.\<close>

lemma at_scan_one:
  "fst (at_scan s 0 0 (- 1)) = 1 \<longleftrightarrow>
   (\<exists>l d. s = l @ CHR ''@'' # d \<and> CHR ''@'' \<notin> set l \<and> CHR ''@'' \<notin> set d)"
proof
  assume one: "fst (at_scan s 0 0 (- 1)) = 1"
  have "CHR ''@'' \<in> set s"
  proof (rule ccontr)
    assume "CHR ''@'' \<notin> set s"
    then show False using one by (simp add: at_scan_none)
  qed
  then obtain l d where s: "s = l @ CHR ''@'' # d" and l: "CHR ''@'' \<notin> set l"
    by (meson split_list_first)
  have "at_scan s 0 0 (- 1) = at_scan d (int (length l) + 1) 1 (int (length l))"
    using l s by (simp add: at_scan_append at_scan_none)
  then have "CHR ''@'' \<notin> set d"
    using one at_scan_count_pos[of d 1 "int (length l) + 1" "int (length l)"] by auto
  then show "\<exists>l d. s = l @ CHR ''@'' # d \<and> CHR ''@'' \<notin> set l \<and> CHR ''@'' \<notin> set d" using s l by blast
next
  assume "\<exists>l d. s = l @ CHR ''@'' # d \<and> CHR ''@'' \<notin> set l \<and> CHR ''@'' \<notin> set d"
  then show "fst (at_scan s 0 0 (- 1)) = 1" by (auto simp: at_scan_append at_scan_none)
qed

lemma at_scan_split:
  "CHR ''@'' \<notin> set l \<Longrightarrow> CHR ''@'' \<notin> set d \<Longrightarrow> at_scan (l @ CHR ''@'' # d) 0 0 (- 1) = (1, int (length l))"
  by (simp add: at_scan_append at_scan_none)

text \<open>C18: an address is accepted exactly when it is a non-empty local part, one at sign and a
  domain of at least three bytes with a dot, without a space, and no longer than 254 bytes.\<close>

theorem ValidateEmail_iff:
  "ValidateEmail email \<longleftrightarrow>
    (\<exists>l d. email = l @ CHR ''@'' # d \<and> CHR ''@'' \<notin> set l \<and> CHR ''@'' \<notin> set d \<and> l \<noteq> [] \<and>
       3 \<le> length d \<and> CHR ''.'' \<in> set d \<and> CHR '' '' \<notin> set email \<and> length email \<le> 254)"
    (is "_ \<longleftrightarrow> ?spec")
proof
  assume v: "ValidateEmail email"
  then have "fst (at_scan email 0 0 (- 1)) = 1"
    by (auto simp: ValidateEmail_def split: if_splits prod.splits)
  then obtain l d where e: "email = l @ CHR ''@'' # d" "CHR ''@'' \<notin> set l" "CHR ''@'' \<notin> set d"
    using at_scan_one by blast
  have "l \<noteq> [] \<and> 3 \<le> length d \<and> CHR ''.'' \<in> set d \<and> CHR '' '' \<notin> set email \<and> length email \<le> 254"
    using v e by (auto simp: ValidateEmail_def at_scan_split has_byte_iff split: if_splits)
  then show ?spec using e by blast
next
  assume ?spec
  then obtain l d where e: "email = l @ CHR ''@'' # d" "CHR ''@'' \<notin> set l" "CHR ''@'' \<notin> set d"
    and r: "l \<noteq> []" "3 \<le> length d" "CHR ''.'' \<in> set d" "CHR '' '' \<notin> set email" "length email \<le> 254"
    by blast
  then show "ValidateEmail email"
    by (auto simp: ValidateEmail_def at_scan_split has_byte_iff)
qed

section \<open>Refresh tokens\<close>

record refresh_token =
  rt_TokenID :: string
  rt_UserID :: string
  rt_Token :: string
  rt_ExpiresAt :: time
  rt_Revoked :: bool
  rt_CreatedAt :: time

definition IsExpired :: "time \<Rightarrow> refresh_token \<Rightarrow> bool" where
  "IsExpired now rt \<longleftrightarrow> now > rt_ExpiresAt rt"

definition rt_IsValid :: "time \<Rightarrow> refresh_token \<Rightarrow> bool" where
  "rt_IsValid now rt \<longleftrightarrow> \<not> rt_Revoked rt \<and> \<not> IsExpired now rt"

end
