(* ===== verification/User_Repo.thy ===== *)
theory User_Repo
  imports User_Domain Go_Map
begin

text \<open>
  The in-memory repositories of the user service (\<open>user-service/internal/repository/memory.go\<close>).
  Repositories hold pointers: \<open>Create\<close> and \<open>Update\<close> stamp the caller's object and keep it, and
  \<open>Revoke\<close> writes through the stored pointer. No stored object is reachable under two keys and
  callers do not write to an object after storing it, so a map of values has the same behaviour;
  the stamped object that the caller sees is the operation's result.
\<close>

section \<open>Users\<close>

record user_store =
  st_users :: "(string, user) gomap"
  st_emailIndex :: "(string, string) gomap"

definition NewUserRepository :: user_store where
  "NewUserRepository = \<lparr>st_users = [], st_emailIndex = []\<rparr>"

definition user_Create :: "poll \<Rightarrow> time \<Rightarrow> user \<Rightarrow> user_store \<Rightarrow> user_store \<times> user result" where
  "user_Create p now u r =
     (case p of Some e \<Rightarrow> (r, Inl (CtxErr e)) | None \<Rightarrow>
      if gm_get (st_emailIndex r) (us_Email u) \<noteq> None then (r, Inl (Sentinel (UserRepo RErrUserAlreadyExists)))
      else if gm_get (st_users r) (us_UserID u) \<noteq> None then (r, Inl (Sentinel (UserRepo RErrUserAlreadyExists)))
      else let u' = u\<lparr>us_CreatedAt := now, us_UpdatedAt := now\<rparr>
           in (r\<lparr>st_users := gm_put (us_UserID u') u' (st_users r),
                 st_emailIndex := gm_put (us_Email u') (us_UserID u') (st_emailIndex r)\<rparr>, Inr u'))"

definition user_GetByID :: "poll \<Rightarrow> string \<Rightarrow> user_store \<Rightarrow> user result" where
  "user_GetByID p i r =
     polled p (case gm_get (st_users r) i of
        None \<Rightarrow> Inl (Sentinel (UserRepo RErrUserNotFound)) | Some u \<Rightarrow> Inr u)"

definition user_GetByEmail :: "poll \<Rightarrow> string \<Rightarrow> user_store \<Rightarrow> user result" where
  "user_GetByEmail p email r =
     polled p (case gm_get (st_emailIndex r) email of
        None \<Rightarrow> Inl (Sentinel (UserRepo RErrUserNotFound))
      | Some i \<Rightarrow> (case gm_get (st_users r) i of
          None \<Rightarrow> Inl (Sentinel (UserRepo RErrUserNotFound)) | Some u \<Rightarrow> Inr u))"

definition user_Update :: "poll \<Rightarrow> time \<Rightarrow> user \<Rightarrow> user_store \<Rightarrow> user_store \<times> user result" where
  "user_Update p now u r =
     (case p of Some e \<Rightarrow> (r, Inl (CtxErr e)) | None \<Rightarrow>
      if gm_get (st_users r) (us_UserID u) = None then (r, Inl (Sentinel (UserRepo RErrUserNotFound)))
      else let u' = u\<lparr>us_UpdatedAt := now\<rparr>
           in (r\<lparr>st_users := gm_put (us_UserID u') u' (st_users r)\<rparr>, Inr u'))"

text \<open>The e-mail index is exactly the users' addresses: so no two users share one.\<close>

definition user_store_ok :: "user_store \<Rightarrow> bool" where
  "user_store_ok r \<longleftrightarrow>
     (\<forall>i u. gm_get (st_users r) i = Some u \<longrightarrow> us_UserID u = i) \<and>
     (\<forall>e i. gm_get (st_emailIndex r) e = Some i \<longleftrightarrow> (\<exists>u. gm_get (st_users r) i = Some u \<and> us_Email u = e))"

lemma NewUserRepository_ok [inv_intro]: "user_store_ok NewUserRepository"
  by (simp add: user_store_ok_def NewUserRepository_def)

lemma user_Create_ok [inv_intro]: "user_store_ok r \<Longrightarrow> user_store_ok (fst (user_Create p now u r))"
  by (cases p) (auto simp: user_store_ok_def user_Create_def Let_def split: if_splits)

text \<open>\<open>Update\<close> keeps the index only when the address does not change.\<close>

lemma user_Update_ok [inv_intro]:
  "user_store_ok r \<Longrightarrow> (\<And>v. gm_get (st_users r) (us_UserID u) = Some v \<Longrightarrow> us_Email v = us_Email u) \<Longrightarrow>
   user_store_ok (fst (user_Update p now u r))"
  by (cases p) (auto simp: user_store_ok_def user_Update_def Let_def split: if_splits)

lemma user_GetByEmail_None:
  assumes "user_store_ok r"
  shows "user_GetByEmail None e r = Inr u \<longleftrightarrow> us_Email u = e \<and> gm_get (st_users r) (us_UserID u) = Some u"
proof
  assume "user_GetByEmail None e r = Inr u"
  then obtain i where i: "gm_get (st_emailIndex r) e = Some i" "gm_get (st_users r) i = Some u"
    by (auto simp: user_GetByEmail_def split: option.splits)
  then show "us_Email u = e \<and> gm_get (st_users r) (us_UserID u) = Some u"
    using assms unfolding user_store_ok_def by auto
next
  assume u: "us_Email u = e \<and> gm_get (st_users r) (us_UserID u) = Some u"
  then have "gm_get (st_emailIndex r) e = Some (us_UserID u)" using assms unfolding user_store_ok_def by blast
  then show "user_GetByEmail None e r = Inr u" using u by (simp add: user_GetByEmail_def)
qed

section \<open>Refresh tokens\<close>

record token_store =
  st_tokens :: "(string, refresh_token) gomap"
  st_userTokens :: "(string, string list) gomap"

definition NewTokenRepository :: token_store where
  "NewTokenRepository = \<lparr>st_tokens = [], st_userTokens = []\<rparr>"

text \<open>The tokens listed for a user: a missing key reads as the nil slice.\<close>

definition listed :: "token_store \<Rightarrow> string \<Rightarrow> string list" where
  "listed r uid = (case gm_get (st_userTokens r) uid of None \<Rightarrow> [] | Some ts \<Rightarrow> ts)"

definition token_Store :: "poll \<Rightarrow> refresh_token \<Rightarrow> token_store \<Rightarrow> token_store \<times> unit result" where
  "token_Store p t r =
     (case p of Some e \<Rightarrow> (r, Inl (CtxErr e)) | None \<Rightarrow>
      (r\<lparr>st_tokens := gm_put (rt_Token t) t (st_tokens r),
         st_userTokens := gm_put (rt_UserID t) (listed r (rt_UserID t) @ [rt_Token t]) (st_userTokens r)\<rparr>, Inr ()))"

definition token_Get :: "poll \<Rightarrow> time \<Rightarrow> string \<Rightarrow> token_store \<Rightarrow> refresh_token result" where
  "token_Get p now tok r =
     polled p (case gm_get (st_tokens r) tok of
        None \<Rightarrow> Inl (Sentinel (UserRepo RErrTokenNotFound))
      | Some rt \<Rightarrow>
          if rt_Revoked rt then Inl (Sentinel (UserRepo RErrTokenRevoked))
          else if IsExpired now rt then Inl (Sentinel (UserRepo RErrTokenExpired))
          else Inr rt)"

definition revoke_one :: "string \<Rightarrow> (string, refresh_token) gomap \<Rightarrow> (string, refresh_token) gomap" where
  "revoke_one tok m =
     (case gm_get m tok of None \<Rightarrow> m | Some rt \<Rightarrow> gm_put tok (rt\<lparr>rt_Revoked := True\<rparr>) m)"

definition token_Revoke :: "poll \<Rightarrow> string \<Rightarrow> token_store \<Rightarrow> token_store \<times> unit result" where
  "token_Revoke p tok r =
     (case p of Some e \<Rightarrow> (r, Inl (CtxErr e)) | None \<Rightarrow>
      (case gm_get (st_tokens r) tok of
         None \<Rightarrow> (r, Inl (Sentinel (UserRepo RErrTokenNotFound)))
       | Some rt \<Rightarrow> (r\<lparr>st_tokens := revoke_one tok (st_tokens r)\<rparr>, Inr ())))"

definition token_RevokeAllByUser :: "poll \<Rightarrow> string \<Rightarrow> token_store \<Rightarrow> token_store \<times> unit result" where
  "token_RevokeAllByUser p uid r =
     (case p of Some e \<Rightarrow> (r, Inl (CtxErr e)) | None \<Rightarrow>
      (case gm_get (st_userTokens r) uid of
         None \<Rightarrow> (r, Inr ())
       | Some toks \<Rightarrow> (r\<lparr>st_tokens := fold revoke_one toks (st_tokens r)\<rparr>, Inr ())))"

text \<open>Every token is stored under its own string, and the lists are exactly the users' tokens.\<close>

definition token_store_ok :: "token_store \<Rightarrow> bool" where
  "token_store_ok r \<longleftrightarrow>
     (\<forall>t rt. gm_get (st_tokens r) t = Some rt \<longrightarrow> rt_Token rt = t) \<and>
     (\<forall>uid t. t \<in> set (listed r uid) \<longleftrightarrow> (\<exists>rt. gm_get (st_tokens r) t = Some rt \<and> rt_UserID rt = uid))"

lemma gm_get_revoke_one [go_map]:
  "gm_get (revoke_one tok m) t =
    (if t = tok then map_option (\<lambda>rt. rt\<lparr>rt_Revoked := True\<rparr>) (gm_get m t) else gm_get m t)"
  by (simp add: revoke_one_def split: option.split)

lemma gm_get_revoke_many [go_map]:
  "gm_get (fold revoke_one toks m) t =
    (if t \<in> set toks then map_option (\<lambda>rt. rt\<lparr>rt_Revoked := True\<rparr>) (gm_get m t) else gm_get m t)"
proof (induction toks arbitrary: m)
  case Nil
  then show ?case by simp
next
  case (Cons tok toks)
  then show ?case by (cases "gm_get m t") (auto simp: gm_get_revoke_one)
qed

lemma NewTokenRepository_ok [inv_intro]: "token_store_ok NewTokenRepository"
  by (simp add: token_store_ok_def NewTokenRepository_def listed_def)

lemma listed_simps [simp]:
  "listed (r\<lparr>st_tokens := m\<rparr>) uid = listed r uid"
  "listed (r\<lparr>st_tokens := m, st_userTokens := gm_put i ts n\<rparr>) uid =
     (if uid = i then ts else case gm_get n uid of None \<Rightarrow> [] | Some ts \<Rightarrow> ts)"
  by (simp_all add: listed_def)

lemma token_Store_ok [inv_intro]:
  assumes ok: "token_store_ok r" and fresh: "gm_get (st_tokens r) (rt_Token t) = None"
  shows "token_store_ok (fst (token_Store p t r))"
proof (cases p)
  case None
  have "tok \<in> set (listed (fst (token_Store None t r)) uid) \<longleftrightarrow>
    (\<exists>rt. gm_get (st_tokens (fst (token_Store None t r))) tok = Some rt \<and> rt_UserID rt = uid)" for tok uid
    using ok fresh unfolding token_store_ok_def
    by (auto simp: token_Store_def listed_def split: if_splits option.splits)
  then show ?thesis using ok None unfolding token_store_ok_def by (simp add: token_Store_def)
next
  case (Some e)
  then show ?thesis using ok by (simp add: token_Store_def)
qed

lemma token_store_ok_revoked:
  assumes ok: "token_store_ok r"
    and m: "\<And>t. gm_get m t = (if t \<in> T then map_option (\<lambda>rt. rt\<lparr>rt_Revoked := True\<rparr>) (gm_get (st_tokens r) t)
      else gm_get (st_tokens r) t)"
  shows "token_store_ok (r\<lparr>st_tokens := m\<rparr>)"
proof -
  have "(\<exists>rt. gm_get m t = Some rt \<and> rt_UserID rt = uid) \<longleftrightarrow>
    (\<exists>rt. gm_get (st_tokens r) t = Some rt \<and> rt_UserID rt = uid)" for t uid
    using m[of t] by auto
  then show ?thesis using ok m unfolding token_store_ok_def by (auto split: if_splits)
qed

lemma token_Revoke_ok [inv_intro]: "token_store_ok r \<Longrightarrow> token_store_ok (fst (token_Revoke p tok r))"
  by (auto simp: token_Revoke_def gm_get_revoke_one split: option.split
      intro!: token_store_ok_revoked[where T = "{tok}"])

lemma token_RevokeAllByUser_ok [inv_intro]:
  "token_store_ok r \<Longrightarrow> token_store_ok (fst (token_RevokeAllByUser p uid r))"
  by (auto simp: token_RevokeAllByUser_def gm_get_revoke_many split: option.split
      intro!: token_store_ok_revoked[where T = "set (listed r uid)"], auto simp: listed_def)

end
