(* ===== verification/Auth_Ports.thy ===== *)
theory Auth_Ports
  imports User_Repo
begin

text \<open>
  The ports \<open>UserRepository\<close> and \<open>TokenRepository\<close> (\<open>user-service/internal/ports/repository.go\<close>)
  as records of operations, their contracts as locales over what a store holds (\<open>users_of\<close>,
  \<open>tokens_of\<close>), and the in-memory repositories as providers. A repository that answers without an
  error answers a user: the nil pointer with a nil error is not a possible answer of the port.
\<close>

section \<open>Users\<close>

record 's user_ops =
  ur_Create :: "poll \<Rightarrow> time \<Rightarrow> user \<Rightarrow> 's \<Rightarrow> 's \<times> user result"
  ur_GetByID :: "poll \<Rightarrow> string \<Rightarrow> 's \<Rightarrow> user result"
  ur_GetByEmail :: "poll \<Rightarrow> string \<Rightarrow> 's \<Rightarrow> user result"
  ur_Update :: "poll \<Rightarrow> time \<Rightarrow> user \<Rightarrow> 's \<Rightarrow> 's \<times> user result"

abbreviation user_not_found :: err where
  "user_not_found \<equiv> Sentinel (UserRepo RErrUserNotFound)"

abbreviation user_exists :: err where
  "user_exists \<equiv> Sentinel (UserRepo RErrUserAlreadyExists)"

locale user_repository =
  fixes uops :: "'u user_ops"
    and users_of :: "'u \<Rightarrow> string \<Rightarrow> user option"
    and uinv :: "'u \<Rightarrow> bool"
  assumes by_id: "uinv s \<Longrightarrow> ur_GetByID uops p i s =
      polled p (case users_of s i of None \<Rightarrow> Inl user_not_found | Some u \<Rightarrow> Inr u)"
    and by_email_found: "uinv s \<Longrightarrow> ur_GetByEmail uops None e s = Inr u \<longleftrightarrow>
      us_Email u = e \<and> users_of s (us_UserID u) = Some u"
    and by_email_error: "uinv s \<Longrightarrow> ur_GetByEmail uops None e s = Inl er \<Longrightarrow> er = user_not_found"
    and by_email_done: "ur_GetByEmail uops (Some c) e s = Inl (CtxErr c)"
    and stored_id: "uinv s \<Longrightarrow> users_of s i = Some u \<Longrightarrow> us_UserID u = i"
    and create_new: "uinv s \<Longrightarrow> users_of s (us_UserID u) = None \<Longrightarrow> ur_GetByEmail uops None (us_Email u) s = Inl user_not_found \<Longrightarrow>
      snd (ur_Create uops None now u s) = Inr (u\<lparr>us_CreatedAt := now, us_UpdatedAt := now\<rparr>) \<and>
      users_of (fst (ur_Create uops None now u s)) = (users_of s)(us_UserID u \<mapsto> u\<lparr>us_CreatedAt := now, us_UpdatedAt := now\<rparr>)"
    and create_failed: "uinv s \<Longrightarrow> snd (ur_Create uops p now u s) = Inl er \<Longrightarrow> users_of (fst (ur_Create uops p now u s)) = users_of s"
    and create_ok: "uinv s \<Longrightarrow> snd (ur_Create uops p now u s) = Inr v \<Longrightarrow> p = None \<and>
      users_of s (us_UserID u) = None \<and> ur_GetByEmail uops None (us_Email u) s = Inl user_not_found"
    and create_inv: "uinv s \<Longrightarrow> uinv (fst (ur_Create uops p now u s))"
    and update_found: "uinv s \<Longrightarrow> users_of s (us_UserID u) \<noteq> None \<Longrightarrow>
      snd (ur_Update uops None now u s) = Inr (u\<lparr>us_UpdatedAt := now\<rparr>) \<and>
      users_of (fst (ur_Update uops None now u s)) = (users_of s)(us_UserID u \<mapsto> u\<lparr>us_UpdatedAt := now\<rparr>)"
    and update_failed: "uinv s \<Longrightarrow> snd (ur_Update uops p now u s) = Inl er \<Longrightarrow> fst (ur_Update uops p now u s) = s"
    and update_done: "ur_Update uops (Some c) now u s = (s, Inl (CtxErr c))"
    and update_inv: "uinv s \<Longrightarrow> users_of s (us_UserID u) = Some v \<Longrightarrow> us_Email v = us_Email u \<Longrightarrow>
      uinv (fst (ur_Update uops p now u s))"
begin

lemma by_email_cases:
  assumes "uinv s"
  obtains (found) u where "ur_GetByEmail uops None e s = Inr u" "us_Email u = e" "users_of s (us_UserID u) = Some u"
  | (absent) "ur_GetByEmail uops None e s = Inl user_not_found"
  using by_email_found[OF assms] by_email_error[OF assms] by (cases "ur_GetByEmail uops None e s") blast+

text \<open>No two users share an address.\<close>

lemma unique_email:
  assumes "uinv s" and "users_of s i = Some u" and "users_of s j = Some v" and "us_Email u = us_Email v"
  shows "i = j"
proof -
  have "ur_GetByEmail uops None (us_Email u) s = Inr u" and "ur_GetByEmail uops None (us_Email u) s = Inr v"
    using assms stored_id by (auto simp: by_email_found)
  then show ?thesis using assms stored_id by (metis Inr_inject)
qed

end

section \<open>Refresh tokens\<close>

record 's token_ops =
  tr_Store :: "poll \<Rightarrow> refresh_token \<Rightarrow> 's \<Rightarrow> 's \<times> unit result"
  tr_Get :: "poll \<Rightarrow> time \<Rightarrow> string \<Rightarrow> 's \<Rightarrow> refresh_token result"
  tr_Revoke :: "poll \<Rightarrow> string \<Rightarrow> 's \<Rightarrow> 's \<times> unit result"
  tr_RevokeAllByUser :: "poll \<Rightarrow> string \<Rightarrow> 's \<Rightarrow> 's \<times> unit result"

abbreviation revoked :: "refresh_token \<Rightarrow> refresh_token" where
  "revoked rt \<equiv> rt\<lparr>rt_Revoked := True\<rparr>"

locale token_repository =
  fixes tops :: "'t token_ops"
    and tokens_of :: "'t \<Rightarrow> string \<Rightarrow> refresh_token option"
    and tinv :: "'t \<Rightarrow> bool"
  assumes token_get: "tr_Get tops p now tok s =
      polled p (case tokens_of s tok of
        None \<Rightarrow> Inl (Sentinel (UserRepo RErrTokenNotFound))
      | Some rt \<Rightarrow> if rt_Revoked rt then Inl (Sentinel (UserRepo RErrTokenRevoked))
          else if IsExpired now rt then Inl (Sentinel (UserRepo RErrTokenExpired)) else Inr rt)"
    and store_tokens: "tokens_of (fst (tr_Store tops None t s)) = (tokens_of s)(rt_Token t \<mapsto> t)"
    and store_result: "snd (tr_Store tops p t s) = polled p (Inr ())"
    and store_done: "fst (tr_Store tops (Some c) t s) = s"
    and store_inv: "tinv s \<Longrightarrow> tokens_of s (rt_Token t) = None \<Longrightarrow> tinv (fst (tr_Store tops p t s))"
    and revoke_tokens: "tokens_of (fst (tr_Revoke tops None tok s)) = (tokens_of s)(tok := map_option revoked (tokens_of s tok))"
    and revoke_result: "snd (tr_Revoke tops p tok s) =
      polled p (if tokens_of s tok = None then Inl (Sentinel (UserRepo RErrTokenNotFound)) else Inr ())"
    and revoke_done: "fst (tr_Revoke tops (Some c) tok s) = s"
    and revoke_inv: "tinv s \<Longrightarrow> tinv (fst (tr_Revoke tops p tok s))"
    and revoke_all_tokens: "tinv s \<Longrightarrow> tokens_of (fst (tr_RevokeAllByUser tops None uid s)) =
      (\<lambda>t. map_option (\<lambda>rt. if rt_UserID rt = uid then revoked rt else rt) (tokens_of s t))"
    and revoke_all_result: "snd (tr_RevokeAllByUser tops p uid s) = polled p (Inr ())"
    and revoke_all_done: "fst (tr_RevokeAllByUser tops (Some c) uid s) = s"
    and revoke_all_inv: "tinv s \<Longrightarrow> tinv (fst (tr_RevokeAllByUser tops p uid s))"
begin

text \<open>The tokens that \<open>Get\<close> accepts at a time.\<close>

definition usable :: "time \<Rightarrow> 't \<Rightarrow> string \<Rightarrow> bool" where
  "usable now s tok \<longleftrightarrow> (\<exists>rt. tokens_of s tok = Some rt \<and> rt_IsValid now rt)"

lemma get_usable: "(\<exists>rt. tr_Get tops None now tok s = Inr rt) \<longleftrightarrow> usable now s tok"
  by (auto simp: token_get usable_def rt_IsValid_def split: option.splits)

lemma not_usable_revoked: "\<not> usable now (fst (tr_Revoke tops None tok s)) tok"
  by (auto simp: usable_def revoke_tokens rt_IsValid_def)

end

section \<open>The in-memory repositories provide the ports\<close>

definition memory_users :: "user_store user_ops" where
  "memory_users = \<lparr>ur_Create = user_Create, ur_GetByID = user_GetByID,
     ur_GetByEmail = user_GetByEmail, ur_Update = user_Update\<rparr>"

definition memory_tokens :: "token_store token_ops" where
  "memory_tokens = \<lparr>tr_Store = token_Store, tr_Get = token_Get, tr_Revoke = token_Revoke,
     tr_RevokeAllByUser = token_RevokeAllByUser\<rparr>"

abbreviation stored_users :: "user_store \<Rightarrow> string \<Rightarrow> user option" where
  "stored_users r \<equiv> gm_get (st_users r)"

abbreviation stored_tokens :: "token_store \<Rightarrow> string \<Rightarrow> refresh_token option" where
  "stored_tokens r \<equiv> gm_get (st_tokens r)"

lemma memory_simps [simp]:
  "ur_Create memory_users = user_Create" "ur_GetByID memory_users = user_GetByID"
  "ur_GetByEmail memory_users = user_GetByEmail" "ur_Update memory_users = user_Update"
  "tr_Store memory_tokens = token_Store" "tr_Get memory_tokens = token_Get"
  "tr_Revoke memory_tokens = token_Revoke" "tr_RevokeAllByUser memory_tokens = token_RevokeAllByUser"
  by (simp_all add: memory_users_def memory_tokens_def)

lemma user_GetByEmail_absent:
  assumes "user_store_ok r"
  shows "user_GetByEmail None e r = Inl er \<longleftrightarrow> gm_get (st_emailIndex r) e = None \<and> er = user_not_found"
proof -
  have "gm_get (st_emailIndex r) e = Some i \<Longrightarrow> \<exists>u. gm_get (st_users r) i = Some u" for i
    using assms unfolding user_store_ok_def by blast
  then show ?thesis by (auto simp: user_GetByEmail_def split: option.splits)
qed

interpretation memory_user_repo: user_repository memory_users stored_users user_store_ok
proof (unfold_locales, goal_cases)
  case (1 s p i)
  then show ?case by (simp add: user_GetByID_def)
next
  case (2 s e u)
  then show ?case by (simp add: user_GetByEmail_None)
next
  case (3 s e er)
  then show ?case by (simp add: user_GetByEmail_absent)
next
  case (4 c e s)
  then show ?case by (simp add: user_GetByEmail_def)
next
  case (5 s i u)
  then show ?case by (simp add: user_store_ok_def)
next
  case (6 s u now)
  then show ?case by (auto simp: user_GetByEmail_absent user_Create_def Let_def fun_eq_iff)
next
  case (7 s p now u er)
  then show ?case by (cases p) (auto simp: user_Create_def Let_def split: if_splits)
next
  case (8 s p now u v)
  then show ?case by (cases p) (auto simp: user_Create_def Let_def user_GetByEmail_absent split: if_splits)
next
  case (9 s p now u)
  then show ?case by (simp add: user_Create_ok)
next
  case (10 s u now)
  then show ?case by (auto simp: user_Update_def Let_def fun_eq_iff)
next
  case (11 s p now u er)
  then show ?case by (cases p) (auto simp: user_Update_def Let_def split: if_splits)
next
  case (12 c now u s)
  then show ?case by (simp add: user_Update_def)
next
  case (13 s u v p now)
  then show ?case by (auto intro!: user_Update_ok)
qed

lemma token_RevokeAll_tokens:
  assumes ok: "token_store_ok s"
  shows "stored_tokens (fst (token_RevokeAllByUser None uid s)) t =
    map_option (\<lambda>rt. if rt_UserID rt = uid then revoked rt else rt) (stored_tokens s t)"
proof -
  have "t \<in> set (listed s uid) \<longleftrightarrow> (\<exists>rt. stored_tokens s t = Some rt \<and> rt_UserID rt = uid)"
    using ok unfolding token_store_ok_def by blast
  then show ?thesis
    by (cases "stored_tokens s t")
       (auto simp: token_RevokeAllByUser_def gm_get_revoke_many listed_def split: option.splits)
qed

interpretation memory_token_repo: token_repository memory_tokens stored_tokens token_store_ok
proof (unfold_locales, goal_cases)
  case (1 p now tok s)
  then show ?case by (simp add: token_Get_def)
next
  case (2 t s)
  then show ?case by (simp add: token_Store_def fun_eq_iff)
next
  case (3 p t s)
  then show ?case by (cases p) (simp_all add: token_Store_def)
next
  case (4 c t s)
  then show ?case by (simp add: token_Store_def)
next
  case (5 s t p)
  then show ?case by (simp add: token_Store_ok)
next
  case (6 tok s)
  then show ?case by (auto simp: token_Revoke_def gm_get_revoke_one fun_eq_iff split: option.split)
next
  case (7 p tok s)
  then show ?case by (cases p) (simp_all add: token_Revoke_def split: option.split)
next
  case (8 c tok s)
  then show ?case by (simp add: token_Revoke_def)
next
  case (9 s p tok)
  then show ?case by (simp add: token_Revoke_ok)
next
  case (10 s uid)
  then show ?case by (simp add: token_RevokeAll_tokens fun_eq_iff)
next
  case (11 p uid s)
  then show ?case by (cases p) (simp_all add: token_RevokeAllByUser_def split: option.split)
next
  case (12 c uid s)
  then show ?case by (simp add: token_RevokeAllByUser_def)
next
  case (13 s p uid)
  then show ?case by (simp add: token_RevokeAllByUser_ok)
qed

end
