(* ===== verification/Jwt_Manager.thy ===== *)
theory Jwt_Manager
  imports User_Domain
begin

text \<open>
  Issuing and checking access tokens (\<open>user-service/internal/jwtmanager/jwt.go\<close>). The JWT library
  is two parameters: \<open>sign\<close>, the token made of a set of claims with the private key, and
  \<open>parse\<close>, what \<open>ParseWithClaims\<close> returns under a key function that accepts RSA methods only (the
  claims and the token's \<open>Valid\<close> flag, or an error). The key files are in \<open>Key_Pair\<close>.
\<close>

record jwt_claims =
  jc_UserID :: string
  jc_Email :: string
  jc_Role :: string
  jc_Issuer :: string
  jc_IssuedAt :: time
  jc_ExpiresAt :: time
  jc_NotBefore :: time
  jc_ID :: string

definition Issuer :: string where
  "Issuer = ''exchange-system-user-service''"

definition DefaultAccessTTL :: duration where
  "DefaultAccessTTL = 15 * 60 * second"

definition DefaultRefreshTTL :: duration where
  "DefaultRefreshTTL = 7 * 24 * 3600 * second"

record signer =
  sg_accessTTL :: duration
  sg_refreshTTL :: duration

definition NewSigner :: "duration \<Rightarrow> duration \<Rightarrow> signer" where
  "NewSigner accessTTL refreshTTL =
     \<lparr>sg_accessTTL = (if accessTTL \<le> 0 then DefaultAccessTTL else accessTTL),
      sg_refreshTTL = (if refreshTTL \<le> 0 then DefaultRefreshTTL else refreshTTL)\<rparr>"

record token_pair =
  tp_AccessToken :: string
  tp_ExpiresAt :: int
  tp_RefreshToken :: refresh_token

text \<open>\<open>Unix()\<close>: whole seconds since 1 January 1970, which is 62135596800 seconds after the zero time.\<close>

definition unix :: "time \<Rightarrow> int" where
  "unix t = t div second - 62135596800"

text \<open>The three identifiers of \<open>uuid.New()\<close> that a call takes: of the access token, of the
  refresh token record, and the refresh token itself.\<close>

record fresh_ids =
  fi_jti :: string
  fi_tokenID :: string
  fi_token :: string

definition GenerateTokens ::
  "(jwt_claims \<Rightarrow> string result) \<Rightarrow> (int \<Rightarrow> string) \<Rightarrow> signer \<Rightarrow> time \<Rightarrow> fresh_ids \<Rightarrow>
   string \<Rightarrow> string \<Rightarrow> user_role \<Rightarrow> token_pair result"
where
  "GenerateTokens sign itoa s now f userID email role =
     (let accessClaims =
        \<lparr>jc_UserID = userID, jc_Email = email, jc_Role = user_role_String itoa role, jc_Issuer = Issuer,
         jc_IssuedAt = now, jc_ExpiresAt = now + sg_accessTTL s, jc_NotBefore = now, jc_ID = fi_jti f\<rparr>
      in case sign accessClaims of
        Inl e \<Rightarrow> Inl (Wrapf ''failed to sign access token'' e)
      | Inr accessString \<Rightarrow>
          Inr \<lparr>tp_AccessToken = accessString, tp_ExpiresAt = unix (now + sg_accessTTL s),
               tp_RefreshToken =
                 \<lparr>rt_TokenID = fi_tokenID f, rt_UserID = userID, rt_Token = fi_token f,
                  rt_ExpiresAt = now + sg_refreshTTL s, rt_Revoked = False, rt_CreatedAt = now\<rparr>\<rparr>)"

definition signer_ValidateToken :: "(string \<Rightarrow> (jwt_claims \<times> bool) result) \<Rightarrow> string \<Rightarrow> jwt_claims result" where
  "signer_ValidateToken parse tokenString =
     (case parse tokenString of
        Inl e \<Rightarrow> Inl (Wrapf ''failed to parse token'' e)
      | Inr (claims, valid) \<Rightarrow>
          if \<not> valid then Inl (Errorf ''invalid token claims'')
          else if jc_Issuer claims \<noteq> Issuer then Inl (Errorf ''invalid token issuer'')
          else Inr claims)"

text \<open>\<open>Validator.Validate\<close> is the same check with the public key alone.\<close>

definition validator_Validate :: "(string \<Rightarrow> (jwt_claims \<times> bool) result) \<Rightarrow> string \<Rightarrow> jwt_claims result" where
  "validator_Validate parse tokenString =
     (case parse tokenString of
        Inl e \<Rightarrow> Inl (Wrapf ''failed to parse token'' e)
      | Inr (claims, valid) \<Rightarrow>
          if \<not> valid then Inl (Errorf ''invalid token claims'')
          else if jc_Issuer claims \<noteq> Issuer then Inl (Errorf ''invalid token issuer'')
          else Inr claims)"

definition ParseRole :: "jwt_claims \<Rightarrow> user_role result" where
  "ParseRole c =
     (case map_of UserRole_value (jc_Role c) of
        None \<Rightarrow> Inl (Errorf (''unknown role: '' @ jc_Role c))
      | Some v \<Rightarrow> Inr (user_role_of v))"

lemma NewSigner_positive: "0 < sg_accessTTL (NewSigner a r) \<and> 0 < sg_refreshTTL (NewSigner a r)"
  by (simp add: NewSigner_def DefaultAccessTTL_def DefaultRefreshTTL_def)

lemma GenerateTokens_refresh:
  "GenerateTokens sign itoa s now f uid em role = Inr tp \<Longrightarrow>
   tp_RefreshToken tp = \<lparr>rt_TokenID = fi_tokenID f, rt_UserID = uid, rt_Token = fi_token f,
     rt_ExpiresAt = now + sg_refreshTTL s, rt_Revoked = False, rt_CreatedAt = now\<rparr>"
  by (auto simp: GenerateTokens_def Let_def split: sum.splits)

lemma GenerateTokens_refresh_simps:
  assumes "GenerateTokens sign itoa s now f uid em role = Inr tp"
  shows "rt_Token (tp_RefreshToken tp) = fi_token f" and "rt_UserID (tp_RefreshToken tp) = uid"
    and "rt_Revoked (tp_RefreshToken tp) = False"
    and "rt_ExpiresAt (tp_RefreshToken tp) = now + sg_refreshTTL s"
  using GenerateTokens_refresh[OF assms] by simp_all

text \<open>What the library documents for a token it signed: while the token is neither early nor expired,
  parsing it with the matching key gives its claims, valid. Times lose up to a second on the way.\<close>

definition same_fields :: "jwt_claims \<Rightarrow> jwt_claims \<Rightarrow> bool" where
  "same_fields c d \<longleftrightarrow> jc_UserID d = jc_UserID c \<and> jc_Email d = jc_Email c \<and> jc_Role d = jc_Role c \<and>
     jc_Issuer d = jc_Issuer c \<and> jc_ID d = jc_ID c"

definition signed_parses ::
  "(jwt_claims \<Rightarrow> string result) \<Rightarrow> (string \<Rightarrow> (jwt_claims \<times> bool) result) \<Rightarrow> time \<Rightarrow> bool"
where
  "signed_parses sign parse t \<longleftrightarrow>
     (\<forall>c tok. sign c = Inr tok \<longrightarrow> jc_NotBefore c \<le> t \<longrightarrow> t + second \<le> jc_ExpiresAt c \<longrightarrow>
        (\<exists>d. parse tok = Inr (d, True) \<and> same_fields c d))"

text \<open>C17: an access token issued for a named role validates with the service's own signer while it
  lives, and its claims carry the user's identifier and address and parse back to the role.\<close>

theorem issued_token_validates:
  assumes "signed_parses sign parse t" and "named_role role"
    and "GenerateTokens sign itoa s now f uid em role = Inr tp"
    and "now \<le> t" and "t + second \<le> now + sg_accessTTL s"
  shows "\<exists>c. signer_ValidateToken parse (tp_AccessToken tp) = Inr c \<and> validator_Validate parse (tp_AccessToken tp) = Inr c \<and>
    jc_UserID c = uid \<and> jc_Email c = em \<and> ParseRole c = Inr role"
proof -
  obtain c where c: "sign c = Inr (tp_AccessToken tp)" "jc_UserID c = uid" "jc_Email c = em"
    "jc_Role c = user_role_String itoa role" "jc_Issuer c = Issuer" "jc_NotBefore c = now"
    "jc_ExpiresAt c = now + sg_accessTTL s"
    using assms(3) by (auto simp: GenerateTokens_def Let_def split: sum.splits)
  then obtain d where d: "parse (tp_AccessToken tp) = Inr (d, True)" "same_fields c d"
    using assms(1,4,5) unfolding signed_parses_def by metis
  have "ParseRole d = Inr role"
    using UserRole_value_String[OF assms(2)] c d by (simp add: ParseRole_def same_fields_def)
  then show ?thesis using c d by (auto simp: signer_ValidateToken_def validator_Validate_def same_fields_def)
qed

theorem issued_token_validates_witness:
  "\<exists>c. signer_ValidateToken (\<lambda>t. Inr (\<lparr>jc_UserID = ''u'', jc_Email = ''e'', jc_Role = ''USER_ROLE_USER'', jc_Issuer = Issuer,
      jc_IssuedAt = 0, jc_ExpiresAt = 60 * second, jc_NotBefore = 0, jc_ID = ''j''\<rparr>, True)) ''t'' = Inr c \<and>
    jc_UserID c = ''u'' \<and> ParseRole c = Inr USER_ROLE_USER"
proof -
  let ?c = "\<lparr>jc_UserID = ''u'', jc_Email = ''e'', jc_Role = ''USER_ROLE_USER'', jc_Issuer = Issuer,
      jc_IssuedAt = 0, jc_ExpiresAt = 60 * second, jc_NotBefore = 0, jc_ID = ''j''\<rparr>"
  let ?tp = "\<lparr>tp_AccessToken = ''t'', tp_ExpiresAt = unix (60 * second), tp_RefreshToken =
    \<lparr>rt_TokenID = ''i'', rt_UserID = ''u'', rt_Token = ''r'', rt_ExpiresAt = 70 * second, rt_Revoked = False,
     rt_CreatedAt = 0\<rparr>\<rparr>"
  have "\<exists>c. signer_ValidateToken (\<lambda>t. Inr (?c, True)) (tp_AccessToken ?tp) = Inr c \<and>
      validator_Validate (\<lambda>t. Inr (?c, True)) (tp_AccessToken ?tp) = Inr c \<and>
      jc_UserID c = ''u'' \<and> jc_Email c = ''e'' \<and> ParseRole c = Inr USER_ROLE_USER"
    by (rule issued_token_validates[where sign = "\<lambda>c. if c = ?c then Inr ''t'' else Inl (LibErr ''no key'')"
          and itoa = "\<lambda>_. ''''" and s = "\<lparr>sg_accessTTL = 60 * second, sg_refreshTTL = 70 * second\<rparr>" and now = 0
          and f = "\<lparr>fi_jti = ''j'', fi_tokenID = ''i'', fi_token = ''r''\<rparr>" and t = "second"])
       (simp_all add: signed_parses_def same_fields_def named_role_def GenerateTokens_def second_def)
  then show ?thesis by auto
qed

end
