(* ===== verification/Auth_Service.thy ===== *)
theory Auth_Service
  imports Auth_Ports Jwt_Manager
begin

text \<open>
  The authentication service (\<open>user-service/internal/service/auth.go\<close>) over its two repository
  ports. Its state is the pair of the stores. \<open>auth_lib\<close> holds the libraries: bcrypt, the JWT
  signer, timestamps; \<open>auth_env\<close> what one call reads from its surroundings: the polls of its
  context in order, the clock, and the identifiers that \<open>uuid.New()\<close> returns.
\<close>

record 'ts auth_lib =
  l_bcrypt :: "string \<Rightarrow> int \<Rightarrow> string result"
  l_compare :: "string \<Rightarrow> string \<Rightarrow> bool"
  l_sign :: "jwt_claims \<Rightarrow> string result"
  l_itoa :: "int \<Rightarrow> string"
  l_newts :: "time \<Rightarrow> 'ts"

record ('u, 't) auth_service =
  as_userRepo :: "'u user_ops"
  as_tokenRepo :: "'t token_ops"
  as_signer :: signer

definition NewAuthService :: "'u user_ops \<Rightarrow> 't token_ops \<Rightarrow> signer \<Rightarrow> ('u, 't) auth_service" where
  "NewAuthService userRepo tokenRepo sg = \<lparr>as_userRepo = userRepo, as_tokenRepo = tokenRepo, as_signer = sg\<rparr>"

record auth_env =
  e_cx :: ctx
  e_now :: time
  e_userID :: string
  e_ids :: fresh_ids

abbreviation usvc :: "user_svc_error \<Rightarrow> err" where
  "usvc e \<equiv> Sentinel (UserSvc e)"

text \<open>The user that \<open>Register\<close> builds.\<close>

definition new_user :: "auth_env \<Rightarrow> register_request \<Rightarrow> string \<Rightarrow> user" where
  "new_user E req hashed =
     \<lparr>us_UserID = e_userID E, us_Email = rr_Email req, us_Username = rr_Username req,
      us_Password = hashed, us_Role = USER_ROLE_USER, us_IsActive = True,
      us_CreatedAt = 0, us_UpdatedAt = 0\<rparr>"

text \<open>\<open>Register\<close> polls the context in \<open>GetByEmail\<close> (0), \<open>Create\<close> (1) and \<open>Store\<close> (2); a failure to
  store the refresh token is logged only. The response carries the access token alone.\<close>

definition auth_Register ::
  "'ts auth_lib \<Rightarrow> ('u, 't) auth_service \<Rightarrow> auth_env \<Rightarrow> register_request \<Rightarrow> 'u \<times> 't \<Rightarrow>
   ('u \<times> 't) \<times> 'ts auth_response result"
where
  "auth_Register L A E req st = (case st of (us, ts) \<Rightarrow>
     if \<not> ValidateEmail (rr_Email req) then (st, Inl (usvc UErrInvalidEmail))
     else if \<not> ValidatePassword (rr_Password req) then (st, Inl (usvc UErrInvalidPassword))
     else case ur_GetByEmail (as_userRepo A) (e_cx E 0) (rr_Email req) us of
       Inr existing \<Rightarrow> (st, Inl (usvc UErrUserAlreadyExists))
     | Inl e \<Rightarrow>
         if \<not> errors_is e (UserRepo RErrUserNotFound) then (st, Inl (Wrapf ''database error'' e))
         else case HashPassword (l_bcrypt L) (rr_Password req) 12 of
           Inl e \<Rightarrow> (st, Inl (Wrapf ''failed to hash password'' e))
         | Inr hashed \<Rightarrow>
             let user = new_user E req hashed
             in case ur_Create (as_userRepo A) (e_cx E 1) (e_now E) user us of
               (us', Inl e) \<Rightarrow>
                 ((us', ts), Inl (if errors_is e (UserRepo RErrUserAlreadyExists) then usvc UErrUserAlreadyExists
                                  else Wrapf ''failed to create user'' e))
             | (us', Inr user') \<Rightarrow>
                 (case GenerateTokens (l_sign L) (l_itoa L) (as_signer A) (e_now E) (e_ids E)
                         (us_UserID user') (us_Email user') (us_Role user') of
                    Inl e \<Rightarrow> ((us', ts), Inl (Wrapf ''failed to generate tokens'' e))
                  | Inr tp \<Rightarrow>
                      ((us', fst (tr_Store (as_tokenRepo A) (e_cx E 2) (tp_RefreshToken tp) ts)),
                       Inr \<lparr>ar_User = user_ToProto (l_newts L) user', ar_AccessToken = tp_AccessToken tp\<rparr>)))"

text \<open>\<open>Login\<close>: \<open>GetByEmail\<close> (0) and \<open>Store\<close> (1). An unknown address compares the password with a
  dummy hash, for timing, and drops the result.\<close>

definition auth_Login ::
  "'ts auth_lib \<Rightarrow> ('u, 't) auth_service \<Rightarrow> auth_env \<Rightarrow> string \<Rightarrow> string \<Rightarrow> 'u \<times> 't \<Rightarrow>
   ('u \<times> 't) \<times> 'ts auth_response result"
where
  "auth_Login L A E email password st = (case st of (us, ts) \<Rightarrow>
     case ur_GetByEmail (as_userRepo A) (e_cx E 0) email us of
       Inl e \<Rightarrow> (st, Inl (if errors_is e (UserRepo RErrUserNotFound) then usvc UErrInvalidCredentials
                         else Wrapf ''database error'' e))
     | Inr user \<Rightarrow>
         if \<not> CheckPassword (l_compare L) password (us_Password user) then (st, Inl (usvc UErrInvalidCredentials))
         else if \<not> us_IsActive user then (st, Inl (usvc UErrUnauthorized))
         else case GenerateTokens (l_sign L) (l_itoa L) (as_signer A) (e_now E) (e_ids E)
                (us_UserID user) (us_Email user) (us_Role user) of
           Inl e \<Rightarrow> (st, Inl (Wrapf ''failed to generate tokens'' e))
         | Inr tp \<Rightarrow>
             (case tr_Store (as_tokenRepo A) (e_cx E 1) (tp_RefreshToken tp) ts of
                (ts', Inl e) \<Rightarrow> ((us, ts'), Inl (Wrapf ''failed to store refresh token'' e))
              | (ts', Inr _) \<Rightarrow>
                  ((us, ts'), Inr \<lparr>ar_User = user_ToProto (l_newts L) user, ar_AccessToken = tp_AccessToken tp\<rparr>)))"

text \<open>\<open>RefreshToken\<close>: \<open>Get\<close> (0), \<open>GetByID\<close> (1), \<open>Revoke\<close> (2), \<open>Store\<close> (3). A failed revocation is
  logged only. The response is the new access token.\<close>

definition auth_RefreshToken ::
  "'ts auth_lib \<Rightarrow> ('u, 't) auth_service \<Rightarrow> auth_env \<Rightarrow> string \<Rightarrow> 'u \<times> 't \<Rightarrow> ('u \<times> 't) \<times> string result"
where
  "auth_RefreshToken L A E token st = (case st of (us, ts) \<Rightarrow>
     case tr_Get (as_tokenRepo A) (e_cx E 0) (e_now E) token ts of
       Inl e \<Rightarrow> (st, Inl (if errors_is e (UserRepo RErrTokenNotFound) \<or> errors_is e (UserRepo RErrTokenRevoked) \<or>
                            errors_is e (UserRepo RErrTokenExpired)
                         then usvc UErrTokenInvalid else Wrapf ''database error'' e))
     | Inr stored \<Rightarrow>
         (case ur_GetByID (as_userRepo A) (e_cx E 1) (rt_UserID stored) us of
            Inl e \<Rightarrow> (st, Inl (usvc UErrUserNotFound))
          | Inr user \<Rightarrow>
              if \<not> us_IsActive user then (st, Inl (usvc UErrUnauthorized))
              else let ts1 = fst (tr_Revoke (as_tokenRepo A) (e_cx E 2) token ts)
              in case GenerateTokens (l_sign L) (l_itoa L) (as_signer A) (e_now E) (e_ids E)
                   (us_UserID user) (us_Email user) (us_Role user) of
                Inl e \<Rightarrow> ((us, ts1), Inl (Wrapf ''failed to generate tokens'' e))
              | Inr tp \<Rightarrow>
                  (case tr_Store (as_tokenRepo A) (e_cx E 3) (tp_RefreshToken tp) ts1 of
                     (ts2, Inl e) \<Rightarrow> ((us, ts2), Inl (Wrapf ''failed to store refresh token'' e))
                   | (ts2, Inr _) \<Rightarrow> ((us, ts2), Inr (tp_AccessToken tp)))))"

definition auth_Logout :: "('u, 't) auth_service \<Rightarrow> poll \<Rightarrow> string \<Rightarrow> 'u \<times> 't \<Rightarrow> ('u \<times> 't) \<times> unit result" where
  "auth_Logout A p token st = (case st of (us, ts) \<Rightarrow>
     case tr_Revoke (as_tokenRepo A) p token ts of
       (ts', Inl e) \<Rightarrow> ((us, ts'), if errors_is e (UserRepo RErrTokenNotFound) then Inr ()
                                else Inl (Wrapf ''failed to revoke token'' e))
     | (ts', Inr _) \<Rightarrow> ((us, ts'), Inr ()))"

definition auth_LogoutAll :: "('u, 't) auth_service \<Rightarrow> poll \<Rightarrow> string \<Rightarrow> 'u \<times> 't \<Rightarrow> ('u \<times> 't) \<times> unit result" where
  "auth_LogoutAll A p uid st = (case st of (us, ts) \<Rightarrow>
     case tr_RevokeAllByUser (as_tokenRepo A) p uid ts of
       (ts', Inl e) \<Rightarrow> ((us, ts'), Inl (Wrapf ''failed to revoke all tokens'' e))
     | (ts', Inr _) \<Rightarrow> ((us, ts'), Inr ()))"

definition auth_GetUser :: "'ts auth_lib \<Rightarrow> ('u, 't) auth_service \<Rightarrow> poll \<Rightarrow> string \<Rightarrow> 'u \<times> 't \<Rightarrow> 'ts user_pb result" where
  "auth_GetUser L A p uid st =
     (case ur_GetByID (as_userRepo A) p uid (fst st) of
        Inl e \<Rightarrow> Inl (if errors_is e (UserRepo RErrUserNotFound) then usvc UErrUserNotFound
                     else Wrapf ''database error'' e)
      | Inr user \<Rightarrow> Inr (user_ToProto (l_newts L) user))"

text \<open>\<open>UpdateRole\<close>: \<open>GetByID\<close> (0) and \<open>Update\<close> (1), which stamps the user itself; the stamp of the
  service (\<open>t1\<close>) is overwritten by the one of the repository (\<open>t2\<close>).\<close>

definition auth_UpdateRole ::
  "'ts auth_lib \<Rightarrow> ('u, 't) auth_service \<Rightarrow> ctx \<Rightarrow> time \<Rightarrow> time \<Rightarrow> string \<Rightarrow> user_role \<Rightarrow> user_role \<Rightarrow> 'u \<times> 't \<Rightarrow>
   ('u \<times> 't) \<times> 'ts user_pb result"
where
  "auth_UpdateRole L A cx t1 t2 uid newRole actorRole st = (case st of (us, ts) \<Rightarrow>
     if actorRole \<noteq> USER_ROLE_ADMIN then (st, Inl (usvc UErrPermissionDenied))
     else case ur_GetByID (as_userRepo A) (cx 0) uid us of
       Inl e \<Rightarrow> (st, Inl (if errors_is e (UserRepo RErrUserNotFound) then usvc UErrUserNotFound
                         else Wrapf ''database error'' e))
     | Inr user \<Rightarrow>
         (case ur_Update (as_userRepo A) (cx 1) t2 (user\<lparr>us_Role := newRole, us_UpdatedAt := t1\<rparr>) us of
            (us', Inl e) \<Rightarrow> ((us', ts), Inl (Wrapf ''failed to update user'' e))
          | (us', Inr user') \<Rightarrow> ((us', ts), Inr (user_ToProto (l_newts L) user'))))"

definition auth_ValidateToken :: "(string \<Rightarrow> (jwt_claims \<times> bool) result) \<Rightarrow> string \<Rightarrow> jwt_claims result" where
  "auth_ValidateToken parse tokenString =
     (case signer_ValidateToken parse tokenString of
        Inl e \<Rightarrow> Inl (usvc UErrTokenInvalid) | Inr claims \<Rightarrow> Inr claims)"

text \<open>The service as it is put together: the in-memory repositories and a signer.\<close>

definition memory_service :: "signer \<Rightarrow> (user_store, token_store) auth_service" where
  "memory_service s = \<lparr>as_userRepo = memory_users, as_tokenRepo = memory_tokens, as_signer = s\<rparr>"

lemma new_user_simps [simp]:
  "us_UserID (new_user E req h) = e_userID E" "us_Email (new_user E req h) = rr_Email req"
  "us_Password (new_user E req h) = h" "us_Role (new_user E req h) = USER_ROLE_USER"
  "us_IsActive (new_user E req h)"
  by (simp_all add: new_user_def)

lemma memory_service_simps [simp]:
  "as_userRepo (memory_service s) = memory_users" "as_tokenRepo (memory_service s) = memory_tokens"
  "as_signer (memory_service s) = s"
  by (simp_all add: memory_service_def)

end
