(* ===== verification/Auth_Runs.thy ===== *)
theory Auth_Runs
  imports Auth_Service
begin

text \<open>
  Runs of the authentication service: the operations as data, one step per call, and what every
  step keeps of the two stores. The lemmas are proved over the ports' contracts (\<open>auth_ports\<close>)
  and interpreted on the in-memory repositories.
\<close>

datatype auth_op =
  OpRegister auth_env register_request
| OpLogin auth_env string string
| OpRefresh auth_env string
| OpLogout poll string
| OpLogoutAll poll string
| OpUpdateRole ctx time time string user_role user_role

fun auth_exec :: "'ts auth_lib \<Rightarrow> ('u, 't) auth_service \<Rightarrow> auth_op \<Rightarrow> 'u \<times> 't \<Rightarrow> 'u \<times> 't" where
  "auth_exec L A (OpRegister E req) st = fst (auth_Register L A E req st)"
| "auth_exec L A (OpLogin E email pw) st = fst (auth_Login L A E email pw st)"
| "auth_exec L A (OpRefresh E tok) st = fst (auth_RefreshToken L A E tok st)"
| "auth_exec L A (OpLogout p tok) st = fst (auth_Logout A p tok st)"
| "auth_exec L A (OpLogoutAll p uid) st = fst (auth_LogoutAll A p uid st)"
| "auth_exec L A (OpUpdateRole cx t1 t2 uid new actor) st = fst (auth_UpdateRole L A cx t1 t2 uid new actor st)"

text \<open>The refresh token that an operation may take from \<open>uuid.New()\<close>, which the store does not hold.\<close>

fun op_fresh :: "(string \<Rightarrow> refresh_token option) \<Rightarrow> auth_op \<Rightarrow> bool" where
  "op_fresh T (OpRegister E req) \<longleftrightarrow> T (fi_token (e_ids E)) = None"
| "op_fresh T (OpLogin E email pw) \<longleftrightarrow> T (fi_token (e_ids E)) = None"
| "op_fresh T (OpRefresh E tok) \<longleftrightarrow> T (fi_token (e_ids E)) = None"
| "op_fresh T _ \<longleftrightarrow> True"

section \<open>What a step keeps\<close>

text \<open>A user keeps everything but the role and the time of its last change; a token is kept as it
  is or revoked.\<close>

definition same_account :: "user \<Rightarrow> user \<Rightarrow> bool" where
  "same_account u v \<longleftrightarrow> us_UserID v = us_UserID u \<and> us_Email v = us_Email u \<and> us_Username v = us_Username u \<and>
     us_Password v = us_Password u \<and> us_IsActive v = us_IsActive u \<and> us_CreatedAt v = us_CreatedAt u"

definition keeps_users :: "(string \<Rightarrow> user option) \<Rightarrow> (string \<Rightarrow> user option) \<Rightarrow> bool" where
  "keeps_users U V \<longleftrightarrow> (\<forall>i u. U i = Some u \<longrightarrow> (\<exists>v. V i = Some v \<and> same_account u v))"

definition keeps_tokens :: "(string \<Rightarrow> refresh_token option) \<Rightarrow> (string \<Rightarrow> refresh_token option) \<Rightarrow> bool" where
  "keeps_tokens T S \<longleftrightarrow> (\<forall>t rt. T t = Some rt \<longrightarrow> S t = Some rt \<or> S t = Some (revoked rt))"

lemma same_account_refl [simp]: "same_account u u"
  by (simp add: same_account_def)

lemma same_account_trans: "same_account u v \<Longrightarrow> same_account v w \<Longrightarrow> same_account u w"
  by (simp add: same_account_def)

lemma keeps_users_refl [simp]: "keeps_users U U"
  by (simp add: keeps_users_def)

lemma keeps_users_trans: "keeps_users U V \<Longrightarrow> keeps_users V W \<Longrightarrow> keeps_users U W"
  unfolding keeps_users_def by (meson same_account_trans)

lemma keeps_users_new: "U i = None \<Longrightarrow> keeps_users U (U(i \<mapsto> u))"
  by (auto simp: keeps_users_def)

lemma keeps_users_same: "U i = Some u \<Longrightarrow> same_account u v \<Longrightarrow> keeps_users U (U(i \<mapsto> v))"
  by (auto simp: keeps_users_def)

lemma keeps_tokens_refl [simp]: "keeps_tokens T T"
  by (simp add: keeps_tokens_def)

lemma keeps_tokens_trans:
  assumes "keeps_tokens T S" and "keeps_tokens S R"
  shows "keeps_tokens T R"
  unfolding keeps_tokens_def
proof (intro allI impI)
  fix t rt assume "T t = Some rt"
  then have "S t = Some rt \<or> S t = Some (revoked rt)" using assms(1) unfolding keeps_tokens_def by blast
  then show "R t = Some rt \<or> R t = Some (revoked rt)" using assms(2) unfolding keeps_tokens_def by fastforce
qed

lemma keeps_tokens_new: "T t = None \<Longrightarrow> keeps_tokens T (T(t \<mapsto> rt))"
  by (auto simp: keeps_tokens_def)

lemma keeps_tokens_revoked: "keeps_tokens T S \<Longrightarrow> T t = Some rt \<Longrightarrow> rt_Revoked rt \<Longrightarrow> \<exists>r. S t = Some r \<and> rt_Revoked r"
  unfolding keeps_tokens_def by fastforce

text \<open>Tokens are kept, and a token that appears belongs to a user of \<open>U\<close>.\<close>

definition token_step :: "(string \<Rightarrow> user option) \<Rightarrow> (string \<Rightarrow> refresh_token option) \<Rightarrow> (string \<Rightarrow> refresh_token option) \<Rightarrow> bool" where
  "token_step U T S \<longleftrightarrow> keeps_tokens T S \<and>
     (\<forall>t rt. S t = Some rt \<longrightarrow> (\<exists>r. T t = Some r \<and> rt_UserID r = rt_UserID rt) \<or> U (rt_UserID rt) \<noteq> None)"

lemma token_step_refl [simp]: "token_step U T T"
  by (simp add: token_step_def)

lemma token_step_trans: "token_step U T S \<Longrightarrow> token_step U S R \<Longrightarrow> token_step U T R"
  unfolding token_step_def using keeps_tokens_trans[of T S R] by metis

lemma token_step_new: "T t = None \<Longrightarrow> U (rt_UserID rt) \<noteq> None \<Longrightarrow> token_step U T (T(t \<mapsto> rt))"
  by (simp add: token_step_def keeps_tokens_new)

lemma token_step_map:
  "(\<And>t. S t = T t \<or> S t = map_option revoked (T t)) \<Longrightarrow> token_step U T S"
  unfolding token_step_def keeps_tokens_def
proof (intro conjI allI impI)
  fix t rt assume S: "\<And>t. S t = T t \<or> S t = map_option revoked (T t)"
  show "S t = Some rt \<or> S t = Some (revoked rt)" if "T t = Some rt" using S[of t] that by auto
  show "(\<exists>r. T t = Some r \<and> rt_UserID r = rt_UserID rt) \<or> U (rt_UserID rt) \<noteq> None" if "S t = Some rt"
    using S[of t] that by (cases "T t") auto
qed

text \<open>Where a stored user comes from: a registration with a valid address and the USER role, or the
  user before the step, whose role only an admin's \<open>UpdateRole\<close> changes.\<close>

definition accounted :: "auth_op \<Rightarrow> (string \<Rightarrow> user option) \<Rightarrow> (string \<Rightarrow> user option) \<Rightarrow> bool" where
  "accounted op U V \<longleftrightarrow> (\<forall>i v. V i = Some v \<longrightarrow>
     (case U i of
        None \<Rightarrow> (\<exists>E req. op = OpRegister E req \<and> us_Email v = rr_Email req) \<and> ValidateEmail (us_Email v) \<and>
          us_Role v = USER_ROLE_USER
      | Some u \<Rightarrow> same_account u v \<and>
          (us_Role v = us_Role u \<or> (\<exists>cx t1 t2. op = OpUpdateRole cx t1 t2 i (us_Role v) USER_ROLE_ADMIN))))"

lemma accounted_new:
  "accounted op U V \<Longrightarrow> V i = Some v \<Longrightarrow> U i = None \<Longrightarrow>
   ValidateEmail (us_Email v) \<and> us_Role v = USER_ROLE_USER \<and> (\<exists>E req. op = OpRegister E req \<and> us_Email v = rr_Email req)"
  unfolding accounted_def by (drule spec[of _ i], drule spec[of _ v]) (simp only: option.case simp_thms)

lemma accounted_old:
  "accounted op U V \<Longrightarrow> V i = Some v \<Longrightarrow> U i = Some u \<Longrightarrow>
   same_account u v \<and> (us_Role v = us_Role u \<or> (\<exists>cx t1 t2. op = OpUpdateRole cx t1 t2 i (us_Role v) USER_ROLE_ADMIN))"
  unfolding accounted_def by (drule spec[of _ i], drule spec[of _ v]) (simp only: option.case simp_thms)

lemma accounted_refl [simp]: "accounted op U U"
  by (simp add: accounted_def split: option.split)

section \<open>The branches of the operations\<close>

lemma register_cases:
  fixes L :: "'ts auth_lib" and A :: "('u, 't) auth_service"
  obtains (refused) e where "auth_Register L A E req (us, ts) = ((us, ts), Inl e)"
  | (failed) h us' r e where "ur_Create (as_userRepo A) (e_cx E 1) (e_now E) (new_user E req h) us = (us', r)"
      and "ValidateEmail (rr_Email req)"
      and "auth_Register L A E req (us, ts) = ((us', ts), Inl e)"
  | (finished) h us' u tp where "ur_Create (as_userRepo A) (e_cx E 1) (e_now E) (new_user E req h) us = (us', Inr u)"
      and "HashPassword (l_bcrypt L) (rr_Password req) 12 = Inr h"
      and "ValidateEmail (rr_Email req)" and "ValidatePassword (rr_Password req)"
      and "GenerateTokens (l_sign L) (l_itoa L) (as_signer A) (e_now E) (e_ids E)
             (us_UserID u) (us_Email u) (us_Role u) = Inr tp"
      and "auth_Register L A E req (us, ts) =
        ((us', fst (tr_Store (as_tokenRepo A) (e_cx E 2) (tp_RefreshToken tp) ts)),
         Inr \<lparr>ar_User = user_ToProto (l_newts L) u, ar_AccessToken = tp_AccessToken tp\<rparr>)"
proof (cases "\<exists>e. auth_Register L A E req (us, ts) = ((us, ts), Inl e)")
  case True
  then show ?thesis using refused by blast
next
  case False
  then obtain h where valid: "ValidateEmail (rr_Email req)" "ValidatePassword (rr_Password req)"
    and email: "\<And>u. ur_GetByEmail (as_userRepo A) (e_cx E 0) (rr_Email req) us \<noteq> Inr u"
      "\<And>e. ur_GetByEmail (as_userRepo A) (e_cx E 0) (rr_Email req) us = Inl e \<Longrightarrow> errors_is e (UserRepo RErrUserNotFound)"
    and hash: "HashPassword (l_bcrypt L) (rr_Password req) 12 = Inr h"
    by (auto simp: auth_Register_def split: sum.splits if_splits)
  obtain e where e: "ur_GetByEmail (as_userRepo A) (e_cx E 0) (rr_Email req) us = Inl e"
    "errors_is e (UserRepo RErrUserNotFound)"
    using email by (cases "ur_GetByEmail (as_userRepo A) (e_cx E 0) (rr_Email req) us") auto
  obtain us' r where cr: "ur_Create (as_userRepo A) (e_cx E 1) (e_now E) (new_user E req h) us = (us', r)"
    by fastforce
  note reg = auth_Register_def[of L A E req "(us, ts)"] valid e hash cr
  show ?thesis
  proof (cases r)
    case (Inl x)
    with cr show ?thesis by (rule_tac failed[of h us' r]) (simp_all add: reg)
  next
    case r: (Inr u)
    show ?thesis
    proof (cases "GenerateTokens (l_sign L) (l_itoa L) (as_signer A) (e_now E) (e_ids E)
       (us_UserID u) (us_Email u) (us_Role u)")
      case (Inl x)
      with cr r show ?thesis by (rule_tac failed[of h us' r]) (simp_all add: reg)
    next
      case (Inr tp)
      with reg r show ?thesis by (rule_tac finished[of h us' u tp]) simp_all
    qed
  qed
qed

lemma login_cases:
  fixes L :: "'ts auth_lib" and A :: "('u, 't) auth_service"
  obtains (refused) e where "auth_Login L A E email pw (us, ts) = ((us, ts), Inl e)"
  | (stored) u tp where "ur_GetByEmail (as_userRepo A) (e_cx E 0) email us = Inr u"
      and "CheckPassword (l_compare L) pw (us_Password u)" and "us_IsActive u"
      and "GenerateTokens (l_sign L) (l_itoa L) (as_signer A) (e_now E) (e_ids E)
             (us_UserID u) (us_Email u) (us_Role u) = Inr tp"
      and "auth_Login L A E email pw (us, ts) =
        ((us, fst (tr_Store (as_tokenRepo A) (e_cx E 1) (tp_RefreshToken tp) ts)),
         case snd (tr_Store (as_tokenRepo A) (e_cx E 1) (tp_RefreshToken tp) ts) of
           Inl e \<Rightarrow> Inl (Wrapf ''failed to store refresh token'' e)
         | Inr _ \<Rightarrow> Inr \<lparr>ar_User = user_ToProto (l_newts L) u, ar_AccessToken = tp_AccessToken tp\<rparr>)"
proof (cases "\<exists>e. auth_Login L A E email pw (us, ts) = ((us, ts), Inl e)")
  case True
  then show ?thesis using refused by blast
next
  case False
  then obtain u tp where u: "ur_GetByEmail (as_userRepo A) (e_cx E 0) email us = Inr u"
    "CheckPassword (l_compare L) pw (us_Password u)" "us_IsActive u"
    "GenerateTokens (l_sign L) (l_itoa L) (as_signer A) (e_now E) (e_ids E)
       (us_UserID u) (us_Email u) (us_Role u) = Inr tp"
    by (auto simp: auth_Login_def split: sum.splits if_splits)
  then show ?thesis
    by (rule_tac stored[of u tp]) (simp_all add: auth_Login_def split: prod.split sum.split)
qed

lemma refresh_cases:
  fixes L :: "'ts auth_lib" and A :: "('u, 't) auth_service"
  obtains (refused) e where "auth_RefreshToken L A E tok (us, ts) = ((us, ts), Inl e)"
  | (unsigned) e where "auth_RefreshToken L A E tok (us, ts) =
        ((us, fst (tr_Revoke (as_tokenRepo A) (e_cx E 2) tok ts)), Inl e)"
  | (stored) rt u tp where "tr_Get (as_tokenRepo A) (e_cx E 0) (e_now E) tok ts = Inr rt"
      and "ur_GetByID (as_userRepo A) (e_cx E 1) (rt_UserID rt) us = Inr u" and "us_IsActive u"
      and "GenerateTokens (l_sign L) (l_itoa L) (as_signer A) (e_now E) (e_ids E)
             (us_UserID u) (us_Email u) (us_Role u) = Inr tp"
      and "auth_RefreshToken L A E tok (us, ts) =
        (let ts1 = fst (tr_Revoke (as_tokenRepo A) (e_cx E 2) tok ts);
             st2 = tr_Store (as_tokenRepo A) (e_cx E 3) (tp_RefreshToken tp) ts1
         in ((us, fst st2), case snd st2 of Inl e \<Rightarrow> Inl (Wrapf ''failed to store refresh token'' e)
             | Inr _ \<Rightarrow> Inr (tp_AccessToken tp)))"
proof (cases "\<exists>e. auth_RefreshToken L A E tok (us, ts) = ((us, ts), Inl e)")
  case True
  then show ?thesis using refused by blast
next
  case False
  then obtain rt u where u: "tr_Get (as_tokenRepo A) (e_cx E 0) (e_now E) tok ts = Inr rt"
    "ur_GetByID (as_userRepo A) (e_cx E 1) (rt_UserID rt) us = Inr u" "us_IsActive u"
    by (auto simp: auth_RefreshToken_def split: sum.splits if_splits)
  show ?thesis
  proof (cases "GenerateTokens (l_sign L) (l_itoa L) (as_signer A) (e_now E) (e_ids E)
       (us_UserID u) (us_Email u) (us_Role u)")
    case (Inl x)
    with u show ?thesis by (rule_tac unsigned) (simp add: auth_RefreshToken_def Let_def)
  next
    case (Inr tp)
    with u show ?thesis
      by (rule_tac stored[of rt u tp]) (simp_all add: auth_RefreshToken_def Let_def split: prod.split sum.split)
  qed
qed

section \<open>Every step keeps the stores\<close>

locale auth_ports =
  user_repository uops users_of uinv + token_repository tops tokens_of tinv
  for uops :: "'u user_ops" and users_of :: "'u \<Rightarrow> string \<Rightarrow> user option" and uinv :: "'u \<Rightarrow> bool"
    and tops :: "'t token_ops" and tokens_of :: "'t \<Rightarrow> string \<Rightarrow> refresh_token option" and tinv :: "'t \<Rightarrow> bool"
begin

definition serves :: "('u, 't) auth_service \<Rightarrow> bool" where
  "serves A \<longleftrightarrow> as_userRepo A = uops \<and> as_tokenRepo A = tops"

lemma store_cases: "tokens_of (fst (tr_Store tops p t s)) =
    (case p of None \<Rightarrow> (tokens_of s)(rt_Token t \<mapsto> t) | Some c \<Rightarrow> tokens_of s)"
  by (cases p) (simp_all add: store_tokens store_done)

lemma store_keeps: "tokens_of s (rt_Token t) = None \<Longrightarrow> keeps_tokens (tokens_of s) (tokens_of (fst (tr_Store tops p t s)))"
  by (cases p) (simp_all add: store_cases keeps_tokens_new)

lemma revoke_cases: "tokens_of (fst (tr_Revoke tops p tok s)) =
    (case p of None \<Rightarrow> (tokens_of s)(tok := map_option revoked (tokens_of s tok)) | Some c \<Rightarrow> tokens_of s)"
  by (cases p) (simp_all add: revoke_tokens revoke_done)

lemma revoke_keeps: "keeps_tokens (tokens_of s) (tokens_of (fst (tr_Revoke tops p tok s)))"
  by (cases p) (auto simp: revoke_cases keeps_tokens_def)

lemma revoke_all_keeps: "tinv s \<Longrightarrow> keeps_tokens (tokens_of s) (tokens_of (fst (tr_RevokeAllByUser tops p uid s)))"
  by (cases p) (auto simp: revoke_all_tokens revoke_all_done keeps_tokens_def)

lemma create_result:
  assumes "uinv s" and "snd (ur_Create uops p now u s) = Inr v"
  shows "users_of s (us_UserID u) = None" and "v = u\<lparr>us_CreatedAt := now, us_UpdatedAt := now\<rparr>"
    and "users_of (fst (ur_Create uops p now u s)) = (users_of s)(us_UserID u \<mapsto> v)"
    and "ur_GetByEmail uops None (us_Email u) s = Inl user_not_found"
  using create_ok[OF assms] create_new[OF assms(1), of u now] assms(2) by auto

lemma create_keeps: "uinv s \<Longrightarrow> keeps_users (users_of s) (users_of (fst (ur_Create uops p now u s)))"
proof (cases "snd (ur_Create uops p now u s)")
  case (Inl e)
  moreover assume "uinv s"
  ultimately show ?thesis by (simp add: create_failed)
next
  case (Inr v)
  moreover assume "uinv s"
  ultimately show ?thesis using create_result[of s p now u v] by (simp add: keeps_users_new)
qed

text \<open>An update that changes neither identifier nor address keeps the invariant.\<close>

lemma update_state:
  assumes "uinv s" and "users_of s (us_UserID u) = Some v" and "us_Email v = us_Email u"
  shows "users_of (fst (ur_Update uops p now u s)) =
      (case p of None \<Rightarrow> (users_of s)(us_UserID u \<mapsto> u\<lparr>us_UpdatedAt := now\<rparr>) | Some c \<Rightarrow> users_of s)"
    and "uinv (fst (ur_Update uops p now u s))"
  using assms update_found[of s u now] update_inv[of s u v p now] update_done
  by (auto split: option.split)

lemma update_role_cases:
  assumes "serves A" and inv: "uinv us"
  obtains (refused) e where "auth_UpdateRole L A cx t1 t2 uid new actor (us, ts) = ((us, ts), Inl e)"
  | (stored) u where "actor = USER_ROLE_ADMIN" and "users_of us uid = Some u"
      and "auth_UpdateRole L A cx t1 t2 uid new actor (us, ts) =
        ((fst (ur_Update uops None t2 (u\<lparr>us_Role := new, us_UpdatedAt := t1\<rparr>) us), ts),
         Inr (user_ToProto (l_newts L) (u\<lparr>us_Role := new, us_UpdatedAt := t2\<rparr>)))"
proof (cases "\<exists>e. auth_UpdateRole L A cx t1 t2 uid new actor (us, ts) = ((us, ts), Inl e)")
  case True
  then show ?thesis using refused by blast
next
  case False
  have ops: "as_userRepo A = uops" using assms(1) by (simp add: serves_def)
  from False have actor: "actor = USER_ROLE_ADMIN" and id: "ur_GetByID uops (cx 0) uid us \<noteq> Inl e" for e
    by (auto simp: auth_UpdateRole_def ops split: if_splits)
  then obtain u where u: "ur_GetByID uops (cx 0) uid us = Inr u"
    by (cases "ur_GetByID uops (cx 0) uid us") auto
  then have st: "users_of us uid = Some u" using by_id[OF inv] by (auto split: option.splits)
  then have uid: "us_UserID u = uid" using stored_id[OF inv] by blast
  have "cx 1 = None"
  proof (rule ccontr)
    assume "cx 1 \<noteq> None"
    then obtain c where "cx 1 = Some c" by blast
    then show False using False actor u by (auto simp: auth_UpdateRole_def ops update_done)
  qed
  moreover have "snd (ur_Update uops None t2 (u\<lparr>us_Role := new, us_UpdatedAt := t1\<rparr>) us) =
    Inr (u\<lparr>us_Role := new, us_UpdatedAt := t2\<rparr>)"
    using update_found[OF inv, of "u\<lparr>us_Role := new, us_UpdatedAt := t1\<rparr>" t2] st uid by simp
  ultimately show ?thesis
    using actor u st by (intro stored[of u]) (auto simp: auth_UpdateRole_def ops split: prod.split)
qed

lemma exec_users:
  assumes "serves A" and inv: "uinv us"
  shows "uinv (fst (auth_exec L A op (us, ts))) \<and> keeps_users (users_of us) (users_of (fst (auth_exec L A op (us, ts))))"
proof -
  have ops: "as_userRepo A = uops" using assms(1) by (simp add: serves_def)
  show ?thesis
  proof (cases op)
    case (OpRegister E req)
    show ?thesis
    proof (cases rule: register_cases[of L A E req us ts])
      case (failed h us' r e)
      have "us' = fst (ur_Create uops (e_cx E 1) (e_now E) (new_user E req h) us)" using failed ops by simp
      then show ?thesis using OpRegister failed inv by (simp add: create_inv create_keeps)
    next
      case (finished h us' u tp)
      have "us' = fst (ur_Create uops (e_cx E 1) (e_now E) (new_user E req h) us)" using finished ops by simp
      then show ?thesis using OpRegister finished inv by (simp add: create_inv create_keeps)
    qed (simp add: OpRegister inv)
  next
    case (OpLogin E em pw)
    then show ?thesis using inv by (cases rule: login_cases[of L A E em pw us ts]) simp_all
  next
    case (OpRefresh E tok)
    then show ?thesis using inv by (cases rule: refresh_cases[of L A E tok us ts]) (simp_all add: Let_def)
  next
    case (OpLogout p tok)
    then show ?thesis using inv by (simp add: auth_Logout_def split: prod.split sum.split)
  next
    case (OpLogoutAll p uid)
    then show ?thesis using inv by (simp add: auth_LogoutAll_def split: prod.split sum.split)
  next
    case (OpUpdateRole cx t1 t2 uid new actor)
    from assms show ?thesis
    proof (cases rule: update_role_cases[where L = L and cx = cx and ?t1.0 = t1 and ?t2.0 = t2 and uid = uid and
          new = new and actor = actor and ts = ts])
      case (stored u)
      then have "us_UserID u = uid" using stored_id[OF inv] by blast
      then show ?thesis
        using OpUpdateRole stored inv update_state[OF inv, of "u\<lparr>us_Role := new, us_UpdatedAt := t1\<rparr>" u None t2]
        by (simp add: keeps_users_same same_account_def)
    qed (simp add: OpUpdateRole inv)
  qed
qed

lemma store_step:
  "tokens_of s (rt_Token t) = None \<Longrightarrow> U (rt_UserID t) \<noteq> None \<Longrightarrow> token_step U (tokens_of s) (tokens_of (fst (tr_Store tops p t s)))"
  by (cases p) (simp_all add: store_cases token_step_new)

lemma revoke_step: "token_step U (tokens_of s) (tokens_of (fst (tr_Revoke tops p tok s)))"
  by (cases p) (auto simp: revoke_cases intro!: token_step_map)

lemma revoke_all_step: "tinv s \<Longrightarrow> token_step U (tokens_of s) (tokens_of (fst (tr_RevokeAllByUser tops p uid s)))"
proof (cases p)
  case None
  assume "tinv s"
  then have T: "tokens_of (fst (tr_RevokeAllByUser tops p uid s)) =
    (\<lambda>t. map_option (\<lambda>rt. if rt_UserID rt = uid then revoked rt else rt) (tokens_of s t))"
    using revoke_all_tokens None by simp
  show ?thesis
  proof (rule token_step_map)
    fix t show "tokens_of (fst (tr_RevokeAllByUser tops p uid s)) t = tokens_of s t \<or>
      tokens_of (fst (tr_RevokeAllByUser tops p uid s)) t = map_option revoked (tokens_of s t)"
      by (cases "tokens_of s t") (simp_all add: T)
  qed
qed (simp add: revoke_all_done)

lemma create_accounted:
  assumes inv: "uinv us" and valid: "ValidateEmail (rr_Email req)"
  shows "accounted (OpRegister E req) (users_of us) (users_of (fst (ur_Create uops p now (new_user E req h) us)))"
proof (cases "snd (ur_Create uops p now (new_user E req h) us)")
  case (Inl e)
  then show ?thesis using inv by (simp add: create_failed)
next
  case (Inr v)
  show ?thesis using create_result[OF inv Inr] valid by (auto simp: accounted_def split: option.split)
qed

lemma exec_accounted:
  assumes A: "serves A" and inv: "uinv us"
  shows "accounted op (users_of us) (users_of (fst (auth_exec L A op (us, ts))))"
proof -
  have ops: "as_userRepo A = uops" using A by (simp add: serves_def)
  show ?thesis
  proof (cases op)
    case (OpRegister E req)
    show ?thesis
    proof (cases rule: register_cases[of L A E req us ts])
      case (failed h us' r e)
      then have "us' = fst (ur_Create uops (e_cx E 1) (e_now E) (new_user E req h) us)" using ops by simp
      then show ?thesis using OpRegister failed create_accounted[OF inv] by simp
    next
      case (finished h us' u tp)
      then have "us' = fst (ur_Create uops (e_cx E 1) (e_now E) (new_user E req h) us)" using ops by simp
      then show ?thesis using OpRegister finished create_accounted[OF inv] by simp
    qed (simp add: OpRegister)
  next
    case (OpLogin E em pw)
    then show ?thesis by (cases rule: login_cases[of L A E em pw us ts]) simp_all
  next
    case (OpRefresh E tok)
    then show ?thesis by (cases rule: refresh_cases[of L A E tok us ts]) (simp_all add: Let_def)
  next
    case (OpLogout p tok)
    then show ?thesis by (simp add: auth_Logout_def split: prod.split sum.split)
  next
    case (OpLogoutAll p uid)
    then show ?thesis by (simp add: auth_LogoutAll_def split: prod.split sum.split)
  next
    case (OpUpdateRole cx t1 t2 uid new actor)
    from A inv show ?thesis
    proof (cases rule: update_role_cases[where L = L and cx = cx and ?t1.0 = t1 and ?t2.0 = t2 and uid = uid and
          new = new and actor = actor and ts = ts])
      case (stored u)
      then have "us_UserID u = uid" using stored_id[OF inv] by blast
      then show ?thesis
        using OpUpdateRole stored update_state[OF inv, of "u\<lparr>us_Role := new, us_UpdatedAt := t1\<rparr>" u None t2]
        by (simp add: accounted_def same_account_def split: option.split)
    qed (simp add: OpUpdateRole)
  qed
qed

lemma exec_tokens:
  assumes A: "serves A" and inv: "uinv us" "tinv ts" and fresh: "op_fresh (tokens_of ts) op"
  shows "tinv (snd (auth_exec L A op (us, ts))) \<and>
    token_step (users_of (fst (auth_exec L A op (us, ts)))) (tokens_of ts) (tokens_of (snd (auth_exec L A op (us, ts))))"
proof -
  have ops: "as_userRepo A = uops" "as_tokenRepo A = tops" using A by (simp_all add: serves_def)
  show ?thesis
  proof (cases op)
    case (OpRegister E req)
    show ?thesis
    proof (cases rule: register_cases[of L A E req us ts])
      case (finished h us' u tp)
      note tok = GenerateTokens_refresh_simps[OF finished(5)]
      have cr: "snd (ur_Create uops (e_cx E 1) (e_now E) (new_user E req h) us) = Inr u"
        and us': "us' = fst (ur_Create uops (e_cx E 1) (e_now E) (new_user E req h) us)"
        using finished(1) ops by simp_all
      have "users_of us' (us_UserID u) \<noteq> None"
        using create_result(2,3)[OF inv(1) cr] us' by simp
      then show ?thesis using OpRegister finished ops fresh inv tok by (simp add: store_inv store_step)
    qed (simp_all add: OpRegister inv)
  next
    case (OpLogin E em pw)
    show ?thesis
    proof (cases rule: login_cases[of L A E em pw us ts])
      case (stored u tp)
      note tok = GenerateTokens_refresh_simps[OF stored(4)]
      have "ur_GetByEmail uops None em us = Inr u"
        using stored(1) ops by_email_done by (cases "e_cx E 0") auto
      then have "users_of us (us_UserID u) = Some u" using by_email_found[OF inv(1)] by simp
      then show ?thesis using OpLogin stored ops fresh inv tok by (simp add: store_inv store_step)
    qed (simp_all add: OpLogin inv)
  next
    case (OpRefresh E old)
    show ?thesis
    proof (cases rule: refresh_cases[of L A E old us ts])
      case (unsigned e)
      then show ?thesis using OpRefresh ops inv by (simp add: revoke_inv revoke_step)
    next
      case (stored rt u tp)
      let ?ts1 = "fst (tr_Revoke tops (e_cx E 2) old ts)"
      note tok = GenerateTokens_refresh_simps[OF stored(4)]
      have u: "users_of us (rt_UserID rt) = Some u"
        using stored(2) ops by_id[OF inv(1)] by (auto split: option.splits)
      then have "users_of us (us_UserID u) \<noteq> None" using stored_id[OF inv(1) u] by simp
      moreover have "tokens_of ?ts1 (fi_token (e_ids E)) = None"
        using fresh OpRefresh by (auto simp: revoke_cases split: option.split)
      ultimately have "token_step (users_of us) (tokens_of ?ts1) (tokens_of (fst (tr_Store tops (e_cx E 3) (tp_RefreshToken tp) ?ts1)))"
        and fr: "tokens_of ?ts1 (rt_Token (tp_RefreshToken tp)) = None"
        using tok by (simp_all add: store_step)
      then show ?thesis
        using OpRefresh stored(5) ops token_step_trans[OF revoke_step] store_inv[OF revoke_inv[OF inv(2)] fr]
        by (simp add: Let_def)
    qed (simp_all add: OpRefresh inv)
  next
    case (OpLogout p tok)
    have "snd (auth_exec L A op (us, ts)) = fst (tr_Revoke tops p tok ts)"
      by (simp add: OpLogout auth_Logout_def ops split: prod.split sum.split)
    then show ?thesis using inv by (simp add: revoke_inv revoke_step)
  next
    case (OpLogoutAll p uid)
    have "snd (auth_exec L A op (us, ts)) = fst (tr_RevokeAllByUser tops p uid ts)"
      by (simp add: OpLogoutAll auth_LogoutAll_def ops split: prod.split sum.split)
    then show ?thesis using inv by (simp add: revoke_all_inv revoke_all_step)
  next
    case (OpUpdateRole cx t1 t2 uid new actor)
    from A inv(1) show ?thesis
    proof (cases rule: update_role_cases[where L = L and cx = cx and ?t1.0 = t1 and ?t2.0 = t2 and uid = uid and
          new = new and actor = actor and ts = ts])
    qed (simp_all add: OpUpdateRole inv)
  qed
qed

end

interpretation memory_auth: auth_ports memory_users stored_users user_store_ok memory_tokens stored_tokens token_store_ok
  by (rule auth_ports.intro[OF memory_user_repo.user_repository_axioms memory_token_repo.token_repository_axioms])

lemma memory_serves [simp]: "memory_auth.serves (memory_service s)"
  by (simp add: memory_auth.serves_def)

end
