(* ===== verification/Auth_Props.thy ===== *)
theory Auth_Props
  imports Auth_Runs
begin

text \<open>
  The properties of the user service over its in-memory repositories: what holds in every state
  that calls can reach, what a log-in answers, that refresh tokens are used once, that revocation
  is permanent, and who changes roles. A step is one call whose new refresh token, if it takes one,
  is not yet in the store.
\<close>

inductive auth_step :: "'ts auth_lib \<Rightarrow> signer \<Rightarrow> user_store \<times> token_store \<Rightarrow> user_store \<times> token_store \<Rightarrow> bool"
  for L s where
  call: "op_fresh (stored_tokens ts) op \<Longrightarrow>
    auth_step L s (us, ts) (auth_exec L (memory_service s) op (us, ts))"

abbreviation auth_steps :: "'ts auth_lib \<Rightarrow> signer \<Rightarrow> user_store \<times> token_store \<Rightarrow> user_store \<times> token_store \<Rightarrow> bool" where
  "auth_steps L s \<equiv> (auth_step L s)\<^sup>*\<^sup>*"

definition NewStores :: "user_store \<times> token_store" where
  "NewStores = (NewUserRepository, NewTokenRepository)"

inductive_cases auth_stepE: "auth_step L s st st'"

definition stores_ok :: "user_store \<times> token_store \<Rightarrow> bool" where
  "stores_ok st \<longleftrightarrow> user_store_ok (fst st) \<and> token_store_ok (snd st) \<and>
     (\<forall>t rt. stored_tokens (snd st) t = Some rt \<longrightarrow> stored_users (fst st) (rt_UserID rt) \<noteq> None) \<and>
     (\<forall>i u. stored_users (fst st) i = Some u \<longrightarrow> ValidateEmail (us_Email u))"

lemma stores_ok_parts:
  "stores_ok st \<Longrightarrow> user_store_ok (fst st)" "stores_ok st \<Longrightarrow> token_store_ok (snd st)"
  by (simp_all add: stores_ok_def)

lemma NewStores_ok [inv_intro]: "stores_ok NewStores"
  by (simp add: stores_ok_def NewStores_def NewUserRepository_ok NewTokenRepository_ok)
     (simp add: NewUserRepository_def NewTokenRepository_def)

lemma auth_exec_step:
  fixes L :: "'ts auth_lib" and s :: signer
  assumes "op_fresh (stored_tokens ts) op" and "stores_ok (us, ts)"
  defines "st' \<equiv> auth_exec L (memory_service s) op (us, ts)"
  shows "stores_ok st'" and "keeps_users (stored_users us) (stored_users (fst st'))"
    and "keeps_tokens (stored_tokens ts) (stored_tokens (snd st'))"
proof -
  have ok: "user_store_ok us" "token_store_ok ts" using assms(2) by (auto simp: stores_ok_def)
  note users = memory_auth.exec_users[OF memory_serves ok(1), of L s op ts, folded st'_def]
  note acc = memory_auth.exec_accounted[OF memory_serves ok(1), of op L s ts, folded st'_def]
  note toks = memory_auth.exec_tokens[OF memory_serves ok assms(1), of L s, folded st'_def]
  show "keeps_users (stored_users us) (stored_users (fst st'))" using users by simp
  show "keeps_tokens (stored_tokens ts) (stored_tokens (snd st'))" using toks by (simp add: token_step_def)
  have owner: "stored_users (fst st') (rt_UserID rt) \<noteq> None" if rt: "stored_tokens (snd st') t = Some rt" for t rt
  proof -
    have "(\<exists>r. stored_tokens ts t = Some r \<and> rt_UserID r = rt_UserID rt) \<or> ?thesis"
      using toks rt unfolding token_step_def by blast
    moreover have "?thesis" if r: "stored_tokens ts t = Some r" "rt_UserID r = rt_UserID rt" for r
    proof -
      obtain u where "stored_users us (rt_UserID rt) = Some u" using assms(2) r by (fastforce simp: stores_ok_def)
      then show ?thesis using users unfolding keeps_users_def by auto
    qed
    ultimately show ?thesis by blast
  qed
  have email: "ValidateEmail (us_Email v)" if v: "stored_users (fst st') i = Some v" for i v
  proof (cases "stored_users us i")
    case None
    then show ?thesis using accounted_new[OF acc v] by blast
  next
    case (Some u)
    then have "us_Email v = us_Email u" using accounted_old[OF acc v] by (simp add: same_account_def)
    then show ?thesis using assms(2) Some by (simp add: stores_ok_def)
  qed
  show "stores_ok st'" unfolding stores_ok_def using users toks owner email by blast
qed

lemma auth_step_keeps:
  assumes "auth_step L s st st'" and "stores_ok st"
  shows "stores_ok st' \<and> keeps_users (stored_users (fst st)) (stored_users (fst st')) \<and>
    keeps_tokens (stored_tokens (snd st)) (stored_tokens (snd st'))"
proof -
  obtain ts op us where "op_fresh (stored_tokens ts) op" "st = (us, ts)"
    "st' = auth_exec L (memory_service s) op (us, ts)" using assms(1) by (rule auth_stepE)
  then show ?thesis using auth_exec_step[of ts op us L s] assms(2) by simp
qed

lemma auth_steps_keep:
  assumes "auth_steps L s st st'" and "stores_ok st"
  shows "stores_ok st' \<and> keeps_users (stored_users (fst st)) (stored_users (fst st')) \<and>
    keeps_tokens (stored_tokens (snd st)) (stored_tokens (snd st'))"
  using assms(1)
proof (induction rule: rtranclp_induct)
  case base
  then show ?case using assms(2) by simp
next
  case (step y z)
  then show ?case using auth_step_keeps[OF step.hyps(2)] keeps_users_trans keeps_tokens_trans by blast
qed

lemma auth_step_exec: "op_fresh (stored_tokens ts) op \<Longrightarrow> auth_exec L (memory_service s) op (us, ts) = st' \<Longrightarrow>
    auth_steps L s (us, ts) st'"
  using auth_step.call by blast

section \<open>A concrete run\<close>

text \<open>Libraries for the witnesses: a hash that is the password, a signer that answers the user.\<close>

definition wit_lib :: "unit auth_lib" where
  "wit_lib = \<lparr>l_bcrypt = (\<lambda>p c. Inr p), l_compare = (\<lambda>h p. h = p), l_sign = (\<lambda>c. Inr (jc_UserID c)),
     l_itoa = (\<lambda>_. ''''), l_newts = (\<lambda>_. ())\<rparr>"

definition wit_signer :: signer where
  "wit_signer = NewSigner 0 0"

definition wit_env :: "string \<Rightarrow> string \<Rightarrow> auth_env" where
  "wit_env uid tok = \<lparr>e_cx = background, e_now = 5, e_userID = uid,
     e_ids = \<lparr>fi_jti = ''j'', fi_tokenID = ''i'', fi_token = tok\<rparr>\<rparr>"

definition wit_req :: register_request where
  "wit_req = \<lparr>rr_Email = ''a@b.c'', rr_Password = ''Passw0rd!'', rr_Username = ''n'',
     rr_IdempotencyKey = ''''\<rparr>"

definition wit_user :: user where
  "wit_user = \<lparr>us_UserID = ''u'', us_Email = ''a@b.c'', us_Username = ''n'', us_Password = ''Passw0rd!'',
     us_Role = USER_ROLE_USER, us_IsActive = True, us_CreatedAt = 5, us_UpdatedAt = 5\<rparr>"

definition wit_token :: "string \<Rightarrow> refresh_token" where
  "wit_token tok = \<lparr>rt_TokenID = ''i'', rt_UserID = ''u'', rt_Token = tok,
     rt_ExpiresAt = 5 + 7 * 24 * 3600 * second, rt_Revoked = False, rt_CreatedAt = 5\<rparr>"

definition wit_st1 :: "user_store \<times> token_store" where
  "wit_st1 = auth_exec wit_lib (memory_service wit_signer) (OpRegister (wit_env ''u'' ''r1'') wit_req) NewStores"


lemma wit_Register:
  "auth_Register wit_lib (memory_service wit_signer) (wit_env ''u'' ''r1'') wit_req NewStores =
   (wit_st1, Inr \<lparr>ar_User = user_ToProto (\<lambda>_. ()) wit_user, ar_AccessToken = ''u''\<rparr>)"
  and wit_st1: "stored_users (fst wit_st1) = [''u'' \<mapsto> wit_user]"
    "stored_tokens (snd wit_st1) = [''r1'' \<mapsto> wit_token ''r1'']"
proof -
  have valid: "ValidateEmail ''a@b.c''" "ValidatePassword ''Passw0rd!''" by code_simp+
  show r: "auth_Register wit_lib (memory_service wit_signer) (wit_env ''u'' ''r1'') wit_req NewStores =
   (wit_st1, Inr \<lparr>ar_User = user_ToProto (\<lambda>_. ()) wit_user, ar_AccessToken = ''u''\<rparr>)"
    by (simp add: auth_Register_def wit_st1_def NewStores_def wit_lib_def wit_env_def wit_req_def valid wit_user_def
        user_GetByEmail_def NewUserRepository_def HashPassword_def user_Create_def new_user_def GenerateTokens_def Let_def)
  show "stored_users (fst wit_st1) = [''u'' \<mapsto> wit_user]"
    "stored_tokens (snd wit_st1) = [''r1'' \<mapsto> wit_token ''r1'']"
    by (simp_all add: auth_Register_def wit_st1_def NewStores_def wit_lib_def wit_env_def wit_req_def valid wit_user_def
        user_GetByEmail_def NewUserRepository_def HashPassword_def user_Create_def new_user_def GenerateTokens_def Let_def
        token_Store_def NewTokenRepository_def listed_def wit_signer_def NewSigner_def DefaultRefreshTTL_def
        wit_token_def fun_eq_iff)
qed

lemma wit_steps: "auth_steps wit_lib wit_signer NewStores wit_st1"
  unfolding wit_st1_def NewStores_def
  by (rule auth_step_exec[where op = "OpRegister (wit_env ''u'' ''r1'') wit_req"])
     (simp_all add: NewTokenRepository_def wit_env_def)

lemma wit_ok: "stores_ok wit_st1"
  using auth_steps_keep[OF wit_steps] NewStores_ok by blast

section \<open>Properties\<close>

text \<open>What \<open>stores_ok\<close> says, spelled out.\<close>

lemma stores_ok_facts:
  assumes ok: "stores_ok (us, ts)"
  shows "user_store_ok us \<and> token_store_ok ts \<and>
    (\<forall>i j u v. stored_users us i = Some u \<longrightarrow> stored_users us j = Some v \<longrightarrow> us_Email u = us_Email v \<longrightarrow> i = j) \<and>
    (\<forall>i u. stored_users us i = Some u \<longrightarrow> us_UserID u = i \<and> ValidateEmail (us_Email u)) \<and>
    (\<forall>t rt. stored_tokens ts t = Some rt \<longrightarrow> rt_Token rt = t \<and> t \<in> set (listed ts (rt_UserID rt)) \<and>
       stored_users us (rt_UserID rt) \<noteq> None)"
proof -
  from ok have u: "user_store_ok us" and t: "token_store_ok ts" by (simp_all add: stores_ok_def)
  have own: "stored_users us (rt_UserID rt) \<noteq> None" if "stored_tokens ts t = Some rt" for t rt
    using ok that unfolding stores_ok_def by auto
  have em: "ValidateEmail (us_Email u)" if "stored_users us i = Some u" for i u
    using ok that unfolding stores_ok_def by auto
  have uniq: "i = j" if "stored_users us i = Some u" "stored_users us j = Some v" "us_Email u = us_Email v" for i j u v
    using memory_user_repo.unique_email[OF u that] .
  have idx: "us_UserID u = i" if "stored_users us i = Some u" for i u using u that by (simp add: user_store_ok_def)
  have lst: "rt_Token rt = tok" "tok \<in> set (listed ts (rt_UserID rt))" if "stored_tokens ts tok = Some rt" for tok rt
    using t that by (auto simp: token_store_ok_def)
  show ?thesis by (intro conjI allI impI u t) (rule uniq idx em lst own, assumption+)+
qed

lemma Login_memory:
  assumes ok: "user_store_ok us" and live: "e_cx E 0 = None"
    and signs: "GenerateTokens (l_sign L) (l_itoa L) sg (e_now E) (e_ids E) (us_UserID u) (us_Email u) (us_Role u) = Inr tp"
    and u: "stored_users us (us_UserID u) = Some u" "us_Email u = email" "us_IsActive u" "l_compare L (us_Password u) pw"
  shows "snd (auth_Login L (memory_service sg) E email pw (us, ts)) =
    (case snd (token_Store (e_cx E 1) (tp_RefreshToken tp) ts) of
       Inl e \<Rightarrow> Inl (Wrapf ''failed to store refresh token'' e)
     | Inr _ \<Rightarrow> Inr \<lparr>ar_User = user_ToProto (l_newts L) u, ar_AccessToken = tp_AccessToken tp\<rparr>)"
proof -
  have "user_GetByEmail None email us = Inr u" using user_GetByEmail_None[OF ok] u by simp
  then show ?thesis using live signs u
    by (simp add: auth_Login_def CheckPassword_def split: prod.split sum.split)
qed

text \<open>C11: who has registered can log in with the same address and password after any further calls,
  and gets the same account, as long as the hash matches its password, the signer signs and the
  context lives.\<close>

theorem register_then_login:
  assumes "stores_ok st" and "auth_Register L (memory_service sg) E req st = (st1, Inr resp)"
    and "op_fresh (stored_tokens (snd st)) (OpRegister E req)" and "auth_steps L sg st1 st2"
    and "bcrypt_matches (l_bcrypt L) (l_compare L)" and "\<forall>c. \<exists>t. l_sign L c = Inr t"
    and "e_cx F = background"
  shows "\<exists>resp2. snd (auth_Login L (memory_service sg) F (rr_Email req) (rr_Password req) st2) = Inr resp2 \<and>
    u_UserId (ar_User resp2) = u_UserId (ar_User resp) \<and> u_Email (ar_User resp2) = rr_Email req \<and>
    u_Username (ar_User resp2) = u_Username (ar_User resp)"
proof -
  obtain us ts where st: "st = (us, ts)" by fastforce
  have inv: "user_store_ok us" using assms(1) st by (simp add: stores_ok_def)
  obtain h us' u where cr: "user_Create (e_cx E 1) (e_now E) (new_user E req h) us = (us', Inr u)"
    and h: "l_bcrypt L (rr_Password req) 12 = Inr h" and fst1: "fst st1 = us'"
    and resp: "ar_User resp = user_ToProto (l_newts L) u"
    using assms(2) st
    by (cases rule: register_cases[of L "memory_service sg" E req us ts]) (auto simp: HashPassword_def)
  have u: "us_UserID u = e_userID E" "us_Email u = rr_Email req" "us_Password u = h" "us_IsActive u"
    and stored1: "stored_users us' (us_UserID u) = Some u"
    using memory_auth.create_result[OF inv, of "e_cx E 1" "e_now E" "new_user E req h" u] cr by simp_all
  have "stores_ok st1" using auth_exec_step(1)[OF assms(3), of us L sg] assms(1,2) st by simp
  then have keep: "stores_ok st2" "keeps_users (stored_users us') (stored_users (fst st2))"
    using auth_steps_keep[OF assms(4)] fst1 by auto
  obtain v where v: "stored_users (fst st2) (us_UserID u) = Some v" and same: "same_account u v"
    using keep(2) stored1 unfolding keeps_users_def by blast
  obtain tok where "l_sign L \<lparr>jc_UserID = us_UserID v, jc_Email = us_Email v,
    jc_Role = user_role_String (l_itoa L) (us_Role v), jc_Issuer = Issuer, jc_IssuedAt = e_now F,
    jc_ExpiresAt = e_now F + sg_accessTTL sg, jc_NotBefore = e_now F, jc_ID = fi_jti (e_ids F)\<rparr> = Inr tok"
    using assms(6) by blast
  then obtain tp where tp: "GenerateTokens (l_sign L) (l_itoa L) sg (e_now F) (e_ids F)
      (us_UserID v) (us_Email v) (us_Role v) = Inr tp" by (simp add: GenerateTokens_def)
  have pw: "l_compare L (us_Password v) (rr_Password req)"
    using assms(5) h u same unfolding bcrypt_matches_def same_account_def by metis
  have v': "stored_users (fst st2) (us_UserID v) = Some v" "us_Email v = rr_Email req" "us_IsActive v"
    using v same u by (simp_all add: same_account_def)
  have "snd (auth_Login L (memory_service sg) F (rr_Email req) (rr_Password req) st2) =
      Inr \<lparr>ar_User = user_ToProto (l_newts L) v, ar_AccessToken = tp_AccessToken tp\<rparr>"
    using Login_memory[OF stores_ok_parts(1)[OF keep(1)] _ tp v' pw, of "snd st2"] assms(7)
    by (simp add: token_Store_def)
  then show ?thesis using resp same u by (simp add: user_ToProto_def same_account_def)
qed

theorem register_then_login_witness:
  "\<exists>resp. snd (auth_Login wit_lib (memory_service wit_signer) (wit_env ''x'' ''r2'') ''a@b.c'' ''Passw0rd!'' wit_st1) = Inr resp \<and>
     u_UserId (ar_User resp) = ''u''"
proof -
  have "op_fresh (stored_tokens (snd NewStores)) (OpRegister (wit_env ''u'' ''r1'') wit_req)"
    by (simp add: NewStores_def NewTokenRepository_def)
  moreover have "bcrypt_matches (l_bcrypt wit_lib) (l_compare wit_lib)" "\<forall>c. \<exists>t. l_sign wit_lib c = Inr t"
    "e_cx (wit_env ''x'' ''r2'') = background"
    by (simp_all add: bcrypt_matches_def wit_lib_def wit_env_def)
  ultimately show ?thesis
    using register_then_login[OF NewStores_ok wit_Register _ rtranclp.rtrancl_refl]
    by (fastforce simp: wit_req_def user_ToProto_def wit_user_def)
qed

text \<open>The stored user of an address whose hash matches the password.\<close>

definition has_credentials :: "'ts auth_lib \<Rightarrow> user_store \<Rightarrow> string \<Rightarrow> string \<Rightarrow> user \<Rightarrow> bool" where
  "has_credentials L us email pw u \<longleftrightarrow>
     stored_users us (us_UserID u) = Some u \<and> us_Email u = email \<and> l_compare L (us_Password u) pw"

text \<open>C16: with a live context and a signer that signs, a log-in succeeds exactly for the address and
  password of a stored active user, is refused as unauthorized exactly when that user is inactive,
  and answers invalid credentials in every other case, whether or not the address is known.\<close>

theorem login_exact:
  assumes ok: "user_store_ok us" and "\<forall>c. \<exists>t. l_sign L c = Inr t" and "e_cx E = background"
    and r_def: "r = snd (auth_Login L (memory_service sg) E email pw (us, ts))"
  shows "((\<exists>resp. r = Inr resp) \<longleftrightarrow> (\<exists>u. has_credentials L us email pw u \<and> us_IsActive u)) \<and>
    (r = Inl (usvc UErrUnauthorized) \<longleftrightarrow> (\<exists>u. has_credentials L us email pw u \<and> \<not> us_IsActive u)) \<and>
    (r = Inl (usvc UErrInvalidCredentials) \<longleftrightarrow> (\<forall>u. \<not> has_credentials L us email pw u))"
proof -
  let ?m = "has_credentials L us email pw"
  have signed: "\<exists>tp. GenerateTokens (l_sign L) (l_itoa L) sg (e_now E) (e_ids E) i e ro = Inr tp" for i e ro
    using assms(2) unfolding GenerateTokens_def Let_def by (metis (no_types, lifting) sum.case(2))
  have live: "e_cx E i = None" for i using assms(3) by simp
  consider (absent) "user_GetByEmail None email us = Inl user_not_found"
    | (found) u where "user_GetByEmail None email us = Inr u" "us_Email u = email" "stored_users us (us_UserID u) = Some u"
    using memory_user_repo.by_email_cases[OF ok, of email] by (auto simp: user_GetByEmail_None[OF ok])
  then show ?thesis
  proof cases
    case absent
    then have none: "\<not> ?m v" for v
      unfolding has_credentials_def using user_GetByEmail_None[OF ok, of email v] by auto
    moreover have "r = Inl (usvc UErrInvalidCredentials)"
      using absent live by (simp add: r_def auth_Login_def)
    ultimately show ?thesis by simp
  next
    case (found u)
    have only: "v = u" if "?m v" for v
      using that found user_GetByEmail_None[OF ok, of email v] unfolding has_credentials_def by simp
    obtain tp where tp: "GenerateTokens (l_sign L) (l_itoa L) sg (e_now E) (e_ids E)
        (us_UserID u) (us_Email u) (us_Role u) = Inr tp" using signed by blast
    have r: "r = (if \<not> l_compare L (us_Password u) pw then Inl (usvc UErrInvalidCredentials)
        else if \<not> us_IsActive u then Inl (usvc UErrUnauthorized)
        else Inr \<lparr>ar_User = user_ToProto (l_newts L) u, ar_AccessToken = tp_AccessToken tp\<rparr>)"
      using found tp live by (simp add: r_def auth_Login_def CheckPassword_def token_Store_def)
    have m: "?m u \<longleftrightarrow> l_compare L (us_Password u) pw" using found by (simp add: has_credentials_def)
    have one: "(\<exists>v. ?m v \<and> P v) \<longleftrightarrow> ?m u \<and> P u" for P using only by blast
    have none: "(\<forall>v. \<not> ?m v) \<longleftrightarrow> \<not> ?m u" using only by blast
    show ?thesis unfolding one none m r by simp
  qed
qed

theorem login_exact_witness:
  "snd (auth_Login wit_lib (memory_service wit_signer) (wit_env ''x'' ''r2'') ''a@b.c'' ''wrong'' wit_st1) =
     Inl (usvc UErrInvalidCredentials)"
proof -
  have "\<not> has_credentials wit_lib (fst wit_st1) ''a@b.c'' ''wrong'' u" for u
    by (auto simp: has_credentials_def wit_st1 wit_lib_def wit_user_def split: if_splits)
  moreover have "\<forall>c. \<exists>t. l_sign wit_lib c = Inr t" "e_cx (wit_env ''x'' ''r2'') = background"
    by (simp_all add: wit_lib_def wit_env_def)
  ultimately show ?thesis
    using login_exact[OF stores_ok_parts(1)[OF wit_ok] _ _ refl, of wit_lib "wit_env ''x'' ''r2''" wit_signer "''a@b.c''" "''wrong''" "snd wit_st1"]
    by simp
qed

lemma Refresh_revoked:
  assumes "stored_tokens ts tok = Some rt" and "rt_Revoked rt"
  shows "auth_RefreshToken L (memory_service sg) E tok (us, ts) =
    ((us, ts), Inl (case e_cx E 0 of None \<Rightarrow> usvc UErrTokenInvalid | Some c \<Rightarrow> Wrapf ''database error'' (CtxErr c)))"
  using assms by (auto simp: auth_RefreshToken_def token_Get_def split: option.split)

lemma refresh_success:
  assumes "auth_RefreshToken L (memory_service sg) E tok (us, ts) = (st1, Inr access)" and "ctx_sticky (e_cx E)"
    and "op_fresh (stored_tokens ts) (OpRefresh E tok)"
  obtains rt u where "stored_tokens ts tok = Some rt" and "rt_IsValid (e_now E) rt"
    and "stored_users us (rt_UserID rt) = Some u" and "us_IsActive u" and "fst st1 = us"
    and "stored_tokens (snd st1) tok = Some (revoked rt)"
    and "\<exists>new. stored_tokens (snd st1) (fi_token (e_ids E)) = Some new \<and> rt_UserID new = us_UserID u \<and> \<not> rt_Revoked new"
proof (cases rule: refresh_cases[of L "memory_service sg" E tok us ts])
  case (stored rt u tp)
  note gen = GenerateTokens_refresh_simps[OF stored(4)]
  have st1: "st1 = (us, fst (token_Store (e_cx E 3) (tp_RefreshToken tp) (fst (token_Revoke (e_cx E 2) tok ts))))"
    and three: "e_cx E 3 = None"
    using stored(5) assms(1) by (auto simp: Let_def token_Store_def split: sum.splits option.splits)
  have live: "e_cx E 2 = None" using ctx_sticky_None[OF assms(2) three] by simp
  have rt: "stored_tokens ts tok = Some rt" "rt_IsValid (e_now E) rt"
    using stored(1) by (auto simp: token_Get_def rt_IsValid_def split: option.splits if_splits)
  have u: "stored_users us (rt_UserID rt) = Some u"
    using stored(2) by (auto simp: user_GetByID_def split: option.splits)
  have "fi_token (e_ids E) \<noteq> tok" using assms(3) rt by auto
  then have "stored_tokens (snd st1) tok = Some (revoked rt)"
    and "stored_tokens (snd st1) (fi_token (e_ids E)) = Some (tp_RefreshToken tp)"
    using st1 live three rt gen by (simp_all add: token_Store_def token_Revoke_def gm_get_revoke_one)
  then show ?thesis using that[of rt u] rt u stored(3) st1 gen by simp
qed (use assms(1) in simp_all)

text \<open>A refresh token is good for one use. A successful refresh has found it stored, neither
  revoked nor expired, and its user active; it stores a new token of that user, and after any
  further calls the old token is refused and the refusal changes nothing.\<close>

lemma refresh_single_use:
  assumes "auth_RefreshToken L (memory_service sg) E tok (us, ts) = (st1, Inr access)"
    and "stores_ok (us, ts)" and "ctx_sticky (e_cx E)" and "op_fresh (stored_tokens ts) (OpRefresh E tok)"
    and "auth_steps L sg st1 st2"
  shows "(\<exists>rt u. stored_tokens ts tok = Some rt \<and> rt_IsValid (e_now E) rt \<and>
      stored_users us (rt_UserID rt) = Some u \<and> us_IsActive u \<and>
      (\<exists>new. stored_tokens (snd st1) (fi_token (e_ids E)) = Some new \<and> rt_UserID new = us_UserID u \<and> \<not> rt_Revoked new)) \<and>
    (\<forall>F. e_cx F 0 = None \<longrightarrow>
      auth_RefreshToken L (memory_service sg) F tok st2 = (st2, Inl (usvc UErrTokenInvalid)))"
proof -
  obtain rt u where one: "stored_tokens ts tok = Some rt" "rt_IsValid (e_now E) rt"
    "stored_users us (rt_UserID rt) = Some u" "us_IsActive u"
    "\<exists>new. stored_tokens (snd st1) (fi_token (e_ids E)) = Some new \<and> rt_UserID new = us_UserID u \<and> \<not> rt_Revoked new"
    and rev: "stored_tokens (snd st1) tok = Some (revoked rt)"
    using refresh_success[OF assms(1,3,4)] by metis
  have "stores_ok st1" using auth_exec_step(1)[OF assms(4,2), of L sg] assms(1) by simp
  then have "keeps_tokens (stored_tokens (snd st1)) (stored_tokens (snd st2))" using auth_steps_keep[OF assms(5)] by blast
  then obtain r where "stored_tokens (snd st2) tok = Some r" "rt_Revoked r"
    using keeps_tokens_revoked[of "stored_tokens (snd st1)" _ tok "revoked rt"] rev by auto
  then have "e_cx F 0 = None \<Longrightarrow> auth_RefreshToken L (memory_service sg) F tok st2 = (st2, Inl (usvc UErrTokenInvalid))" for F
    using Refresh_revoked[of "snd st2" tok r L sg F "fst st2"] by simp
  then show ?thesis using one by blast
qed

lemma wit_Refresh:
  "auth_RefreshToken wit_lib (memory_service wit_signer) (wit_env ''x'' ''r2'') ''r1'' (fst wit_st1, snd wit_st1) =
     (auth_exec wit_lib (memory_service wit_signer) (OpRefresh (wit_env ''x'' ''r2'') ''r1'') wit_st1, Inr ''u'')"
proof -
  obtain us ts where st: "wit_st1 = (us, ts)" by fastforce
  have m: "stored_users us = [''u'' \<mapsto> wit_user]" "stored_tokens ts = [''r1'' \<mapsto> wit_token ''r1'']"
    using wit_st1 unfolding st by simp_all
  have g: "token_Get None 5 ''r1'' ts = Inr (wit_token ''r1'')"
    by (simp add: token_Get_def m) (simp add: IsExpired_def wit_token_def second_def)
  have u: "user_GetByID None (rt_UserID (wit_token ''r1'')) us = Inr wit_user"
    by (simp add: user_GetByID_def m wit_token_def)
  have "us_IsActive wit_user" "us_UserID wit_user = ''u''" by (simp_all add: wit_user_def)
  then have "snd (auth_RefreshToken wit_lib (memory_service wit_signer) (wit_env ''x'' ''r2'') ''r1'' (us, ts)) = Inr ''u''"
    by (simp add: auth_RefreshToken_def wit_env_def g u wit_lib_def GenerateTokens_def Let_def token_Store_def)
  then show ?thesis by (simp add: prod_eq_iff st)
qed

text \<open>C12: after a log-out or a log-out of all sessions with a live context, the tokens it names, and
  of the latter every token of the user and of nobody else, are refused for ever.\<close>

theorem logout_permanent:
  assumes "stores_ok (us, ts)" and "auth_steps L sg st1 st2" and "stored_tokens ts tok = Some rt"
    and "st1 = fst (auth_Logout (memory_service sg) None tok (us, ts)) \<or>
      st1 = fst (auth_LogoutAll (memory_service sg) None (rt_UserID rt) (us, ts))"
  shows "snd (auth_RefreshToken L (memory_service sg) F tok st2) =
      Inl (case e_cx F 0 of None \<Rightarrow> usvc UErrTokenInvalid | Some c \<Rightarrow> Wrapf ''database error'' (CtxErr c)) \<and>
    (\<forall>t r. stored_tokens ts t = Some r \<longrightarrow> t \<noteq> tok \<longrightarrow> rt_UserID r \<noteq> rt_UserID rt \<longrightarrow>
      stored_tokens (snd st1) t = Some r)"
proof -
  have toks: "token_store_ok ts" using assms(1) by (simp add: stores_ok_def)
  have out: "stored_tokens (snd st1) tok = Some (revoked rt) \<and> stores_ok st1 \<and>
    (\<forall>t r. stored_tokens ts t = Some r \<longrightarrow> t \<noteq> tok \<longrightarrow> rt_UserID r \<noteq> rt_UserID rt \<longrightarrow>
      stored_tokens (snd st1) t = Some r)"
    using assms(4)
  proof
    assume st: "st1 = fst (auth_Logout (memory_service sg) None tok (us, ts))"
    then have "snd st1 = fst (token_Revoke None tok ts)" by (simp add: auth_Logout_def split: prod.split sum.split)
    then show ?thesis
      using auth_exec_step(1)[of ts "OpLogout None tok" us L sg] assms(1,3) st
      by (simp add: token_Revoke_def gm_get_revoke_one)
  next
    assume st: "st1 = fst (auth_LogoutAll (memory_service sg) None (rt_UserID rt) (us, ts))"
    then have "snd st1 = fst (token_RevokeAllByUser None (rt_UserID rt) ts)"
      by (simp add: auth_LogoutAll_def split: prod.split sum.split)
    then show ?thesis
      using auth_exec_step(1)[of ts "OpLogoutAll None (rt_UserID rt)" us L sg] assms(1,3) st token_RevokeAll_tokens[OF toks]
      by simp
  qed
  then have "keeps_tokens (stored_tokens (snd st1)) (stored_tokens (snd st2))" using auth_steps_keep[OF assms(2)] by blast
  then have "\<exists>r. stored_tokens (snd st2) tok = Some r \<and> rt_Revoked r"
    by (rule keeps_tokens_revoked[where t = tok and rt = "revoked rt"]) (simp_all add: out)
  then obtain r where "stored_tokens (snd st2) tok = Some r" "rt_Revoked r" by blast
  then have "auth_RefreshToken L (memory_service sg) F tok st2 = (st2, Inl (case e_cx F 0 of None \<Rightarrow> usvc UErrTokenInvalid
      | Some c \<Rightarrow> Wrapf ''database error'' (CtxErr c)))"
    using Refresh_revoked[of "snd st2" tok r L sg F "fst st2"] by simp
  then show ?thesis using out by simp
qed

theorem logout_permanent_witness:
  "snd (auth_RefreshToken wit_lib (memory_service wit_signer) (wit_env ''x'' ''r3'') ''r1''
     (fst (auth_LogoutAll (memory_service wit_signer) None ''u'' (fst wit_st1, snd wit_st1)))) = Inl (usvc UErrTokenInvalid)"
proof -
  have "stores_ok (fst wit_st1, snd wit_st1)" "stored_tokens (snd wit_st1) ''r1'' = Some (wit_token ''r1'')"
    "rt_UserID (wit_token ''r1'') = ''u''" "e_cx (wit_env ''x'' ''r3'') 0 = None"
    using wit_ok by (simp_all add: wit_st1 wit_token_def wit_env_def)
  then show ?thesis
    using logout_permanent[OF _ rtranclp.rtrancl_refl, of "fst wit_st1" "snd wit_st1" "''r1''" "wit_token ''r1''"
        "fst (auth_LogoutAll (memory_service wit_signer) None ''u'' (fst wit_st1, snd wit_st1))"
        wit_signer wit_lib "wit_env ''x'' ''r3''"]
    by simp
qed

text \<open>No call deletes a user or changes an identifier, address, name, password hash or activity;
  a new user comes from a registration, with the USER role; and a role changes only by an
  \<open>UpdateRole\<close> for that user, to that role, whose actor is an admin.\<close>

lemma role_change_needs_admin:
  assumes "user_store_ok us" and "auth_exec L (memory_service sg) op (us, ts) = (us', ts')"
  shows "(\<forall>i u. stored_users us i = Some u \<longrightarrow> (\<exists>v. stored_users us' i = Some v \<and> same_account u v)) \<and>
    (\<forall>i u v. stored_users us i = Some u \<longrightarrow> stored_users us' i = Some v \<longrightarrow> us_Role v \<noteq> us_Role u \<longrightarrow>
      (\<exists>cx t1 t2. op = OpUpdateRole cx t1 t2 i (us_Role v) USER_ROLE_ADMIN)) \<and>
    (\<forall>i v. stored_users us i = None \<longrightarrow> stored_users us' i = Some v \<longrightarrow>
      us_Role v = USER_ROLE_USER \<and> (\<exists>E req. op = OpRegister E req))"
proof -
  have acc: "accounted op (stored_users us) (stored_users us')"
    using memory_auth.exec_accounted[OF memory_serves assms(1), of op L sg ts] assms(2) by simp
  have "keeps_users (stored_users us) (stored_users us')"
    using memory_auth.exec_users[OF memory_serves assms(1), of L sg op ts] assms(2) by simp
  then show ?thesis
    using accounted_old[OF acc] accounted_new[OF acc] unfolding keeps_users_def by blast
qed

lemma role_change_needs_admin_witness:
  "\<exists>v. stored_users (fst (auth_exec wit_lib (memory_service wit_signer)
        (OpUpdateRole background 6 7 ''u'' USER_ROLE_ADMIN USER_ROLE_PREMIUM) (fst wit_st1, snd wit_st1))) ''u'' = Some v \<and>
     us_Role v = USER_ROLE_USER"
proof -
  let ?op = "OpUpdateRole background 6 7 ''u'' USER_ROLE_ADMIN USER_ROLE_PREMIUM"
  obtain us' ts' where run: "auth_exec wit_lib (memory_service wit_signer) ?op (fst wit_st1, snd wit_st1) = (us', ts')"
    by (metis prod.collapse)
  note all = role_change_needs_admin[OF stores_ok_parts(1)[OF wit_ok] run]
  have u: "us_Role wit_user = USER_ROLE_USER" "stored_users (fst wit_st1) ''u'' = Some wit_user"
    by (simp_all add: wit_user_def wit_st1)
  then obtain v where v: "stored_users us' ''u'' = Some v" using all by blast
  have "us_Role v = USER_ROLE_USER"
  proof (rule ccontr)
    assume "us_Role v \<noteq> USER_ROLE_USER"
    then have "us_Role v \<noteq> us_Role wit_user" using u by simp
    then show False using all u(2) v by (metis auth_op.inject(6) user_role.distinct(16))
  qed
  then show ?thesis using v run by simp
qed

end
