(* ===== verification/Go_Strings.thy ===== *)
theory Go_Strings
  imports Main "HOL-Library.Sublist"
begin

text \<open>
  What the program uses of the package \<open>strings\<close>. A string is its bytes. Case mapping and white
  space are those of Unicode on UTF-8: the two runes whose upper case is ASCII, the two that fold
  to ASCII, and the white space runes are written out as byte sequences. Other runes outside ASCII
  stay as they are, so the results are exact where they are compared with ASCII strings, which is
  all the program does with them.
\<close>

definition has_prefix :: "string \<Rightarrow> string \<Rightarrow> bool" where
  "has_prefix s p = prefix p s"

definition has_suffix :: "string \<Rightarrow> string \<Rightarrow> bool" where
  "has_suffix s p = suffix p s"

definition trim_prefix :: "string \<Rightarrow> string \<Rightarrow> string" where
  "trim_prefix s p = (if has_prefix s p then drop (length p) s else s)"

text \<open>\<open>strings.Split\<close> with a separator of one byte.\<close>

fun split_byte :: "char \<Rightarrow> string \<Rightarrow> string list" where
  "split_byte b [] = [[]]"
| "split_byte b (c # cs) =
     (if c = b then [] # split_byte b cs
      else case split_byte b cs of [] \<Rightarrow> [[c]] | p # ps \<Rightarrow> (c # p) # ps)"

text \<open>\<open>strings.Join\<close>.\<close>

fun join :: "string \<Rightarrow> string list \<Rightarrow> string" where
  "join sep [] = []"
| "join sep [s] = s"
| "join sep (s # t # ss) = s @ sep @ join sep (t # ss)"

definition space_runes :: "string list" where
  "space_runes =
    [[CHR 0x09], [CHR 0x0A], [CHR 0x0B], [CHR 0x0C], [CHR 0x0D], [CHR 0x20], [CHR 0xC2, CHR 0x85],
     [CHR 0xC2, CHR 0xA0], [CHR 0xE1, CHR 0x9A, CHR 0x80], [CHR 0xE2, CHR 0x80, CHR 0xA8], [CHR
     0xE2, CHR 0x80, CHR 0xA9], [CHR 0xE2, CHR 0x80, CHR 0xAF], [CHR 0xE2, CHR 0x81, CHR 0x9F], [CHR
     0xE3, CHR 0x80, CHR 0x80], [CHR 0xE2, CHR 0x80, CHR 0x80], [CHR 0xE2, CHR 0x80, CHR 0x81], [CHR
     0xE2, CHR 0x80, CHR 0x82], [CHR 0xE2, CHR 0x80, CHR 0x83], [CHR 0xE2, CHR 0x80, CHR 0x84], [CHR
     0xE2, CHR 0x80, CHR 0x85], [CHR 0xE2, CHR 0x80, CHR 0x86], [CHR 0xE2, CHR 0x80, CHR 0x87], [CHR
     0xE2, CHR 0x80, CHR 0x88], [CHR 0xE2, CHR 0x80, CHR 0x89], [CHR 0xE2, CHR 0x80, CHR 0x8A]]"

function trim_front :: "string list \<Rightarrow> string \<Rightarrow> string" where
  "trim_front ps s =
     (case find (\<lambda>p. p \<noteq> [] \<and> prefix p s) ps of None \<Rightarrow> s | Some p \<Rightarrow> trim_front ps (drop (length p) s))"
  by pat_completeness auto

termination trim_front
proof (relation "measure (length \<circ> snd)", goal_cases)
  case 1
  then show ?case by simp
next
  case (2 ps s p)
  then have "p \<noteq> []" "prefix p s" by (auto simp: find_Some_iff)
  then show ?case by (auto simp: prefix_def)
qed

declare trim_front.simps [simp del]

definition TrimSpace :: "string \<Rightarrow> string" where
  "TrimSpace s = rev (trim_front (map rev space_runes) (rev (trim_front space_runes s)))"

definition upper_ascii :: "char \<Rightarrow> char" where
  "upper_ascii c = (let n = of_char c :: nat in if 97 \<le> n \<and> n \<le> 122 then char_of (n - 32) else c)"

definition lower_ascii :: "char \<Rightarrow> char" where
  "lower_ascii c = (let n = of_char c :: nat in if 65 \<le> n \<and> n \<le> 90 then char_of (n + 32) else c)"

text \<open>U+0131 and U+017F are the runes outside ASCII with an upper case in it.\<close>

fun ToUpper :: "string \<Rightarrow> string" where
  "ToUpper [] = []"
| "ToUpper [c] = [upper_ascii c]"
| "ToUpper (c # d # cs) =
     (if c = CHR 0xC4 \<and> d = CHR 0xB1 then CHR ''I'' # ToUpper cs
      else if c = CHR 0xC5 \<and> d = CHR 0xBF then CHR ''S'' # ToUpper cs
      else upper_ascii c # ToUpper (d # cs))"

text \<open>U+0130 and U+212A are the runes outside ASCII whose lower case starts in it.\<close>

fun ToLower :: "string \<Rightarrow> string" where
  "ToLower [] = []"
| "ToLower [c] = [lower_ascii c]"
| "ToLower [c, d] = (if c = CHR 0xC4 \<and> d = CHR 0xB0 then ''i'' else [lower_ascii c, lower_ascii d])"
| "ToLower (c # d # e # cs) =
     (if c = CHR 0xC4 \<and> d = CHR 0xB0 then CHR ''i'' # ToLower (e # cs)
      else if c = CHR 0xE2 \<and> d = CHR 0x84 \<and> e = CHR 0xAA then CHR ''k'' # ToLower cs
      else lower_ascii c # ToLower (d # e # cs))"

text \<open>Simple folding: U+017F folds to s and U+212A to k.\<close>

fun fold_case :: "string \<Rightarrow> string" where
  "fold_case [] = []"
| "fold_case [c] = [lower_ascii c]"
| "fold_case [c, d] = (if c = CHR 0xC5 \<and> d = CHR 0xBF then ''s'' else [lower_ascii c, lower_ascii d])"
| "fold_case (c # d # e # cs) =
     (if c = CHR 0xC5 \<and> d = CHR 0xBF then CHR ''s'' # fold_case (e # cs)
      else if c = CHR 0xE2 \<and> d = CHR 0x84 \<and> e = CHR 0xAA then CHR ''k'' # fold_case cs
      else lower_ascii c # fold_case (d # e # cs))"

definition EqualFold :: "string \<Rightarrow> string \<Rightarrow> bool" where
  "EqualFold s t \<longleftrightarrow> fold_case s = fold_case t"

text \<open>\<open>strings.Contains\<close>.\<close>

definition str_contains :: "string \<Rightarrow> string \<Rightarrow> bool" where
  "str_contains s p = sublist p s"

lemma split_byte_nonempty [simp]: "split_byte b s \<noteq> []"
  by (induction s) (auto split: list.split)

lemma join_split_byte: "join [b] (split_byte b s) = s"
proof (induction s)
  case Nil
  then show ?case by simp
next
  case (Cons c cs)
  then show ?case by (cases "split_byte b cs"; cases "tl (split_byte b cs)") auto
qed

lemma split_byte_free: "b \<notin> set s \<Longrightarrow> split_byte b s = [s]"
  by (induction s) auto

lemma split_byte_append: "b \<notin> set s \<Longrightarrow> split_byte b (s @ b # t) = s # split_byte b t"
  by (induction s) auto

lemma trim_prefix_append [simp]: "trim_prefix (p @ s) p = s"
  by (simp add: trim_prefix_def has_prefix_def)

lemma has_prefix_append [simp]: "has_prefix (p @ s) p"
  by (simp add: has_prefix_def)

lemma trim_front_id: "(\<And>p. p \<in> set ps \<Longrightarrow> p \<noteq> [] \<Longrightarrow> \<not> prefix p s) \<Longrightarrow> trim_front ps s = s"
  by (subst trim_front.simps) (auto split: option.split simp: find_Some_iff)

text \<open>Trimming does nothing to a string whose ends are not white space, in particular to one
  whose first and last byte are printable ASCII.\<close>

definition graphic :: "char \<Rightarrow> bool" where
  "graphic c \<longleftrightarrow> (33 :: nat) \<le> of_char c \<and> of_char c \<le> (126 :: nat)"

lemma space_runes_bytes: "p \<in> set space_runes \<Longrightarrow> p \<noteq> [] \<and> \<not> graphic (hd p) \<and> \<not> graphic (last p)"
  unfolding space_runes_def graphic_def by auto

lemma TrimSpace_graphic: "s = [] \<or> graphic (hd s) \<and> graphic (last s) \<Longrightarrow> TrimSpace s = s"
proof -
  assume s: "s = [] \<or> graphic (hd s) \<and> graphic (last s)"
  have "trim_front space_runes s = s"
    using s by (intro trim_front_id) (auto dest!: space_runes_bytes simp: prefix_def neq_Nil_conv)
  moreover have "trim_front (map rev space_runes) (rev s) = rev s"
  proof (rule trim_front_id)
    fix p assume "p \<in> set (map rev space_runes)" and "p \<noteq> []"
    then obtain q where q: "q \<in> set space_runes" "p = rev q" by auto
    show "\<not> prefix p (rev s)"
    proof
      assume "prefix p (rev s)"
      then obtain r where "s = r @ q" using q(2) by (auto simp: prefix_def rev_eq_append_conv)
      then have "s \<noteq> []" "last s = last q" using q(2) \<open>p \<noteq> []\<close> by simp_all
      then show False using s space_runes_bytes[OF q(1)] by auto
    qed
  qed
  ultimately show ?thesis by (simp add: TrimSpace_def)
qed

lemma TrimSpace_space: "TrimSpace (CHR '' '' # s) = TrimSpace s"
proof -
  have "find (\<lambda>p. p \<noteq> [] \<and> prefix p (CHR '' '' # s)) space_runes = Some '' ''"
    by (simp add: space_runes_def)
  then show ?thesis unfolding TrimSpace_def by (subst (2) trim_front.simps) simp
qed

end
