(* ===== verification/Jwt_Validator.thy ===== *)
theory Jwt_Validator
  imports Proto Go_Strings
begin

text \<open>
  The validator of access tokens and the gRPC interceptors around it (\<open>shared/jwtvalidator\<close>). The
  JWT library is a parameter: \<open>parse\<close> takes the options and the key function that the program
  passes to \<open>ParseWithClaims\<close> and the token, and answers the claims with the token's \<open>Valid\<close> flag
  or an error; \<open>rsa\<close> is its reader of public keys. An error of the library is seen through
  whether it is \<open>jwt.ErrTokenExpired\<close> and through its text.
\<close>

record claims =
  cl_Issuer :: string
  cl_Audience :: "string list"
  cl_UserID :: string
  cl_Email :: string
  cl_Username :: string
  cl_Role :: string

record jv_config =
  jv_SecretOrPublicKey :: string
  jv_Issuer :: string
  jv_Audience :: string
  jv_Algorithm :: string
  jv_ClockSkew :: duration

text \<open>The defaults of the struct tags of \<open>Config\<close>; the key has none.\<close>

definition default_jv_config :: "string \<Rightarrow> jv_config" where
  "default_jv_config key =
     \<lparr>jv_SecretOrPublicKey = key, jv_Issuer = ''exchange-system'', jv_Audience = ''exchange-api'',
      jv_Algorithm = ''HS256'', jv_ClockSkew = 30 * second\<rparr>"

datatype 'k key = PublicKey 'k | SecretKey string

record 'k jwt_validator =
  v_config :: jv_config
  v_publicKey :: "'k option"
  v_secretKey :: string

definition NewValidator :: "(string \<Rightarrow> 'k result) \<Rightarrow> jv_config \<Rightarrow> 'k jwt_validator result" where
  "NewValidator rsa cfg =
     (let alg = ToUpper (jv_Algorithm cfg)
      in if alg \<in> {''HS256'', ''HS384'', ''HS512''}
        then Inr \<lparr>v_config = cfg, v_publicKey = None, v_secretKey = jv_SecretOrPublicKey cfg\<rparr>
      else if alg \<in> {''RS256'', ''RS384'', ''RS512''}
        then (case rsa (jv_SecretOrPublicKey cfg) of
            Inl e \<Rightarrow> Inl (Wrapf ''failed to parse RSA public key'' e)
          | Inr k \<Rightarrow> Inr \<lparr>v_config = cfg, v_publicKey = Some k, v_secretKey = ''''\<rparr>)
      else Inl (Errorf (''unsupported algorithm: '' @ jv_Algorithm cfg)))"

definition isValidAlgorithm :: "string \<Rightarrow> string \<Rightarrow> bool" where
  "isValidAlgorithm method expected = EqualFold method expected"

text \<open>The key function: the key for the token's algorithm.\<close>

definition validation_key :: "'k jwt_validator \<Rightarrow> string \<Rightarrow> 'k key result" where
  "validation_key v alg =
     (if \<not> isValidAlgorithm alg (jv_Algorithm (v_config v))
      then Inl (Errorf (''unexpected signing method: '' @ alg))
      else case v_publicKey v of Some k \<Rightarrow> Inr (PublicKey k) | None \<Rightarrow> Inr (SecretKey (v_secretKey v)))"

record parser_options =
  po_issuer :: string
  po_audience :: string
  po_methods :: "string list"
  po_leeway :: duration

record jwt_parse_error =
  pe_expired :: bool
  pe_text :: string

type_synonym 'k jwt_parser =
  "parser_options \<Rightarrow> (string \<Rightarrow> 'k key result) \<Rightarrow> string \<Rightarrow> jwt_parse_error + claims \<times> bool"

definition ValidateAndExtract :: "'k jwt_parser \<Rightarrow> 'k jwt_validator \<Rightarrow> string \<Rightarrow> claims result" where
  "ValidateAndExtract parse v tokenString =
     (let cfg = v_config v;
          opts = \<lparr>po_issuer = jv_Issuer cfg, po_audience = jv_Audience cfg,
                  po_methods = [jv_Algorithm cfg], po_leeway = jv_ClockSkew cfg\<rparr>
      in case parse opts (validation_key v) tokenString of
        Inl e \<Rightarrow>
          if pe_expired e then Inl (Sentinel (Jwt JErrTokenExpired))
          else if str_contains (pe_text e) ''issuer'' \<or> str_contains (pe_text e) ''audience''
            then Inl (Sentinel (Jwt JErrTokenInvalid))
          else Inl (Wrapf ''invalid token'' (LibErr (pe_text e)))
      | Inr (c, valid) \<Rightarrow> if \<not> valid then Inl (Sentinel (Jwt JErrTokenInvalid)) else Inr c)"

definition ToUserRole :: "claims \<Rightarrow> user_role" where
  "ToUserRole c =
     (let r = ToUpper (cl_Role c)
      in if r = ''USER'' then USER_ROLE_USER
      else if r = ''PREMIUM'' then USER_ROLE_PREMIUM
      else if r = ''ADMIN'' then USER_ROLE_ADMIN
      else USER_ROLE_UNSPECIFIED)"

section \<open>Interceptors\<close>

text \<open>
  A request carries its metadata (none, or the values of each key), and its context the claims an
  interceptor put there, if any. A handler is a function of those claims on the server's state.
\<close>

type_synonym metadata = "(string \<Rightarrow> string list) option"
type_synonym ('s, 'a) grpc_handler = "claims option \<Rightarrow> 's \<Rightarrow> 's \<times> 'a result"

abbreviation unauthenticated :: "string \<Rightarrow> err" where
  "unauthenticated \<equiv> StatusErr CodeUnauthenticated"

definition parseAuthHeader :: "string \<Rightarrow> string result" where
  "parseAuthHeader header =
     (let bearerPrefix = ''Bearer ''
      in if length header < length bearerPrefix \<or> \<not> has_prefix header bearerPrefix
        then Inl (unauthenticated ''invalid authorization header format'')
        else Inr (drop (length bearerPrefix) header))"

definition extractToken :: "metadata \<Rightarrow> string result" where
  "extractToken md =
     (case md of
        None \<Rightarrow> Inl (unauthenticated ''missing metadata'')
      | Some get \<Rightarrow>
          (case get ''authorization'' of
             h # _ \<Rightarrow> parseAuthHeader h
           | [] \<Rightarrow> (case get ''x-access-token'' of
                     t # _ \<Rightarrow> Inr t
                   | [] \<Rightarrow> Inl (unauthenticated ''missing authorization header''))))"

definition isPublicEndpoint :: "string \<Rightarrow> bool" where
  "isPublicEndpoint method \<longleftrightarrow>
     method \<in> {''/spot.v1.SpotInstrumentService/GetMarket'', ''/spot.v1.SpotInstrumentService/ListMarkets''}"

definition jv_interceptor ::
  "'k jwt_parser \<Rightarrow> 'k jwt_validator \<Rightarrow> string \<Rightarrow> metadata \<Rightarrow> ('s, 'a) grpc_handler \<Rightarrow> ('s, 'a) grpc_handler"
where
  "jv_interceptor parse v method md h cx s =
     (if isPublicEndpoint method then h cx s
      else case extractToken md of
        Inl e \<Rightarrow> (s, Inl (unauthenticated ''missing or invalid token''))
      | Inr token \<Rightarrow>
          (case ValidateAndExtract parse v token of
             Inl e \<Rightarrow> (s, Inl (unauthenticated ''invalid token''))
           | Inr c \<Rightarrow> h (Some c) s))"

fun has_role :: "user_role \<Rightarrow> user_role list \<Rightarrow> bool" where
  "has_role r [] = False"
| "has_role r (q # qs) = (if r = q then True else has_role r qs)"

definition RequireRole :: "user_role list \<Rightarrow> ('s, 'a) grpc_handler \<Rightarrow> ('s, 'a) grpc_handler" where
  "RequireRole requiredRoles h cx s =
     (case cx of
        None \<Rightarrow> (s, Inl (StatusErr CodePermissionDenied ''role not found in context''))
      | Some c \<Rightarrow>
          if has_role (ToUserRole c) requiredRoles then h cx s
          else (s, Inl (StatusErr CodePermissionDenied ''insufficient permissions'')))"

definition GetUserIDFromContext :: "claims option \<Rightarrow> string \<times> bool" where
  "GetUserIDFromContext cx = (case cx of None \<Rightarrow> ('''', False) | Some c \<Rightarrow> (cl_UserID c, True))"

definition GetRoleFromContext :: "claims option \<Rightarrow> user_role \<times> bool" where
  "GetRoleFromContext cx = (case cx of None \<Rightarrow> (USER_ROLE_UNSPECIFIED, False) | Some c \<Rightarrow> (ToUserRole c, True))"

definition GetEmailFromContext :: "claims option \<Rightarrow> string \<times> bool" where
  "GetEmailFromContext cx = (case cx of None \<Rightarrow> ('''', False) | Some c \<Rightarrow> (cl_Email c, True))"

lemma has_role_iff [simp]: "has_role r qs \<longleftrightarrow> r \<in> set qs"
  by (induction qs) auto

lemma parseAuthHeader_Inr: "parseAuthHeader h = Inr t \<longleftrightarrow> h = ''Bearer '' @ t"
  by (auto simp: parseAuthHeader_def has_prefix_def prefix_def split: if_splits)

lemma extractToken_Inr:
  "extractToken (Some get) = Inr t \<longleftrightarrow>
    (\<exists>rest. get ''authorization'' = (''Bearer '' @ t) # rest) \<or>
    get ''authorization'' = [] \<and> (\<exists>rest. get ''x-access-token'' = t # rest)"
  by (auto simp: extractToken_def parseAuthHeader_Inr split: list.split)

section \<open>Access\<close>

text \<open>A request to a method that is not public reaches its handler only with a token in the
  authorization or x-access-token header that the validator accepts, and then with that token's
  claims; every other request leaves the state alone and is answered Unauthenticated.\<close>

lemma protected_needs_token:
  fixes h :: "('s, 'a) grpc_handler"
  assumes "\<not> isPublicEndpoint method"
  shows "(\<exists>t c. extractToken md = Inr t \<and> ValidateAndExtract parse v t = Inr c \<and>
      jv_interceptor parse v method md h cx s = h (Some c) s) \<or>
    (\<exists>m. jv_interceptor parse v method md h cx s = (s, Inl (unauthenticated m)) \<and>
      (\<forall>t. extractToken md = Inr t \<longrightarrow> (\<exists>e. ValidateAndExtract parse v t = Inl e)))"
  using assms by (auto simp: jv_interceptor_def split: sum.splits)

lemma protected_needs_token_witness:
  "snd (jv_interceptor (\<lambda>_ _ _. Inl \<lparr>pe_expired = True, pe_text = ''''\<rparr>)
      \<lparr>v_config = default_jv_config ''k'', v_publicKey = (None :: nat option), v_secretKey = ''k''\<rparr>
      ''/order.v1.OrderService/CreateOrder'' (Some (\<lambda>_. [''Bearer x''])) (\<lambda>c s. (s, Inr ())) None (0 :: nat)) \<noteq> Inr ()"
proof -
  have "\<not> isPublicEndpoint ''/order.v1.OrderService/CreateOrder''" by (simp add: isPublicEndpoint_def)
  then show ?thesis
    using protected_needs_token[of "''/order.v1.OrderService/CreateOrder''" "Some (\<lambda>_. [''Bearer x''])"
        "\<lambda>_ _ _. Inl \<lparr>pe_expired = True, pe_text = ''''\<rparr>"
        "\<lparr>v_config = default_jv_config ''k'', v_publicKey = (None :: nat option), v_secretKey = ''k''\<rparr>"
        "\<lambda>c s. (s, Inr ())" None "0 :: nat"]
    by (auto simp: ValidateAndExtract_def Let_def)
qed

end
