(* ===== verification/User_Handler.thy ===== *)
theory User_Handler
  imports Auth_Props Jwt_Validator
begin

text \<open>
  The gRPC surface of the user service: the handler (\<open>user-service/internal/handler/grpc.go\<close>)
  and the authentication interceptor (\<open>user-service/internal/middleware/auth.go\<close>).
  \<open>LogoutAll\<close> and \<open>ValidateToken\<close> of the service have no handler.
\<close>

section \<open>Cookies\<close>

record cookie_config =
  cc_UseHttpOnlyCookies :: bool
  cc_CookieName :: string

section \<open>Handler\<close>

definition user_toGRPCError :: "err \<Rightarrow> err" where
  "user_toGRPCError e =
     (if e \<in> {usvc UErrInvalidEmail, usvc UErrInvalidPassword}
        then StatusErr CodeInvalidArgument ''invalid request parameters''
      else if e = usvc UErrUserNotFound then StatusErr CodeNotFound ''user not found''
      else if e = usvc UErrUserAlreadyExists then StatusErr CodeAlreadyExists ''user already exists''
      else if e = usvc UErrInvalidCredentials then StatusErr CodeUnauthenticated ''invalid credentials''
      else if e = usvc UErrTokenInvalid then StatusErr CodeUnauthenticated ''invalid or expired token''
      else if e \<in> {usvc UErrUnauthorized, usvc UErrPermissionDenied}
        then StatusErr CodePermissionDenied ''access denied''
      else StatusErr CodeInternal ''internal server error'')"

definition grpc_result :: "'a result \<Rightarrow> 'a result" where
  "grpc_result r = (case r of Inl e \<Rightarrow> Inl (user_toGRPCError e) | Inr x \<Rightarrow> Inr x)"

definition stringToUserRole :: "string \<Rightarrow> user_role" where
  "stringToUserRole s =
     (if s \<in> {''ADMIN'', ''USER_ROLE_ADMIN''} then USER_ROLE_ADMIN
      else if s \<in> {''USER'', ''USER_ROLE_USER''} then USER_ROLE_USER
      else if s \<in> {''PREMIUM'', ''USER_ROLE_PREMIUM''} then USER_ROLE_PREMIUM
      else USER_ROLE_UNSPECIFIED)"

text \<open>The loop over the cookies of the first cookie header.\<close>

fun find_cookie :: "string \<Rightarrow> string list \<Rightarrow> string option" where
  "find_cookie name [] = None"
| "find_cookie name (c # cs) =
     (let c' = TrimSpace c
      in if has_prefix c' (name @ ''='') then Some (trim_prefix c' (name @ ''='')) else find_cookie name cs)"

definition getRefreshToken :: "cookie_config \<Rightarrow> metadata \<Rightarrow> string \<Rightarrow> string" where
  "getRefreshToken cfg md bodyToken =
     (if \<not> cc_UseHttpOnlyCookies cfg then bodyToken
      else case md of
        None \<Rightarrow> bodyToken
      | Some get \<Rightarrow>
          (case get ''cookie'' of
             [] \<Rightarrow> bodyToken
           | h # _ \<Rightarrow> (case find_cookie (cc_CookieName cfg) (split_byte (CHR '';'') h) of
               Some v \<Rightarrow> v | None \<Rightarrow> bodyToken)))"

definition uh_Register ::
  "'ts auth_lib \<Rightarrow> ('u, 't) auth_service \<Rightarrow> auth_env \<Rightarrow> register_request \<Rightarrow> 'u \<times> 't \<Rightarrow>
   ('u \<times> 't) \<times> 'ts auth_response result"
where
  "uh_Register L A E req st = (case auth_Register L A E req st of (st', r) \<Rightarrow> (st', grpc_result r))"

definition uh_Login ::
  "'ts auth_lib \<Rightarrow> ('u, 't) auth_service \<Rightarrow> auth_env \<Rightarrow> string \<Rightarrow> string \<Rightarrow> 'u \<times> 't \<Rightarrow>
   ('u \<times> 't) \<times> 'ts auth_response result"
where
  "uh_Login L A E email pw st = (case auth_Login L A E email pw st of (st', r) \<Rightarrow> (st', grpc_result r))"

definition uh_RefreshToken ::
  "'ts auth_lib \<Rightarrow> ('u, 't) auth_service \<Rightarrow> cookie_config \<Rightarrow> metadata \<Rightarrow> auth_env \<Rightarrow> string \<Rightarrow> 'u \<times> 't \<Rightarrow>
   ('u \<times> 't) \<times> string result"
where
  "uh_RefreshToken L A cfg md E body st =
     (let refreshToken = getRefreshToken cfg md body
      in if refreshToken = '''' then (st, Inl (unauthenticated ''refresh token required''))
      else case auth_RefreshToken L A E refreshToken st of (st', r) \<Rightarrow> (st', grpc_result r))"

definition uh_Logout ::
  "('u, 't) auth_service \<Rightarrow> cookie_config \<Rightarrow> metadata \<Rightarrow> poll \<Rightarrow> string \<Rightarrow> 'u \<times> 't \<Rightarrow> ('u \<times> 't) \<times> unit result"
where
  "uh_Logout A cfg md p body st =
     (let refreshToken = getRefreshToken cfg md body
      in if refreshToken = '''' then (st, Inl (unauthenticated ''refresh token required''))
      else case auth_Logout A p refreshToken st of (st', r) \<Rightarrow> (st', grpc_result r))"

definition uh_GetUser ::
  "'ts auth_lib \<Rightarrow> ('u, 't) auth_service \<Rightarrow> poll \<Rightarrow> string \<Rightarrow> 'u \<times> 't \<Rightarrow> 'ts user_pb result"
where
  "uh_GetUser L A p uid st = grpc_result (auth_GetUser L A p uid st)"

definition uh_UpdateRole ::
  "'ts auth_lib \<Rightarrow> ('u, 't) auth_service \<Rightarrow> ctx \<Rightarrow> time \<Rightarrow> time \<Rightarrow> string \<Rightarrow> user_role \<Rightarrow> ('u \<times> 't, 'ts user_pb) grpc_handler"
where
  "uh_UpdateRole L A cx t1 t2 uid newRole claims st =
     (case claims of
        None \<Rightarrow> (st, Inl (unauthenticated ''user not authenticated''))
      | Some c \<Rightarrow>
          let actorRole = stringToUserRole (cl_Role c)
          in if actorRole \<noteq> USER_ROLE_ADMIN then (st, Inl (StatusErr CodePermissionDenied ''admin role required''))
          else case auth_UpdateRole L A cx t1 t2 uid newRole actorRole st of (st', r) \<Rightarrow> (st', grpc_result r))"

section \<open>Authentication interceptor\<close>

text \<open>The set of public methods is a variable of the package, which \<open>RegisterPublicEndpoint\<close> extends.\<close>

definition publicEndpoints :: "string list" where
  "publicEndpoints =
     [''/user.v1.UserService/Register'', ''/user.v1.UserService/Login'', ''/user.v1.UserService/RefreshToken'']"

definition RegisterPublicEndpoint :: "string \<Rightarrow> string list \<Rightarrow> string list" where
  "RegisterPublicEndpoint method ps = (if method \<in> set ps then ps else method # ps)"

definition IsPublicEndpoint :: "string list \<Rightarrow> string \<Rightarrow> bool" where
  "IsPublicEndpoint ps method \<longleftrightarrow> method \<in> set ps"

definition user_interceptor ::
  "'k jwt_parser \<Rightarrow> 'k jwt_validator \<Rightarrow> string list \<Rightarrow> string \<Rightarrow> metadata \<Rightarrow> ('s, 'a) grpc_handler \<Rightarrow> ('s, 'a) grpc_handler"
where
  "user_interceptor parse v ps method md h cx s =
     (if IsPublicEndpoint ps method then h cx s
      else case md of
        None \<Rightarrow> (s, Inl (unauthenticated ''missing metadata''))
      | Some get \<Rightarrow>
          (case get ''authorization'' of
             [] \<Rightarrow> (s, Inl (unauthenticated ''missing authorization header''))
           | authHeader # _ \<Rightarrow>
               if \<not> has_prefix authHeader ''Bearer '' then (s, Inl (unauthenticated ''invalid authorization format''))
               else let tokenString = trim_prefix authHeader ''Bearer ''
               in case ValidateAndExtract parse v tokenString of
                 Inl e \<Rightarrow> (s, Inl (unauthenticated ''invalid token''))
               | Inr c \<Rightarrow>
                   (case map_of UserRole_value (cl_Role c) of
                      None \<Rightarrow> (s, Inl (StatusErr CodePermissionDenied ''invalid role''))
                    | Some roleVal \<Rightarrow> h (Some c) s)))"

section \<open>Properties\<close>

lemma stringToUserRole_String: "named_role r \<Longrightarrow> stringToUserRole (user_role_String itoa r) = r"
  by (cases r) (auto simp: stringToUserRole_def named_role_def)

text \<open>The role of a user changes through the gRPC surface only when the request carries a bearer
  token that the validator accepts and whose role claim is that of an administrator; in every other
  case the state stays and the answer is Unauthenticated or PermissionDenied.\<close>

lemma uh_UpdateRole_cases:
  fixes A :: "('u, 't) auth_service"
  assumes "user_interceptor parse v publicEndpoints ''/user.v1.UserService/UpdateRole'' md
      (uh_UpdateRole L A cx t1 t2 uid newRole) None st = (st', r)"
  shows "(\<exists>get h rest t c. md = Some get \<and> get ''authorization'' = h # rest \<and> h = ''Bearer '' @ t \<and>
      ValidateAndExtract parse v t = Inr c \<and> cl_Role c = ''USER_ROLE_ADMIN'' \<and>
      (st', r) = (case auth_UpdateRole L A cx t1 t2 uid newRole USER_ROLE_ADMIN st of (st', r) \<Rightarrow> (st', grpc_result r))) \<or>
    st' = st \<and> (\<exists>m. r = Inl (unauthenticated m) \<or> r = Inl (StatusErr CodePermissionDenied m))"
proof -
  have np: "\<not> IsPublicEndpoint publicEndpoints ''/user.v1.UserService/UpdateRole''"
    by (simp add: IsPublicEndpoint_def publicEndpoints_def)
  show ?thesis
  proof (cases "\<exists>get h rest t c. md = Some get \<and> get ''authorization'' = h # rest \<and> h = ''Bearer '' @ t \<and>
      ValidateAndExtract parse v t = Inr c \<and> map_of UserRole_value (cl_Role c) \<noteq> None")
    case True
    then obtain get h rest t c where *: "md = Some get" "get ''authorization'' = h # rest" "h = ''Bearer '' @ t"
      "ValidateAndExtract parse v t = Inr c" "map_of UserRole_value (cl_Role c) \<noteq> None" by blast
    then have run: "(st', r) = uh_UpdateRole L A cx t1 t2 uid newRole (Some c) st"
      using assms np by (auto simp: user_interceptor_def has_prefix_def trim_prefix_def)
    show ?thesis
    proof (cases "stringToUserRole (cl_Role c) = USER_ROLE_ADMIN")
      case admin: True
      then have "cl_Role c = ''USER_ROLE_ADMIN''"
        using *(5) by (auto simp: stringToUserRole_def UserRole_value_def split: if_splits)
      then show ?thesis using * run admin by (auto simp: uh_UpdateRole_def)
    qed (use run in \<open>auto simp: uh_UpdateRole_def\<close>)
  next
    case False
    then show ?thesis using assms np
      by (auto simp: user_interceptor_def has_prefix_def trim_prefix_def prefix_def Let_def
          split: option.splits list.splits sum.splits if_splits)
  qed
qed

section \<open>The refresh token cookie\<close>

text \<open>A cookie as a browser writes it: printable bytes, no semicolon, no equals sign in the name.\<close>

definition plain_cookie :: "string \<times> string \<Rightarrow> bool" where
  "plain_cookie c \<longleftrightarrow> fst c \<noteq> [] \<and> (\<forall>b \<in> set (fst c). graphic b \<and> b \<noteq> CHR '';'' \<and> b \<noteq> CHR ''='') \<and>
     (\<forall>b \<in> set (snd c). graphic b \<and> b \<noteq> CHR '';'')"

definition cookie_text :: "string \<times> string \<Rightarrow> string" where
  "cookie_text c = fst c @ ''='' @ snd c"

lemma split_cookies:
  "\<forall>s \<in> set ss. CHR '';'' \<notin> set s \<Longrightarrow> ss \<noteq> [] \<Longrightarrow>
   split_byte (CHR '';'') (join ''; '' ss) = hd ss # map (\<lambda>s. CHR '' '' # s) (tl ss)"
proof (induction ss rule: induct_list012)
  case (3 s t ss)
  then have "split_byte (CHR '';'') (CHR '' '' # join ''; '' (t # ss)) = (CHR '' '' # t) # map (\<lambda>s. CHR '' '' # s) ss"
    by simp
  then show ?case using 3 split_byte_append[of "CHR '';''" s] by simp
qed (simp_all add: split_byte_free)

lemma TrimSpace_cookie: "plain_cookie c \<Longrightarrow> TrimSpace (cookie_text c) = cookie_text c"
proof -
  assume c: "plain_cookie c"
  have "graphic (CHR ''='')" by (simp add: graphic_def)
  then have "\<forall>b \<in> set (cookie_text c). graphic b" using c by (auto simp: plain_cookie_def cookie_text_def)
  moreover have "cookie_text c \<noteq> []" by (simp add: cookie_text_def)
  ultimately show ?thesis by (intro TrimSpace_graphic) (simp add: list.set_sel)
qed

lemma eq_append_split: "b \<notin> set xs \<Longrightarrow> b \<notin> set ys \<Longrightarrow> xs @ b # us = ys @ b # vs \<longleftrightarrow> xs = ys \<and> us = vs"
  by (auto simp: append_eq_append_conv2 append_eq_Cons_conv Cons_eq_append_conv)

lemma find_plain_cookie:
  "\<forall>c \<in> set cs. plain_cookie c \<Longrightarrow> CHR ''='' \<notin> set name \<Longrightarrow>
   (\<forall>i < length cs. TrimSpace (ts ! i) = cookie_text (cs ! i)) \<Longrightarrow> length ts = length cs \<Longrightarrow>
   find_cookie name ts = map_of cs name"
proof (induction cs arbitrary: ts)
  case (Cons c cs)
  then obtain t ts' where ts: "ts = t # ts'" by (cases ts) auto
  have t: "TrimSpace t = cookie_text c" using Cons.prems(3) ts by (metis length_Cons nth_Cons_0 zero_less_Suc)
  have n: "CHR ''='' \<notin> set (fst c)" using Cons.prems(1) by (auto simp: plain_cookie_def)
  have pre: "has_prefix (cookie_text c) (name @ ''='') \<longleftrightarrow> fst c = name"
    using eq_append_split[OF n Cons.prems(2)] by (auto simp: has_prefix_def prefix_def cookie_text_def)
  have IH: "find_cookie name ts' = map_of cs name"
    using Cons.prems ts by (intro Cons.IH) auto
  show ?case
    using t pre IH trim_prefix_append[of "name @ ''=''" "snd c"] by (cases c) (auto simp: ts cookie_text_def Let_def)
qed simp

text \<open>With cookies in use, the token taken from a cookie header as a browser writes it is the
  value of the first cookie of the configured name, and the token of the body when there is none.\<close>

lemma refresh_token_from_cookie:
  assumes "cc_UseHttpOnlyCookies cfg" and "CHR ''='' \<notin> set (cc_CookieName cfg)" and "cs \<noteq> []"
    and "\<forall>c \<in> set cs. plain_cookie c" and "get ''cookie'' = join ''; '' (map cookie_text cs) # rest"
  shows "getRefreshToken cfg (Some get) bodyToken =
    (case map_of cs (cc_CookieName cfg) of Some v \<Rightarrow> v | None \<Rightarrow> bodyToken)"
proof -
  let ?ts = "cookie_text (hd cs) # map (\<lambda>s. CHR '' '' # s) (map cookie_text (tl cs))"
  have "\<forall>s \<in> set (map cookie_text cs). CHR '';'' \<notin> set s"
    using assms(4) by (auto simp: cookie_text_def plain_cookie_def)
  then have "split_byte (CHR '';'') (join ''; '' (map cookie_text cs)) = ?ts"
    using split_cookies[of "map cookie_text cs"] assms(3) by (cases cs) simp_all
  moreover have "find_cookie (cc_CookieName cfg) ?ts = map_of cs (cc_CookieName cfg)"
  proof (rule find_plain_cookie[OF assms(4,2)])
    show "\<forall>i < length cs. TrimSpace (?ts ! i) = cookie_text (cs ! i)"
      using assms(3,4) by (cases cs) (auto simp: nth_Cons TrimSpace_cookie TrimSpace_space split: nat.splits)
  qed (use assms(3) in \<open>cases cs; simp\<close>)
  ultimately show ?thesis using assms(1,5) by (simp add: getRefreshToken_def)
qed

lemma refresh_token_from_cookie_witness:
  "getRefreshToken \<lparr>cc_UseHttpOnlyCookies = True, cc_CookieName = ''refresh_token''\<rparr>
     (Some (\<lambda>_. [''a=1; refresh_token=x=y''])) ''body'' = ''x=y''"
  using refresh_token_from_cookie[of "\<lparr>cc_UseHttpOnlyCookies = True, cc_CookieName = ''refresh_token''\<rparr>"
      "[(''a'', ''1''), (''refresh_token'', ''x=y'')]" "\<lambda>_. [''a=1; refresh_token=x=y'']" "[]" "''body''"]
  by (simp add: plain_cookie_def graphic_def cookie_text_def)

end
