(* ===== verification/Shared_Grpc.thy ===== *)
theory Shared_Grpc
  imports Complex_Main Jwt_Validator Go_Map
begin

text \<open>
  What every server puts around its handlers: request identifiers, logging and recovery from panics
  (\<open>shared/interceptors\<close>), and the rate limiter with its interceptors (\<open>shared/ratelimit\<close>).
\<close>

section \<open>Handlers that may panic\<close>

datatype 'a outcome = Returned "'a result" | Panicked string

text \<open>The context of a request: incoming and outgoing metadata, and the string values stored in it,
  and the claims an authentication interceptor left.\<close>

record request_ctx =
  rx_incoming :: metadata
  rx_outgoing :: "(string \<times> string) list"
  rx_values :: "(string \<times> string) list"
  rx_claims :: "claims option"

type_synonym ('s, 'a) unary = "request_ctx \<Rightarrow> 's \<Rightarrow> 's \<times> 'a outcome"

section \<open>Interceptors\<close>

definition RequestIDKey :: string where
  "RequestIDKey = ''x-request-id''"

definition incoming_id :: "metadata \<Rightarrow> string option" where
  "incoming_id md = (case md of None \<Rightarrow> None | Some get \<Rightarrow> (case get RequestIDKey of [] \<Rightarrow> None | i # _ \<Rightarrow> Some i))"

definition XRequestID :: "string \<Rightarrow> ('s, 'a) unary \<Rightarrow> ('s, 'a) unary" where
  "XRequestID fresh h cx s =
     (let requestID = (case incoming_id (rx_incoming cx) of Some i \<Rightarrow> i | None \<Rightarrow> fresh)
      in h (cx\<lparr>rx_outgoing := [(RequestIDKey, requestID)]\<rparr>) s)"

datatype log_type = Started | Completed | Failed

text \<open>The entries of the log: those of a request, and that of a recovered panic, which names no request.\<close>

datatype log_entry =
  RequestLog (lg_requestID: string) (lg_method: string) (lg_type: log_type)
| PanicLog (lg_recovered: string)

text \<open>The log is part of the state, and the interceptors inside write to it as well. A panic passes through without
  a second entry.\<close>

definition LoggerInterceptor :: "string \<Rightarrow> (log_entry list \<times> 's, 'a) unary \<Rightarrow> (log_entry list \<times> 's, 'a) unary" where
  "LoggerInterceptor method h cx st =
     (case st of (lg, s) \<Rightarrow>
      let requestID = (case incoming_id (rx_incoming cx) of Some i \<Rightarrow> i | None \<Rightarrow> ''unknown'')
      in case h cx (lg @ [RequestLog requestID method Started], s) of
        (st', Panicked r) \<Rightarrow> (st', Panicked r)
      | ((lg', s'), Returned (Inl e)) \<Rightarrow> ((lg' @ [RequestLog requestID method Failed], s'), Returned (Inl e))
      | ((lg', s'), Returned (Inr x)) \<Rightarrow> ((lg' @ [RequestLog requestID method Completed], s'), Returned (Inr x)))"

definition UnaryPanicRecoveryInterceptor :: "('s, 'a) unary \<Rightarrow> (log_entry list \<times> 's, 'a) unary" where
  "UnaryPanicRecoveryInterceptor h cx st =
     (case st of (lg, s) \<Rightarrow>
      case h cx s of
        (s', Panicked r) \<Rightarrow> ((lg @ [PanicLog r], s'), Returned (Inl (StatusErr CodeInternal (''Internal server error: '' @ r))))
      | (s', Returned x) \<Rightarrow> ((lg, s'), Returned x))"

text \<open>The claims that an authentication interceptor stores for the handlers.\<close>

definition ContextWithClaims :: "claims \<Rightarrow> request_ctx \<Rightarrow> request_ctx" where
  "ContextWithClaims c cx = cx\<lparr>rx_claims := Some c\<rparr>"

definition ClaimsFromContext :: "request_ctx \<Rightarrow> claims option" where
  "ClaimsFromContext cx = rx_claims cx"

lemma claims_stored [simp]: "ClaimsFromContext (ContextWithClaims c cx) = Some c"
  by (simp add: ContextWithClaims_def ClaimsFromContext_def)

text \<open>The Prometheus library: the interceptor it makes, over counters of its own, and its switch for the histogram of
  handling times. Its documentation promises monitoring: the handler is called once, and its outcome is the outcome.\<close>

record ('m, 's, 'a) prometheus_lib =
  pm_EnableHandlingTimeHistogram :: "'m \<Rightarrow> 'm"
  pm_UnaryServerInterceptor :: "string \<Rightarrow> ('s, 'a) unary \<Rightarrow> ('m \<times> 's, 'a) unary"

definition MetricsInterceptor ::
  "('m, 's, 'a) prometheus_lib \<Rightarrow> 'm \<Rightarrow> 'm \<times> (string \<Rightarrow> ('s, 'a) unary \<Rightarrow> ('m \<times> 's, 'a) unary)"
where
  "MetricsInterceptor L m = (pm_EnableHandlingTimeHistogram L m, pm_UnaryServerInterceptor L)"

definition monitors :: "('m, 's, 'a) prometheus_lib \<Rightarrow> bool" where
  "monitors L \<longleftrightarrow> (\<forall>meth h cx m s. \<exists>m'. pm_UnaryServerInterceptor L meth h cx (m, s) = ((m', fst (h cx s)), snd (h cx s)))"

lemma monitored: "monitors L \<Longrightarrow> \<exists>m'. snd (MetricsInterceptor L m0) meth h cx (m, s) = ((m', fst (h cx s)), snd (h cx s))"
  by (simp add: monitors_def MetricsInterceptor_def)

text \<open>The client's interceptor: the call goes on with the identifier of the context, or a new one.\<close>

definition XRequestIDClientInterceptor :: "string \<Rightarrow> ('s, 'a) unary \<Rightarrow> ('s, 'a) unary" where
  "XRequestIDClientInterceptor fresh invoker cx s =
     (let old = map_of (rx_values cx) RequestIDKey;
          found = (case old of Some i \<Rightarrow> i \<noteq> '''' | None \<Rightarrow> False);
          requestID = (if found then the old else fresh);
          cx1 = (if found then cx else cx\<lparr>rx_values := (RequestIDKey, requestID) # rx_values cx\<rparr>)
      in invoker (cx1\<lparr>rx_outgoing := rx_outgoing cx1 @ [(RequestIDKey, requestID)]\<rparr>) s)"

definition LoggerClientInterceptor :: "string \<Rightarrow> ('s, 'a) unary \<Rightarrow> (log_entry list \<times> 's, 'a) unary" where
  "LoggerClientInterceptor method invoker cx st =
     (case st of (lg, s) \<Rightarrow>
      let requestID = (case map_of (rx_values cx) RequestIDKey of Some i \<Rightarrow> i | None \<Rightarrow> '''');
          entry = RequestLog requestID method
      in case invoker cx s of
        (s', Panicked r) \<Rightarrow> ((lg @ [entry Started], s'), Panicked r)
      | (s', Returned (Inl e)) \<Rightarrow> ((lg @ [entry Started, entry Failed], s'), Returned (Inl e))
      | (s', Returned (Inr x)) \<Rightarrow> ((lg @ [entry Started, entry Completed], s'), Returned (Inr x)))"

lemma recovery_never_panics: "snd (UnaryPanicRecoveryInterceptor h cx st) \<noteq> Panicked r"
  by (simp add: UnaryPanicRecoveryInterceptor_def split: prod.split outcome.split)

text \<open>The identifier that \<open>XRequestID\<close> makes goes to the outgoing metadata; the logger reads the
  incoming metadata: without an identifier from the client the log says unknown.\<close>

lemma made_id_not_logged:
  assumes "incoming_id (rx_incoming cx) = None"
  shows "\<forall>e \<in> set (fst (fst (XRequestID fresh (LoggerInterceptor method (UnaryPanicRecoveryInterceptor h)) cx ([], s)))).
    (\<exists>r. e = PanicLog r) \<or> lg_requestID e = ''unknown''"
  using assms by (auto simp: XRequestID_def LoggerInterceptor_def UnaryPanicRecoveryInterceptor_def Let_def
      split: prod.splits outcome.splits sum.splits)

section \<open>Rate limiting\<close>

text \<open>A token bucket of \<open>golang.org/x/time/rate\<close>, a parameter: \<open>rl_new\<close> with a rate and a burst,
  \<open>rl_allow\<close> for n tokens at a time,
  \<open>rl_wait\<close> until there is one.\<close>

record 'l rate_lib =
  rl_new :: "rat \<Rightarrow> int \<Rightarrow> 'l"
  rl_allow :: "time \<Rightarrow> int \<Rightarrow> 'l \<Rightarrow> 'l \<times> bool"
  rl_wait :: "time \<Rightarrow> 'l \<Rightarrow> 'l \<times> unit result"

record rate_config =
  rg_RequestsPerSecond :: rat
  rg_MaxBurst :: int
  rg_RoleLimits :: "(string, rat) gomap"
  rg_BytesPerSecond :: rat

definition DefaultRateLimitConfig :: rate_config where
  "DefaultRateLimitConfig =
     \<lparr>rg_RequestsPerSecond = 5000, rg_MaxBurst = 1000,
      rg_RoleLimits = [(''ADMIN'', 10000), (''MODERATOR'', 7500), (''PREMIUM'', 6000), (''USER'', 5000)],
      rg_BytesPerSecond = 10 * 1024 * 1024\<rparr>"

record 'l rate_limiter =
  rt_config :: rate_config
  rt_serviceLim :: 'l
  rt_bytesLim :: 'l
  rt_roleLims :: "(string, 'l) gomap"

definition NewRateLimiter :: "'l rate_lib \<Rightarrow> rate_config \<Rightarrow> 'l rate_limiter" where
  "NewRateLimiter R cfg =
     \<lparr>rt_config = cfg, rt_serviceLim = rl_new R (rg_RequestsPerSecond cfg) (rg_MaxBurst cfg),
      rt_bytesLim = rl_new R (rg_BytesPerSecond cfg) (rg_MaxBurst cfg * 1024),
      rt_roleLims = map (\<lambda>(role, rps). (role, rl_new R rps (rg_MaxBurst cfg))) (rg_RoleLimits cfg)\<rparr>"

definition Allow :: "'l rate_lib \<Rightarrow> time \<Rightarrow> 'l rate_limiter \<Rightarrow> 'l rate_limiter \<times> bool" where
  "Allow R now l = (case rl_allow R now 1 (rt_serviceLim l) of (b, ok) \<Rightarrow> (l\<lparr>rt_serviceLim := b\<rparr>, ok))"

definition AllowN :: "'l rate_lib \<Rightarrow> time \<Rightarrow> int \<Rightarrow> 'l rate_limiter \<Rightarrow> 'l rate_limiter \<times> bool" where
  "AllowN R now n l = (case rl_allow R now n (rt_serviceLim l) of (b, ok) \<Rightarrow> (l\<lparr>rt_serviceLim := b\<rparr>, ok))"

definition AllowBytes :: "'l rate_lib \<Rightarrow> time \<Rightarrow> int \<Rightarrow> 'l rate_limiter \<Rightarrow> 'l rate_limiter \<times> bool" where
  "AllowBytes R now n l = (case rl_allow R now n (rt_bytesLim l) of (b, ok) \<Rightarrow> (l\<lparr>rt_bytesLim := b\<rparr>, ok))"

text \<open>\<open>None\<close>: neither the role nor USER has a limiter, and the call panics on the nil pointer.\<close>

definition role_key :: "string \<Rightarrow> 'l rate_limiter \<Rightarrow> string" where
  "role_key role l = (if gm_get (rt_roleLims l) role \<noteq> None then role else ''USER'')"

definition AllowRole :: "'l rate_lib \<Rightarrow> time \<Rightarrow> string \<Rightarrow> 'l rate_limiter \<Rightarrow> ('l rate_limiter \<times> bool) option" where
  "AllowRole R now role l =
     (case gm_get (rt_roleLims l) (role_key role l) of
        None \<Rightarrow> None
      | Some b \<Rightarrow> (case rl_allow R now 1 b of
          (b', ok) \<Rightarrow> Some (l\<lparr>rt_roleLims := gm_put (role_key role l) b' (rt_roleLims l)\<rparr>, ok)))"

definition UpdateRoleLimit :: "'l rate_lib \<Rightarrow> string \<Rightarrow> rat \<Rightarrow> 'l rate_limiter \<Rightarrow> 'l rate_limiter" where
  "UpdateRoleLimit R role rps l =
     l\<lparr>rt_roleLims := gm_put role (rl_new R rps (rg_MaxBurst (rt_config l))) (rt_roleLims l)\<rparr>"

definition GetConfig :: "'l rate_limiter \<Rightarrow> rate_config" where
  "GetConfig l = rt_config l"

definition Wait :: "'l rate_lib \<Rightarrow> time \<Rightarrow> 'l rate_limiter \<Rightarrow> 'l rate_limiter \<times> unit result" where
  "Wait R now l = (case rl_wait R now (rt_serviceLim l) of (b, r) \<Rightarrow> (l\<lparr>rt_serviceLim := b\<rparr>, r))"

definition WaitRole :: "'l rate_lib \<Rightarrow> time \<Rightarrow> string \<Rightarrow> 'l rate_limiter \<Rightarrow> ('l rate_limiter \<times> unit result) option" where
  "WaitRole R now role l =
     (case gm_get (rt_roleLims l) (role_key role l) of
        None \<Rightarrow> None
      | Some b \<Rightarrow> (case rl_wait R now b of
          (b', r) \<Rightarrow> Some (l\<lparr>rt_roleLims := gm_put (role_key role l) b' (rt_roleLims l)\<rparr>, r)))"

text \<open>\<open>GetStats\<close>: the limits of the service, of bytes and of the roles, from the configuration.\<close>

definition rate_GetStats :: "'l rate_limiter \<Rightarrow> rat \<times> rat \<times> (string, rat) gomap" where
  "rate_GetStats l =
     (rg_RequestsPerSecond (rt_config l), rg_BytesPerSecond (rt_config l), rg_RoleLimits (rt_config l))"

text \<open>A limit of a role that is changed stays the old one in the statistics and the configuration.\<close>

lemma stats_stale:
  "rate_GetStats (UpdateRoleLimit R role rps l) = rate_GetStats l" "GetConfig (UpdateRoleLimit R role rps l) = GetConfig l"
  by (simp_all add: rate_GetStats_def UpdateRoleLimit_def GetConfig_def)

text \<open>The limiter of the process: only the first \<open>InitGlobal\<close> counts.\<close>

record 'l rate_global =
  gl_limiter :: "'l rate_limiter option"
  gl_once :: bool

definition InitGlobal :: "'l rate_lib \<Rightarrow> rate_config \<Rightarrow> 'l rate_global \<Rightarrow> 'l rate_global" where
  "InitGlobal R cfg g = (if gl_once g then g else \<lparr>gl_limiter = Some (NewRateLimiter R cfg), gl_once = True\<rparr>)"

definition GetGlobal :: "'l rate_global \<Rightarrow> 'l rate_limiter option" where
  "GetGlobal g = gl_limiter g"

lemma InitGlobal_once: "InitGlobal R c2 (InitGlobal R c1 g) = InitGlobal R c1 g"
  by (simp add: InitGlobal_def)

text \<open>The server's interceptor; the role is the string that \<open>WithUserRole\<close> put into the context.\<close>

definition UserRoleKey :: string where
  "UserRoleKey = ''user_role''"

definition WithUserRole :: "request_ctx \<Rightarrow> string \<Rightarrow> request_ctx" where
  "WithUserRole cx role = cx\<lparr>rx_values := (UserRoleKey, role) # rx_values cx\<rparr>"

definition UserRoleFromContext :: "request_ctx \<Rightarrow> string \<times> bool" where
  "UserRoleFromContext cx =
     (case map_of (rx_values cx) UserRoleKey of None \<Rightarrow> ('''', False) | Some role \<Rightarrow> (role, role \<noteq> ''''))"

definition rate_interceptor :: "'l rate_lib \<Rightarrow> time \<Rightarrow> time \<Rightarrow> ('s, 'a) unary \<Rightarrow> ('l rate_limiter \<times> 's, 'a) unary" where
  "rate_interceptor R t1 t2 h cx st =
     (case st of (l, s) \<Rightarrow>
      case Allow R t1 l of
        (l1, False) \<Rightarrow> ((l1, s), Returned (Inl (StatusErr CodeResourceExhausted ''service rate limit exceeded'')))
      | (l1, True) \<Rightarrow>
          let run = (\<lambda>l'. case h cx s of (s', r) \<Rightarrow> ((l', s'), r))
          in case map_of (rx_values cx) UserRoleKey of
            None \<Rightarrow> run l1
          | Some role \<Rightarrow>
              if role = '''' then run l1
              else case AllowRole R t2 role l1 of
                None \<Rightarrow> ((l1, s), Panicked ''runtime error: invalid memory address or nil pointer dereference'')
              | Some (l2, False) \<Rightarrow>
                  ((l2, s), Returned (Inl (StatusErr CodeResourceExhausted (''role rate limit exceeded: '' @ role))))
              | Some (l2, True) \<Rightarrow> run l2)"

definition rate_client_interceptor :: "'l rate_lib \<Rightarrow> time \<Rightarrow> ('s, 'a) unary \<Rightarrow> ('l rate_limiter \<times> 's, 'a) unary" where
  "rate_client_interceptor R t invoker cx st =
     (case st of (l, s) \<Rightarrow>
      case Allow R t l of
        (l1, False) \<Rightarrow> ((l1, s), Returned (Inl (StatusErr CodeResourceExhausted ''client rate limit exceeded'')))
      | (l1, True) \<Rightarrow> (case invoker cx s of (s', r) \<Rightarrow> ((l1, s'), r)))"

text \<open>The interceptor of streams takes the same steps before its handler.\<close>

definition rate_stream_interceptor ::
  "'l rate_lib \<Rightarrow> time \<Rightarrow> time \<Rightarrow> ('s, unit) unary \<Rightarrow> ('l rate_limiter \<times> 's, unit) unary" where
  "rate_stream_interceptor R t1 t2 h = rate_interceptor R t1 t2 h"

text \<open>What the limiters of the default configuration provide: every role has one.\<close>

definition has_user_limit :: "'l rate_limiter \<Rightarrow> bool" where
  "has_user_limit l \<longleftrightarrow> gm_get (rt_roleLims l) ''USER'' \<noteq> None"

lemma default_has_user_limit: "has_user_limit (NewRateLimiter R DefaultRateLimitConfig)"
  by (simp add: has_user_limit_def NewRateLimiter_def DefaultRateLimitConfig_def gm_get_def)

lemma has_user_limit_Allow [simp]: "has_user_limit (fst (Allow R t l)) = has_user_limit l"
  by (simp add: has_user_limit_def Allow_def split: prod.split)

lemma AllowRole_total: "has_user_limit l \<Longrightarrow> AllowRole R t role l \<noteq> None"
  by (auto simp: has_user_limit_def AllowRole_def role_key_def split: prod.split option.split)

text \<open>C25: a request beyond the limit of the service, or of the role in its context, does not reach the
  handler and leaves its state alone; with a limiter for USER the interceptor itself never panics,
  and without one a request of a role that has no limiter panics and the recovery interceptor turns
  the panic into an Internal error and an entry of the log.\<close>

theorem rate_limit_guards:
  fixes h :: "('s, 'a) unary" and R :: "'l rate_lib"
  shows "(snd (Allow R t1 l) = False \<longrightarrow>
      (\<exists>l'. rate_interceptor R t1 t2 h cx (l, s) = ((l', s), Returned (Inl (StatusErr CodeResourceExhausted ''service rate limit exceeded''))))) \<and>
    (\<forall>role l2. snd (Allow R t1 l) = True \<longrightarrow> UserRoleFromContext cx = (role, True) \<longrightarrow> AllowRole R t2 role (fst (Allow R t1 l)) = Some (l2, False) \<longrightarrow>
      rate_interceptor R t1 t2 h cx (l, s) = ((l2, s), Returned (Inl (StatusErr CodeResourceExhausted (''role rate limit exceeded: '' @ role))))) \<and>
    (has_user_limit l \<longrightarrow> (\<forall>r. snd (h cx s) \<noteq> Panicked r) \<longrightarrow> (\<forall>r. snd (rate_interceptor R t1 t2 h cx (l, s)) \<noteq> Panicked r)) \<and>
    (\<forall>role. snd (Allow R t1 l) = True \<longrightarrow> UserRoleFromContext cx = (role, True) \<longrightarrow> gm_get (rt_roleLims l) role = None \<longrightarrow> \<not> has_user_limit l \<longrightarrow>
      (\<exists>l'. UnaryPanicRecoveryInterceptor (rate_interceptor R t1 t2 h) cx (lg, l, s) =
        ((lg @ [PanicLog ''runtime error: invalid memory address or nil pointer dereference''], l', s), Returned (Inl (StatusErr CodeInternal ''Internal server error: runtime error: invalid memory address or nil pointer dereference'')))))"
    (is "?service \<and> ?role \<and> ?total \<and> ?panic")
proof -
  obtain l1 ok where al: "Allow R t1 l = (l1, ok)" by fastforce
  have lims: "rt_roleLims l1 = rt_roleLims l" using al by (auto simp: Allow_def split: prod.splits)
  have user: "has_user_limit l1 = has_user_limit l" by (simp add: has_user_limit_def lims)
  have role: "UserRoleFromContext cx = (role, True) \<longleftrightarrow> map_of (rx_values cx) UserRoleKey = Some role \<and> role \<noteq> ''''" for role
    by (auto simp: UserRoleFromContext_def split: option.splits)
  have ?service by (simp add: rate_interceptor_def al)
  moreover have ?role using al by (simp add: rate_interceptor_def role)
  moreover have ?total
  proof (intro impI allI)
    fix r assume u: "has_user_limit l" and h: "\<forall>r. snd (h cx s) \<noteq> Panicked r"
    have t: "AllowRole R t2 role l1 \<noteq> None" for role using AllowRole_total u user by blast
    obtain s' r' where run: "h cx s = (s', r')" by fastforce
    have ok2: "\<exists>l2 b. AllowRole R t2 role l1 = Some (l2, b)" for role using t[of role] by (cases "AllowRole R t2 role l1") auto
    show "snd (rate_interceptor R t1 t2 h cx (l, s)) \<noteq> Panicked r"
    proof (cases "map_of (rx_values cx) UserRoleKey")
      case None
      then show ?thesis using al h run by (simp add: rate_interceptor_def Let_def split: bool.split)
    next
      case (Some role)
      obtain l2 b where "AllowRole R t2 role l1 = Some (l2, b)" using ok2 by blast
      then show ?thesis using al h run Some by (simp add: rate_interceptor_def Let_def split: bool.split)
    qed
  qed
  moreover have ?panic
    using al lims
    by (auto simp: rate_interceptor_def role UnaryPanicRecoveryInterceptor_def AllowRole_def role_key_def has_user_limit_def
        split: bool.split)
  ultimately show ?thesis by blast
qed

text \<open>A bucket that counts its tokens and never gains one.\<close>

definition wit_rates :: "nat rate_lib" where
  "wit_rates = \<lparr>rl_new = (\<lambda>r b. nat b), rl_allow = (\<lambda>t n k. (if nat n \<le> k then (k - nat n, True) else (k, False))),
     rl_wait = (\<lambda>t k. if k = 0 then (0, Inl (LibErr ''would exceed'')) else (k - 1, Inr ()))\<rparr>"

definition wit_limited :: rate_config where
  "wit_limited = \<lparr>rg_RequestsPerSecond = 1, rg_MaxBurst = 1, rg_RoleLimits = [], rg_BytesPerSecond = 0\<rparr>"

definition wit_request :: request_ctx where
  "wit_request = \<lparr>rx_incoming = None, rx_outgoing = [], rx_values = [(UserRoleKey, ''ADMIN'')], rx_claims = None\<rparr>"

theorem rate_limit_guards_witness:
  "\<exists>l'. UnaryPanicRecoveryInterceptor (rate_interceptor wit_rates 0 0 (\<lambda>cx s. (s, Returned (Inr s)))) wit_request
       ([], NewRateLimiter wit_rates wit_limited, ()) =
     (([PanicLog ''runtime error: invalid memory address or nil pointer dereference''], l', ()),
      Returned (Inl (StatusErr CodeInternal ''Internal server error: runtime error: invalid memory address or nil pointer dereference'')))"
proof -
  let ?l = "NewRateLimiter wit_rates wit_limited"
  have "snd (Allow wit_rates 0 ?l) = True" "UserRoleFromContext wit_request = (''ADMIN'', True)"
    "gm_get (rt_roleLims ?l) ''ADMIN'' = None" "\<not> has_user_limit ?l"
    by (simp_all add: Allow_def wit_rates_def wit_limited_def NewRateLimiter_def UserRoleFromContext_def wit_request_def gm_get_def has_user_limit_def)
  then show ?thesis
    using rate_limit_guards[where R = wit_rates and ?t1.0 = 0 and ?t2.0 = 0 and l = ?l and h = "\<lambda>cx s. (s, Returned (Inr s))"
      and cx = wit_request and s = "()" and lg = "[]", THEN conjunct2, THEN conjunct2, THEN conjunct2, rule_format, of "''ADMIN''"] by simp
qed

end
