(* ===== verification/Order_Domain.thy ===== *)
theory Order_Domain
  imports Proto Go_Map
begin

text \<open>
  Orders of the order service: the domain types (\<open>order-service/internal/domain/order.go\<close>), the
  mappers to and from the protobuf messages (\<open>order-service/internal/mapper\<close>) and the in-memory
  repository (\<open>order-service/internal/adapters/inmemory/repository.go\<close>). Decimals and timestamps
  are values of libraries: type parameters, with the libraries' functions as arguments.
\<close>

section \<open>Domain\<close>

type_synonym OrderType = string
type_synonym OrderStatus = string

definition OrderTypeBuy :: OrderType where "OrderTypeBuy = ''BUY''"
definition OrderTypeSell :: OrderType where "OrderTypeSell = ''SELL''"

definition OrderStatusCreated :: OrderStatus where "OrderStatusCreated = ''CREATED''"
definition OrderStatusPending :: OrderStatus where "OrderStatusPending = ''PENDING''"
definition OrderStatusFilled :: OrderStatus where "OrderStatusFilled = ''FILLED''"
definition OrderStatusPartiallyFilled :: OrderStatus where "OrderStatusPartiallyFilled = ''PARTIALLY_FILLED''"
definition OrderStatusCanceled :: OrderStatus where "OrderStatusCanceled = ''CANCELLED''"
definition OrderStatusRejected :: OrderStatus where "OrderStatusRejected = ''REJECTED''"

lemmas order_consts = OrderTypeBuy_def OrderTypeSell_def OrderStatusCreated_def OrderStatusPending_def
  OrderStatusFilled_def OrderStatusPartiallyFilled_def OrderStatusCanceled_def OrderStatusRejected_def

record 'd order =
  or_ID :: string
  or_UserID :: string
  or_MarketID :: string
  or_Type :: OrderType
  or_Price :: 'd
  or_Quantity :: 'd
  or_FilledQuantity :: 'd
  or_Status :: OrderStatus
  or_CreatedAt :: time
  or_UpdatedAt :: time

record 'd order_market =
  om_ID :: string
  om_Symbol :: string
  om_BaseCurrency :: string
  om_QuoteCurrency :: string
  om_Enabled :: bool
  om_DeletedAt :: "time option"
  om_MinOrderSize :: 'd
  om_MaxOrderSize :: 'd
  om_PriceIncrement :: 'd
  om_SizeIncrement :: 'd
  om_AllowedRoles :: "string list"

definition order_market_IsActive :: "'d order_market \<Rightarrow> bool" where
  "order_market_IsActive m \<longleftrightarrow> om_Enabled m \<and> om_DeletedAt m = None"

section \<open>Mappers\<close>

definition OrderTypeToProto :: "OrderType \<Rightarrow> order_type" where
  "OrderTypeToProto t =
     (if t = OrderTypeBuy then ORDER_TYPE_BUY else if t = OrderTypeSell then ORDER_TYPE_SELL
      else ORDER_TYPE_UNSPECIFIED)"

fun OrderTypeFromProto :: "order_type \<Rightarrow> OrderType" where
  "OrderTypeFromProto ORDER_TYPE_BUY = OrderTypeBuy"
| "OrderTypeFromProto ORDER_TYPE_SELL = OrderTypeSell"
| "OrderTypeFromProto _ = ''''"

definition OrderStatusToProto :: "OrderStatus \<Rightarrow> order_status" where
  "OrderStatusToProto s =
     (if s = OrderStatusCreated then ORDER_STATUS_CREATED
      else if s = OrderStatusPending then ORDER_STATUS_PENDING
      else if s \<in> {OrderStatusFilled, OrderStatusPartiallyFilled} then ORDER_STATUS_FILLED
      else if s = OrderStatusCanceled then ORDER_STATUS_CANCELLED
      else if s = OrderStatusRejected then ORDER_STATUS_REJECTED
      else ORDER_STATUS_UNSPECIFIED)"

fun OrderStatusFromProto :: "order_status \<Rightarrow> OrderStatus" where
  "OrderStatusFromProto ORDER_STATUS_CREATED = OrderStatusCreated"
| "OrderStatusFromProto ORDER_STATUS_PENDING = OrderStatusPending"
| "OrderStatusFromProto ORDER_STATUS_FILLED = OrderStatusFilled"
| "OrderStatusFromProto ORDER_STATUS_CANCELLED = OrderStatusCanceled"
| "OrderStatusFromProto ORDER_STATUS_REJECTED = OrderStatusRejected"
| "OrderStatusFromProto _ = ''''"

definition order_ToProto :: "(time \<Rightarrow> 'ts) \<Rightarrow> ('d \<Rightarrow> string) \<Rightarrow> 'd order option \<Rightarrow> 'ts order_pb option" where
  "order_ToProto newts str op =
     (case op of None \<Rightarrow> None | Some r \<Rightarrow> Some
        \<lparr>o_OrderId = or_ID r, o_UserId = or_UserID r, o_MarketId = or_MarketID r,
         o_Type = OrderTypeToProto (or_Type r), o_Status = OrderStatusToProto (or_Status r),
         o_Price = str (or_Price r), o_Quantity = str (or_Quantity r),
         o_FilledQuantity = str (or_FilledQuantity r),
         o_CreatedAt = Some (newts (or_CreatedAt r)), o_UpdatedAt = Some (newts (or_UpdatedAt r))\<rparr>)"

text \<open>The decimal parser's errors are dropped; \<open>astime\<close> also accepts a nil timestamp.\<close>

definition order_ToDomain ::
  "('ts option \<Rightarrow> time) \<Rightarrow> (string \<Rightarrow> 'd \<times> err option) \<Rightarrow> 'ts order_pb option \<Rightarrow> 'd order option" where
  "order_ToDomain astime newFromString pp =
     (case pp of None \<Rightarrow> None | Some p \<Rightarrow> Some
        \<lparr>or_ID = o_OrderId p, or_UserID = o_UserId p, or_MarketID = o_MarketId p,
         or_Type = OrderTypeFromProto (o_Type p),
         or_Price = fst (newFromString (o_Price p)), or_Quantity = fst (newFromString (o_Quantity p)),
         or_FilledQuantity = fst (newFromString (o_FilledQuantity p)),
         or_Status = OrderStatusFromProto (o_Status p),
         or_CreatedAt = astime (o_CreatedAt p), or_UpdatedAt = astime (o_UpdatedAt p)\<rparr>)"

definition ToDomainMarket :: "(string \<Rightarrow> 'd \<times> err option) \<Rightarrow> 'ts market_pb option \<Rightarrow> 'd order_market option" where
  "ToDomainMarket newFromString pb =
     (case pb of None \<Rightarrow> None | Some m \<Rightarrow> Some
        \<lparr>om_ID = m_MarketId m, om_Symbol = m_Symbol m, om_BaseCurrency = m_BaseCurrency m,
         om_QuoteCurrency = m_QuoteCurrency m, om_Enabled = m_Enabled m, om_DeletedAt = None,
         om_MinOrderSize = fst (newFromString (m_MinOrderSize m)),
         om_MaxOrderSize = fst (newFromString (m_MaxOrderSize m)),
         om_PriceIncrement = fst (newFromString (m_PriceIncrement m)),
         om_SizeIncrement = fst (newFromString (m_SizeIncrement m)), om_AllowedRoles = []\<rparr>)"

text \<open>Reading back the message of an order gives the order, except that a status or a type the
  message cannot carry is replaced: a partially filled order comes back as filled.\<close>

lemma order_mapping_roundtrip:
  assumes "\<forall>t. astime (Some (newts t)) = t" and "\<forall>d. newFromString (str d) = (d, None)"
  shows "order_ToDomain astime newFromString (order_ToProto newts str (Some r)) =
    Some (r\<lparr>or_Type := if or_Type r \<in> {OrderTypeBuy, OrderTypeSell} then or_Type r else '''',
      or_Status := if or_Status r = OrderStatusPartiallyFilled then OrderStatusFilled
        else if or_Status r \<in> {OrderStatusCreated, OrderStatusPending, OrderStatusFilled, OrderStatusCanceled, OrderStatusRejected}
          then or_Status r else ''''\<rparr>)"
  using assms
  by (cases r) (simp add: order_ToDomain_def order_ToProto_def OrderTypeToProto_def OrderStatusToProto_def order_consts)

lemma order_mapping_roundtrip_witness:
  "map_option or_Status (order_ToDomain (\<lambda>t. case t of Some x \<Rightarrow> x | None \<Rightarrow> 0) (\<lambda>s. (s, None))
     (order_ToProto (\<lambda>t. t) (\<lambda>d. d) (Some \<lparr>or_ID = ''o'', or_UserID = ''u'', or_MarketID = ''m'', or_Type = OrderTypeBuy,
        or_Price = ''1'', or_Quantity = ''1'', or_FilledQuantity = ''0'', or_Status = OrderStatusPartiallyFilled,
        or_CreatedAt = 1, or_UpdatedAt = 2\<rparr>))) = Some OrderStatusFilled"
  by (subst order_mapping_roundtrip) simp_all

section \<open>The in-memory repository\<close>

type_synonym 'ts order_store = "(string, 'ts order_pb) gomap"

definition order_Save :: "poll \<Rightarrow> 'ts order_pb \<Rightarrow> 'ts order_store \<Rightarrow> 'ts order_store \<times> unit result" where
  "order_Save p ord r =
     (case p of Some e \<Rightarrow> (r, Inl (CtxErr e)) | None \<Rightarrow> (gm_put (o_OrderId ord) ord r, Inr ()))"

text \<open>The stored pointer is returned; a nil order with a nil error is an answer of the port (the
  PostgreSQL repository gives it), not of this repository.\<close>

definition order_GetByID :: "poll \<Rightarrow> string \<Rightarrow> 'ts order_store \<Rightarrow> 'ts order_pb option result" where
  "order_GetByID p i r =
     polled p (case gm_get r i of
        Some ord \<Rightarrow> Inr (Some ord) | None \<Rightarrow> Inl (Sentinel (OrderMem MemErrOrderNotFound)))"

fun collect_user :: "string \<Rightarrow> 'ts order_pb list \<Rightarrow> 'ts order_pb list" where
  "collect_user uid [] = []"
| "collect_user uid (r # rs) = (if o_UserId r = uid then r # collect_user uid rs else collect_user uid rs)"

definition order_ListByUser :: "poll \<Rightarrow> nat \<Rightarrow> string \<Rightarrow> 'ts order_store \<Rightarrow> 'ts order_pb list result" where
  "order_ListByUser p seed uid r = polled p (Inr (collect_user uid (map snd (range_order seed r))))"

fun count_user :: "string \<Rightarrow> 'ts order_pb list \<Rightarrow> int \<Rightarrow> int" where
  "count_user uid [] n = n"
| "count_user uid (r # rs) n = (if o_UserId r = uid then count_user uid rs (n + 1) else count_user uid rs n)"

definition order_CountByUser :: "poll \<Rightarrow> nat \<Rightarrow> string \<Rightarrow> 'ts order_store \<Rightarrow> int result" where
  "order_CountByUser p seed uid r = polled p (Inr (count_user uid (map snd (range_order seed r)) 0))"

text \<open>Every order is stored under its identifier.\<close>

definition order_store_ok :: "'ts order_store \<Rightarrow> bool" where
  "order_store_ok r \<longleftrightarrow> gm_ok r \<and> (\<forall>i ord. gm_get r i = Some ord \<longrightarrow> o_OrderId ord = i)"

definition user_orders :: "string \<Rightarrow> 'ts order_store \<Rightarrow> string set" where
  "user_orders uid r = {i. \<exists>ord. gm_get r i = Some ord \<and> o_UserId ord = uid}"

lemma order_store_ok_Nil [inv_intro]: "order_store_ok []"
  by (simp add: order_store_ok_def)

lemma order_Save_ok [inv_intro]: "order_store_ok r \<Longrightarrow> order_store_ok (fst (order_Save p ord r))"
  by (cases p) (simp_all add: order_store_ok_def order_Save_def)

lemma collect_user_filter: "collect_user uid rs = filter (\<lambda>r. o_UserId r = uid) rs"
  by (induction rs) auto

lemma count_user_length: "count_user uid rs n = n + int (length (collect_user uid rs))"
  by (induction rs arbitrary: n) auto

lemma length_collect_order: "length (collect_user uid (map snd (range_order seed r))) = length (collect_user uid (map snd r))"
  unfolding collect_user_filter
  by (rule mset_eq_length) (metis mset_filter mset_map mset_range_order)

lemma user_orders_image: "gm_ok r \<Longrightarrow> user_orders uid r = fst ` set (filter (\<lambda>e. o_UserId (snd e) = uid) r)"
  by (auto simp: user_orders_def gm_get_iff image_iff)

lemma finite_user_orders [simp]: "gm_ok r \<Longrightarrow> finite (user_orders uid r)"
  by (simp add: user_orders_image)

lemma card_user_orders: "gm_ok r \<Longrightarrow> card (user_orders uid r) = length (collect_user uid (map snd r))"
proof -
  assume ok: "gm_ok r"
  then have "distinct (map fst (filter (\<lambda>e. o_UserId (snd e) = uid) r))"
    by (simp add: gm_ok_def distinct_map_filter)
  then have "card (user_orders uid r) = length (filter (\<lambda>e. o_UserId (snd e) = uid) r)"
    using ok user_orders_image[of r uid] distinct_card[of "map fst (filter (\<lambda>e. o_UserId (snd e) = uid) r)"] by simp
  then show ?thesis by (simp add: collect_user_filter filter_map o_def)
qed

lemma order_CountByUser_card: "gm_ok r \<Longrightarrow> order_CountByUser None seed uid r = Inr (int (card (user_orders uid r)))"
  by (simp add: order_CountByUser_def count_user_length length_collect_order card_user_orders)

lemma user_orders_Save:
  "gm_ok r \<Longrightarrow> gm_get r (o_OrderId ord) = None \<Longrightarrow>
   user_orders uid (gm_put (o_OrderId ord) ord r) =
     (if o_UserId ord = uid then insert (o_OrderId ord) (user_orders uid r) else user_orders uid r)"
  by (auto simp: user_orders_def)

end
