(* ===== verification/Order_Service.thy ===== *)
theory Order_Service
  imports Order_Domain Uid
begin

text \<open>
  The order service (\<open>order-service/internal/service/order_service.go\<close>) over its ports
  (\<open>order-service/internal/ports\<close>): the repository and, when there is one, the market client.
  \<open>CreateOrder\<close> is three atomic parts in sequence, the check of the limit, the check of the market
  and the store, between which other calls run; the parts are definitions of their own.
\<close>

section \<open>Ports\<close>

record ('r, 'ts) order_ops =
  op_Save :: "poll \<Rightarrow> 'ts order_pb \<Rightarrow> 'r \<Rightarrow> 'r \<times> unit result"
  op_GetByID :: "poll \<Rightarrow> string \<Rightarrow> 'r \<Rightarrow> 'ts order_pb option result"
  op_ListByUser :: "poll \<Rightarrow> nat \<Rightarrow> string \<Rightarrow> 'r \<Rightarrow> 'ts order_pb list result"
  op_CountByUser :: "poll \<Rightarrow> nat \<Rightarrow> string \<Rightarrow> 'r \<Rightarrow> int result"

text \<open>The market client keeps a state of its own (a circuit breaker, a remote service).\<close>

record 'c market_client =
  mc_CheckMarketActive :: "ctx \<Rightarrow> string \<Rightarrow> 'c \<Rightarrow> 'c \<times> bool result"

text \<open>What the limit on orders needs of a repository: a set of identifiers for each user, in the
  repository's own form \<open>canon\<close> of an identifier, that counting counts and that storing an order extends by
  at most that order.\<close>

locale order_counter =
  fixes ops :: "('r, 'ts) order_ops"
    and canon :: "string \<Rightarrow> string"
    and owned :: "string \<Rightarrow> 'r \<Rightarrow> string set"
    and oinv :: "'r \<Rightarrow> bool"
  assumes saved_inv: "oinv r \<Longrightarrow> oinv (fst (op_Save ops p ord r))"
    and saved_owned: "oinv r \<Longrightarrow> owned u (fst (op_Save ops p ord r)) \<subseteq>
      (if canon (o_UserId ord) = u then insert (canon (o_OrderId ord)) (owned u r) else owned u r)"
    and counted: "oinv r \<Longrightarrow> op_CountByUser ops p seed uid r = Inr n \<Longrightarrow>
      finite (owned (canon uid) r) \<and> n = int (card (owned (canon uid) r))"
begin

lemma saved_card:
  assumes "oinv r" and "finite (owned u r)"
  shows "finite (owned u (fst (op_Save ops p ord r))) \<and>
    card (owned u (fst (op_Save ops p ord r))) \<le> card (owned u r) + (if canon (o_UserId ord) = u then 1 else 0)"
proof -
  let ?S = "if canon (o_UserId ord) = u then insert (canon (o_OrderId ord)) (owned u r) else owned u r"
  have "owned u (fst (op_Save ops p ord r)) \<subseteq> ?S" and "finite ?S" using saved_owned[OF assms(1)] assms(2) by simp_all
  then have "finite (owned u (fst (op_Save ops p ord r)))" "card (owned u (fst (op_Save ops p ord r))) \<le> card ?S"
    by (simp_all add: finite_subset card_mono)
  moreover have "card ?S \<le> card (owned u r) + (if canon (o_UserId ord) = u then 1 else 0)"
    using assms(2) by (simp add: card_insert_if)
  ultimately show ?thesis by linarith
qed

end

text \<open>What the service relies on: the orders a repository holds are those that were saved, by
  their identifiers, and counting counts a user's orders whatever their status.\<close>

locale order_repository =
  fixes ops :: "('r, 'ts) order_ops"
    and orders_of :: "'r \<Rightarrow> string \<Rightarrow> 'ts order_pb option"
    and oinv :: "'r \<Rightarrow> bool"
  assumes save_ok: "oinv r \<Longrightarrow> snd (op_Save ops p ord r) = Inr () \<Longrightarrow>
      orders_of (fst (op_Save ops p ord r)) = (orders_of r)(o_OrderId ord \<mapsto> ord)"
    and save_failed: "oinv r \<Longrightarrow> snd (op_Save ops p ord r) = Inl e \<Longrightarrow> orders_of (fst (op_Save ops p ord r)) = orders_of r"
    and save_inv: "oinv r \<Longrightarrow> oinv (fst (op_Save ops p ord r))"
    and get_ok: "oinv r \<Longrightarrow> op_GetByID ops p i r = Inr (Some ord) \<Longrightarrow> orders_of r i = Some ord"
    and count_ok: "oinv r \<Longrightarrow> op_CountByUser ops p seed uid r = Inr n \<Longrightarrow>
      finite {i. \<exists>ord. orders_of r i = Some ord \<and> o_UserId ord = uid} \<and>
      n = int (card {i. \<exists>ord. orders_of r i = Some ord \<and> o_UserId ord = uid})"
    and list_ok: "oinv r \<Longrightarrow> op_ListByUser ops p seed uid r = Inr xs \<Longrightarrow>
      distinct xs \<and> set xs = {ord. orders_of r (o_OrderId ord) = Some ord \<and> o_UserId ord = uid}"
begin

text \<open>The identifiers of a user's orders.\<close>

definition owned_by :: "string \<Rightarrow> 'r \<Rightarrow> string set" where
  "owned_by uid r = {i. \<exists>ord. orders_of r i = Some ord \<and> o_UserId ord = uid}"

lemma save_owned_by:
  assumes "oinv r"
  shows "owned_by u (fst (op_Save ops p ord r)) \<subseteq> (if o_UserId ord = u then insert (o_OrderId ord) (owned_by u r) else owned_by u r)"
proof (cases "snd (op_Save ops p ord r)")
  case (Inl e)
  then show ?thesis using save_failed[OF assms Inl] by (auto simp: owned_by_def)
next
  case (Inr x)
  then show ?thesis using save_ok[OF assms, of p ord] by (auto simp: owned_by_def)
qed

end

sublocale order_repository \<subseteq> counter: order_counter ops id owned_by oinv
proof (unfold_locales, goal_cases)
  case (1 r p ord)
  then show ?case by (rule save_inv)
next
  case (2 r u p ord)
  then show ?case using save_owned_by[of r u p ord] by (auto split: if_splits)
next
  case (3 r p seed uid n)
  then show ?case using count_ok[of r p seed uid n] by (simp add: owned_by_def)
qed

section \<open>The service\<close>

definition MaxOpenOrdersPerUser :: int where
  "MaxOpenOrdersPerUser = 500"

record create_command =
  cmd_OrderID :: string
  cmd_UserID :: string
  cmd_MarketID :: string
  cmd_Type :: order_type
  cmd_Price :: string
  cmd_Quantity :: string

text \<open>What one call reads from its surroundings: the context at its own poll, in \<open>CountByUser\<close>, in
  the market check and in \<open>Save\<close>, the order of the range loop, and the new identifier.\<close>

record create_env =
  ce_poll :: poll
  ce_count :: poll
  ce_seed :: nat
  ce_check :: ctx
  ce_save :: poll
  ce_orderID :: string

definition create_begin ::
  "(string \<Rightarrow> bool) \<Rightarrow> ('r, 'ts) order_ops \<Rightarrow> create_env \<Rightarrow> create_command \<Rightarrow> 'r \<Rightarrow> err option"
where
  "create_begin parses ops E cmd r =
     (case uid_Validate parses (cmd_MarketID cmd) ''market_id'' of Some e \<Rightarrow> Some e | None \<Rightarrow>
      (case uid_Validate parses (cmd_UserID cmd) ''user_id'' of Some e \<Rightarrow> Some e | None \<Rightarrow>
       (case ce_poll E of Some e \<Rightarrow> Some (CtxErr e) | None \<Rightarrow>
        (case op_CountByUser ops (ce_count E) (ce_seed E) (cmd_UserID cmd) r of
           Inl e \<Rightarrow> Some (Wrapf ''check order limit'' e)
         | Inr n \<Rightarrow>
             if n \<ge> MaxOpenOrdersPerUser then Some (Sentinel (OrderSvc OErrTooManyOrders)) else None))))"

text \<open>An error of the market check is logged only.\<close>

definition create_check :: "'c market_client option \<Rightarrow> create_env \<Rightarrow> create_command \<Rightarrow> 'c \<Rightarrow> 'c \<times> err option" where
  "create_check client E cmd c =
     (case client of
        None \<Rightarrow> (c, None)
      | Some m \<Rightarrow>
          (case mc_CheckMarketActive m (ce_check E) (cmd_MarketID cmd) c of
             (c', Inl e) \<Rightarrow> (c', None)
           | (c', Inr active) \<Rightarrow> (c', if \<not> active then Some (Sentinel (OrderSvc OErrInvalidMarket)) else None)))"

definition new_order :: "create_env \<Rightarrow> create_command \<Rightarrow> 'ts order_pb" where
  "new_order E cmd =
     \<lparr>o_OrderId = ce_orderID E, o_UserId = cmd_UserID cmd, o_MarketId = cmd_MarketID cmd,
      o_Type = cmd_Type cmd, o_Status = ORDER_STATUS_PENDING, o_Price = cmd_Price cmd,
      o_Quantity = cmd_Quantity cmd, o_FilledQuantity = ''0'', o_CreatedAt = None, o_UpdatedAt = None\<rparr>"

definition create_save :: "('r, 'ts) order_ops \<Rightarrow> create_env \<Rightarrow> create_command \<Rightarrow> 'r \<Rightarrow> 'r \<times> 'ts order_pb result" where
  "create_save ops E cmd r =
     (let ord = new_order E cmd
      in case op_Save ops (ce_save E) ord r of
        (r', Inl e) \<Rightarrow> (r', Inl (Wrapf ''failed to save order'' e))
      | (r', Inr _) \<Rightarrow> (r', Inr ord))"

definition order_CreateOrder ::
  "(string \<Rightarrow> bool) \<Rightarrow> ('r, 'ts) order_ops \<Rightarrow> 'c market_client option \<Rightarrow> create_env \<Rightarrow> create_command \<Rightarrow>
   'r \<times> 'c \<Rightarrow> ('r \<times> 'c) \<times> 'ts order_pb result"
where
  "order_CreateOrder parses ops client E cmd st = (case st of (r, c) \<Rightarrow>
     case create_begin parses ops E cmd r of
       Some e \<Rightarrow> (st, Inl e)
     | None \<Rightarrow>
         (case create_check client E cmd c of
            (c', Some e) \<Rightarrow> ((r, c'), Inl e)
          | (c', None) \<Rightarrow> (case create_save ops E cmd r of (r', res) \<Rightarrow> ((r', c'), res))))"

definition order_GetOrder :: "('r, 'ts) order_ops \<Rightarrow> ctx \<Rightarrow> string \<Rightarrow> 'r \<Rightarrow> 'ts order_pb option result" where
  "order_GetOrder ops cx i r = polled (cx 0) (op_GetByID ops (cx 1) i r)"

definition order_ListOrders :: "('r, 'ts) order_ops \<Rightarrow> ctx \<Rightarrow> nat \<Rightarrow> string \<Rightarrow> 'r \<Rightarrow> 'ts order_pb list result" where
  "order_ListOrders ops cx seed uid r = polled (cx 0) (op_ListByUser ops (cx 1) seed uid r)"

lemma new_order_simps [simp]:
  "o_OrderId (new_order E cmd) = ce_orderID E" "o_UserId (new_order E cmd) = cmd_UserID cmd"
  "o_MarketId (new_order E cmd) = cmd_MarketID cmd" "o_Status (new_order E cmd) = ORDER_STATUS_PENDING"
  by (simp_all add: new_order_def)

section \<open>The in-memory repository provides the port\<close>

definition memory_orders :: "('ts order_store, 'ts) order_ops" where
  "memory_orders = \<lparr>op_Save = order_Save, op_GetByID = order_GetByID, op_ListByUser = order_ListByUser,
     op_CountByUser = order_CountByUser\<rparr>"

lemma memory_orders_simps [simp]:
  "op_Save memory_orders = order_Save" "op_GetByID memory_orders = order_GetByID"
  "op_ListByUser memory_orders = order_ListByUser" "op_CountByUser memory_orders = order_CountByUser"
  by (simp_all add: memory_orders_def)

lemma order_ListByUser_exact:
  assumes ok: "order_store_ok r" and xs: "order_ListByUser p seed uid r = Inr xs"
  shows "distinct xs \<and> set xs = {ord. gm_get r (o_OrderId ord) = Some ord \<and> o_UserId ord = uid}"
proof -
  have gm: "gm_ok r" and ids: "\<And>i ord. gm_get r i = Some ord \<Longrightarrow> o_OrderId ord = i"
    using ok by (auto simp: order_store_ok_def)
  have x: "xs = filter (\<lambda>e. o_UserId e = uid) (map snd (range_order seed r))"
    using xs by (simp add: order_ListByUser_def collect_user_filter)
  have "map fst r = map (o_OrderId \<circ> snd) r"
    using ids gm by (auto simp: gm_get_iff)
  then have "map o_OrderId (map snd r) = map fst r" by simp
  then have "distinct (map o_OrderId (map snd r))" using gm unfolding gm_ok_def by argo
  then have "distinct (map snd r)" by (simp only: distinct_map)
  then have "distinct (map snd (range_order seed r))"
    using mset_range_order[of seed r] by (metis mset_eq_imp_distinct_iff mset_map)
  moreover have "set xs = {ord. gm_get r (o_OrderId ord) = Some ord \<and> o_UserId ord = uid}"
  proof -
    have "ord \<in> snd ` set r \<longleftrightarrow> gm_get r (o_OrderId ord) = Some ord" for ord
    proof
      assume "ord \<in> snd ` set r"
      then obtain i where "gm_get r i = Some ord" using gm_in_get[OF gm] by force
      then show "gm_get r (o_OrderId ord) = Some ord" using ids by simp
    qed (use gm_get_in in force)
    then show ?thesis unfolding x by auto
  qed
  ultimately show ?thesis using x by simp
qed

interpretation memory_order_repo: order_repository memory_orders gm_get order_store_ok
proof (unfold_locales, goal_cases)
  case (1 r p ord)
  then show ?case by (cases p) (auto simp: order_Save_def fun_eq_iff)
next
  case (2 r p ord e)
  then show ?case by (cases p) (auto simp: order_Save_def)
next
  case (3 r p ord)
  then show ?case by (simp add: order_Save_ok)
next
  case (4 r p i ord)
  then show ?case by (auto simp: order_GetByID_def split: option.splits)
next
  case (5 r p seed uid n)
  then have ok: "gm_ok r" and p: "p = None" and "order_CountByUser None seed uid r = Inr n"
    by (auto simp: order_store_ok_def order_CountByUser_def)
  then show ?case using order_CountByUser_card[OF ok, of seed uid] finite_user_orders[OF ok, of uid]
    unfolding user_orders_def by simp
next
  case (6 r p seed uid xs)
  then show ?case using order_ListByUser_exact[of r p seed uid xs] by simp
qed

end
