(* ===== verification/Order_Runs.thy ===== *)
theory Order_Runs
  imports Order_Service
begin

text \<open>
  Order creation with calls interleaved: every call is in flight between the check of the limit and
  the store, and the parts of different calls run in any order. A new identifier of
  \<open>uuid.New()\<close> is one that the repository does not hold.
\<close>

datatype stage = Counted | Checked

type_synonym flights = "(stage \<times> create_env \<times> create_command) multiset"

inductive create_step ::
  "(string \<Rightarrow> bool) \<Rightarrow> ('r, 'ts) order_ops \<Rightarrow> ('r \<Rightarrow> string \<Rightarrow> 'ts order_pb option) \<Rightarrow> 'c market_client option \<Rightarrow>
   'r \<times> 'c \<times> flights \<Rightarrow> 'r \<times> 'c \<times> flights \<Rightarrow> bool"
  for parses ops orders_of client where
  rejected: "create_begin parses ops E cmd r = Some e \<Longrightarrow>
    create_step parses ops orders_of client (r, c, F) (r, c, F)"
| begun: "create_begin parses ops E cmd r = None \<Longrightarrow>
    create_step parses ops orders_of client (r, c, F) (r, c, add_mset (Counted, E, cmd) F)"
| refused: "create_check client E cmd c = (c', Some e) \<Longrightarrow>
    create_step parses ops orders_of client (r, c, add_mset (Counted, E, cmd) F) (r, c', F)"
| checked: "create_check client E cmd c = (c', None) \<Longrightarrow>
    create_step parses ops orders_of client (r, c, add_mset (Counted, E, cmd) F) (r, c', add_mset (Checked, E, cmd) F)"
| saved: "create_save ops E cmd r = (r', res) \<Longrightarrow> orders_of r (ce_orderID E) = None \<Longrightarrow>
    create_step parses ops orders_of client (r, c, add_mset (Checked, E, cmd) F) (r', c, F)"

inductive_cases create_stepE: "create_step parses ops orders_of client (r, c, F) (r', c', F')"

text \<open>The calls of a user that are in flight, by the repository's form of the user's identifier.\<close>

definition in_flight_of :: "(string \<Rightarrow> string) \<Rightarrow> string \<Rightarrow> flights \<Rightarrow> nat" where
  "in_flight_of canon u F = size (filter_mset (\<lambda>(st, E, cmd). canon (cmd_UserID cmd) = u) F)"

definition in_flight :: "string \<Rightarrow> flights \<Rightarrow> nat" where
  "in_flight = in_flight_of id"

lemma in_flight_of_simps [simp]:
  "in_flight_of canon u {#} = 0"
  "in_flight_of canon u (add_mset (st, E, cmd) F) = (if canon (cmd_UserID cmd) = u then 1 else 0) + in_flight_of canon u F"
  by (simp_all add: in_flight_of_def)

lemma in_flight_simps [simp]:
  "in_flight uid {#} = 0"
  "in_flight uid (add_mset (st, E, cmd) F) = (if cmd_UserID cmd = uid then 1 else 0) + in_flight uid F"
  by (simp_all add: in_flight_def)

text \<open>A call that runs alone is a run of its parts.\<close>

lemma CreateOrder_steps:
  assumes "order_CreateOrder parses ops client E cmd (r, c) = ((r', c'), res)" and "orders_of r (ce_orderID E) = None"
  shows "(create_step parses ops orders_of client)\<^sup>*\<^sup>* (r, c, F) (r', c', F)"
proof (cases "create_begin parses ops E cmd r")
  case (Some e)
  then show ?thesis using assms(1) by (simp add: order_CreateOrder_def)
next
  case None
  note b = begun[where orders_of = orders_of and client = client, OF None, of c F]
  obtain c1 o1 where chk: "create_check client E cmd c = (c1, o1)" by fastforce
  show ?thesis
  proof (cases o1)
    case (Some e)
    then have "r' = r" "c' = c1" using assms(1) None chk by (simp_all add: order_CreateOrder_def)
    then show ?thesis using b refused[where parses = parses and ops = ops and orders_of = orders_of, of client E cmd c c1 e r F] chk Some
      by (meson converse_rtranclp_into_rtranclp r_into_rtranclp)
  next
    case n: None
    obtain r1 s1 where sv: "create_save ops E cmd r = (r1, s1)" by fastforce
    then have "r' = r1" "c' = c1" using assms(1) None chk n by (simp_all add: order_CreateOrder_def)
    then show ?thesis
      using b checked[where parses = parses and ops = ops and orders_of = orders_of, of client E cmd c c1 r F] chk n
        saved[where parses = parses and client = client and orders_of = orders_of and ops = ops and E = E and cmd = cmd
          and r = r and r' = r1 and res = s1 and c = c1 and F = F, OF sv assms(2)]
      by (meson converse_rtranclp_into_rtranclp r_into_rtranclp)
  qed
qed

context order_counter
begin

lemma begin_below:
  assumes "oinv r" and "create_begin parses ops E cmd r = None"
  shows "finite (owned (canon (cmd_UserID cmd)) r) \<and> card (owned (canon (cmd_UserID cmd)) r) \<le> 499"
proof -
  obtain n where "op_CountByUser ops (ce_count E) (ce_seed E) (cmd_UserID cmd) r = Inr n" "n < 500"
    using assms(2) by (auto simp: create_begin_def MaxOpenOrdersPerUser_def split: option.splits sum.splits if_splits)
  then show ?thesis using counted[OF assms(1)] by fastforce
qed

lemma save_card:
  assumes "oinv r" and "create_save ops E cmd r = (r', res)" and "finite (owned u r)"
  shows "oinv r' \<and> finite (owned u r') \<and>
    card (owned u r') \<le> card (owned u r) + (if canon (cmd_UserID cmd) = u then 1 else 0)"
proof -
  have "r' = fst (op_Save ops (ce_save E) (new_order E cmd) r)"
    using assms(2) by (auto simp: create_save_def Let_def split: prod.splits sum.splits)
  then show ?thesis using saved_card[OF assms(1,3), of "ce_save E" "new_order E cmd"] saved_inv[OF assms(1)] by simp
qed

text \<open>One step: what a user has stored and in flight grows only by a call that began below the limit.\<close>

lemma step_load:
  assumes "create_step parses ops orders_of client (r, c, F) (r', c', F')" and "oinv r" and "finite (owned u r)"
  shows "oinv r' \<and> finite (owned u r') \<and>
    (card (owned u r') + in_flight_of canon u F' \<le> card (owned u r) + in_flight_of canon u F \<or>
     card (owned u r') \<le> 499 \<and> in_flight_of canon u F' = Suc (in_flight_of canon u F))"
  using assms(1)
proof cases
  case (begun E cmd)
  then show ?thesis using begin_below[OF assms(2), of parses E cmd] assms(2,3) by auto
next
  case (saved E cmd res)
  then show ?thesis using save_card[OF assms(2) saved(3) assms(3)] by auto
qed (use assms(2,3) in auto)

lemma load_bound:
  assumes "(\<lambda>x y. create_step parses ops orders_of client x y \<and> in_flight_of canon u (snd (snd y)) \<le> k)\<^sup>*\<^sup>* (r0, c0, F0) (r, c, F)"
    and "oinv r0" and "finite (owned u r0)" and "card (owned u r0) + in_flight_of canon u F0 \<le> 499 + k"
  shows "oinv r \<and> finite (owned u r) \<and> card (owned u r) + in_flight_of canon u F \<le> 499 + k"
  using assms(1)
proof (induction "(r, c, F)" arbitrary: r c F rule: rtranclp_induct)
  case base
  then show ?case using assms by simp
next
  case (step y)
  obtain r1 c1 F1 where y: "y = (r1, c1, F1)" by (cases y)
  show ?case using step step_load[of parses orders_of client r1 c1 F1 r c F u] y by fastforce
qed

end

section \<open>The limit on open orders\<close>

text \<open>C20: starting from an empty repository, however the parts of concurrent calls interleave, a user
  never has more orders than 499 and the number of that user's calls in flight at a time: with one
  call at a time, at most the 500 of the limit.\<close>

theorem order_limit_bound:
  assumes "(\<lambda>x y. create_step parses memory_orders gm_get client x y \<and> in_flight uid (snd (snd y)) \<le> k)\<^sup>*\<^sup>*
      ([], c0, {#}) (r, c, F)"
  shows "order_store_ok r \<and> card (user_orders uid r) + in_flight uid F \<le> 499 + k"
proof -
  have o: "memory_order_repo.owned_by uid = user_orders uid" by (simp add: fun_eq_iff memory_order_repo.owned_by_def user_orders_def)
  have e: "user_orders uid [] = {}" by (simp add: user_orders_def)
  show ?thesis
    using memory_order_repo.counter.load_bound[OF assms[unfolded in_flight_def] order_store_ok_Nil] by (simp add: o e in_flight_def)
qed

theorem order_limit_bound_witness:
  "card (user_orders ''u'' ([] :: unit order_store)) +
     in_flight ''u'' {#(Counted, \<lparr>ce_poll = None, ce_count = None, ce_seed = 0, ce_check = background, ce_save = None, ce_orderID = ''o''\<rparr>,
       \<lparr>cmd_OrderID = '''', cmd_UserID = ''u'', cmd_MarketID = ''m'', cmd_Type = ORDER_TYPE_BUY, cmd_Price = ''1'', cmd_Quantity = ''1''\<rparr>)#} \<le> 500"
    (is "_ + in_flight _ {#(_, ?E, ?cmd)#} \<le> _")
proof -
  have "create_begin (\<lambda>s. True) memory_orders ?E ?cmd ([] :: unit order_store) = None"
    by (simp add: create_begin_def uid_Validate_def IsValid_def order_CountByUser_def MaxOpenOrdersPerUser_def)
  then have "create_step (\<lambda>s. True) memory_orders gm_get (None :: unit market_client option)
      ([] :: unit order_store, (), {#}) ([], (), add_mset (Counted, ?E, ?cmd) {#})" by (rule begun)
  then have "(\<lambda>x y. create_step (\<lambda>s. True) memory_orders gm_get (None :: unit market_client option) x y \<and> in_flight ''u'' (snd (snd y)) \<le> 1)\<^sup>*\<^sup>*
      ([] :: unit order_store, (), {#}) ([], (), {#(Counted, ?E, ?cmd)#})" by (intro r_into_rtranclp) simp
  from order_limit_bound[OF this] show ?thesis by simp
qed

end
