(* ===== verification/Circuit_Breaker.thy ===== *)
theory Circuit_Breaker
  imports Complex_Main Errors "HOL-Library.Word"
begin

text \<open>
  The circuit breaker wrapper (\<open>shared/resilience/circuit_breaker.go\<close>). The state machine is that
  of \<open>github.com/sony/gobreaker\<close>, a parameter: \<open>gb_before\<close> accepts or rejects a request,
  \<open>gb_after\<close> notes whether it succeeded. The counters are 32-bit numbers.
\<close>

record counts =
  cn_Requests :: "32 word"
  cn_TotalSuccesses :: "32 word"
  cn_TotalFailures :: "32 word"
  cn_ConsecutiveSuccesses :: "32 word"
  cn_ConsecutiveFailures :: "32 word"

text \<open>The quotient of two \<open>float64\<close> numbers is the exact one rounded: \<open>rnd\<close> is the rounding, and
  the constant 0.6 is rounded by the compiler in the same way.\<close>

definition ready_to_trip :: "(rat \<Rightarrow> rat) \<Rightarrow> counts \<Rightarrow> bool" where
  "ready_to_trip rnd c =
     (if cn_Requests c < 5 then False
      else let failureRatio = rnd (of_nat (unat (cn_TotalFailures c)) / of_nat (unat (cn_Requests c)))
        in failureRatio \<ge> rnd (6 / 10))"

text \<open>What IEEE 754 promises of rounding to nearest in the range of these quotients.\<close>

definition rounds :: "(rat \<Rightarrow> rat) \<Rightarrow> bool" where
  "rounds rnd \<longleftrightarrow> mono rnd \<and> (\<forall>x. 0 \<le> x \<longrightarrow> x \<le> 2 ^ 32 \<longrightarrow> \<bar>rnd x - x\<bar> \<le> x / 2 ^ 53)"

record ('b) breaker_lib =
  gb_before :: "time \<Rightarrow> 'b \<Rightarrow> 'b \<times> err option"
  gb_after :: "time \<Rightarrow> bool \<Rightarrow> 'b \<Rightarrow> 'b"
  gb_open :: "time \<Rightarrow> 'b \<Rightarrow> bool"
  gb_state :: "time \<Rightarrow> 'b \<Rightarrow> string"
  gb_counts :: "'b \<Rightarrow> counts"

text \<open>The configuration. A callback of a state change gets the name, both states and the log \<open>'l\<close> it writes to.\<close>

type_synonym 'l on_change = "string \<Rightarrow> string \<Rightarrow> string \<Rightarrow> 'l \<Rightarrow> 'l"

record 'l breaker_config =
  bc_Name :: string
  bc_Timeout :: duration
  bc_MaxRequests :: "32 word"
  bc_Interval :: duration
  bc_ReadyToTrip :: "counts \<Rightarrow> bool"
  bc_OnStateChange :: "'l on_change option"

definition DefaultCircuitBreakerConfig :: "(rat \<Rightarrow> rat) \<Rightarrow> string \<Rightarrow> 'l breaker_config" where
  "DefaultCircuitBreakerConfig rnd name =
     \<lparr>bc_Name = name, bc_Timeout = 30 * second, bc_MaxRequests = 5, bc_Interval = 30 * second,
      bc_ReadyToTrip = ready_to_trip rnd, bc_OnStateChange = None\<rparr>"

text \<open>The settings that \<open>NewCircuitBreaker\<close> hands to the library, whose callback is always there.\<close>

definition NewCircuitBreaker :: "('l breaker_config \<Rightarrow> 'b) \<Rightarrow> 'l breaker_config \<Rightarrow> 'b" where
  "NewCircuitBreaker gobreaker config =
     gobreaker (config\<lparr>bc_OnStateChange :=
       Some (\<lambda>name from to log. case bc_OnStateChange config of None \<Rightarrow> log | Some f \<Rightarrow> f name from to log)\<rparr>)"

text \<open>
  \<open>Execute\<close>: \<open>p\<close> is the poll of the context, \<open>outcome\<close> what the function returns when it ends, and
  \<open>expired\<close> the context's error when the \<open>select\<close> takes that case first. The function runs on in its
  goroutine then, and its outcome is dropped.
\<close>

definition cb_Execute ::
  "'b breaker_lib \<Rightarrow> poll \<Rightarrow> time \<Rightarrow> time \<Rightarrow> poll \<Rightarrow> 'a result \<Rightarrow> 'b \<Rightarrow> 'b \<times> 'a result"
where
  "cb_Execute B p t1 t2 expired outcome b =
     (case p of Some e \<Rightarrow> (b, Inl (CtxErr e)) | None \<Rightarrow>
      (case gb_before B t1 b of
         (b1, Some e) \<Rightarrow> (b1, Inl e)
       | (b1, None) \<Rightarrow>
           let res = (case expired of Some e \<Rightarrow> Inl (CtxErr e) | None \<Rightarrow> outcome)
           in (gb_after B t2 (\<not> isl res) b1, res)))"

record cb_stats =
  cs_Name :: string
  cs_State :: string
  cs_FailureCount :: int
  cs_SuccessCount :: int
  cs_TotalRequests :: int
  cs_RejectedRequests :: int

definition cb_IsOpen :: "'b breaker_lib \<Rightarrow> time \<Rightarrow> 'b \<Rightarrow> bool" where
  "cb_IsOpen B now b = gb_open B now b"

definition cb_Stats :: "'b breaker_lib \<Rightarrow> string \<Rightarrow> time \<Rightarrow> 'b \<Rightarrow> cb_stats" where
  "cb_Stats B name now b =
     (let c = gb_counts B b
      in \<lparr>cs_Name = name, cs_State = gb_state B now b, cs_FailureCount = uint (cn_TotalFailures c),
          cs_SuccessCount = uint (cn_ConsecutiveSuccesses c), cs_TotalRequests = uint (cn_Requests c),
          cs_RejectedRequests = uint (cn_Requests c - cn_TotalFailures c)\<rparr>)"

text \<open>The functions over the port: a breaker of another type is \<open>None\<close>.\<close>

definition cb_GetState :: "'b breaker_lib \<Rightarrow> time \<Rightarrow> 'b option \<Rightarrow> string" where
  "cb_GetState B now cb = (case cb of Some b \<Rightarrow> gb_state B now b | None \<Rightarrow> ''unknown'')"

definition cb_GetCounts :: "'b breaker_lib \<Rightarrow> 'b option \<Rightarrow> counts" where
  "cb_GetCounts B cb =
     (case cb of Some b \<Rightarrow> gb_counts B b
      | None \<Rightarrow> \<lparr>cn_Requests = 0, cn_TotalSuccesses = 0, cn_TotalFailures = 0, cn_ConsecutiveSuccesses = 0, cn_ConsecutiveFailures = 0\<rparr>)"

text \<open>What the statistics call rejected requests are the successes and the requests that run: when every request has
  ended, as many as there are successes.\<close>

lemma cb_Stats_rejected:
  assumes "cn_Requests (gb_counts B b) = cn_TotalSuccesses (gb_counts B b) + cn_TotalFailures (gb_counts B b)"
  shows "cs_RejectedRequests (cb_Stats B name now b) = uint (cn_TotalSuccesses (gb_counts B b))"
  using assms by (simp add: cb_Stats_def Let_def)

lemma cb_Execute_Inr:
  "cb_Execute B p t1 t2 expired outcome b = (b', Inr x) \<Longrightarrow> p = None \<and> snd (gb_before B t1 b) = None \<and> expired = None \<and> outcome = Inr x"
  by (auto simp: cb_Execute_def Let_def split: option.splits prod.splits)

lemma trip_ratio:
  assumes "rounds rnd" and "0 < b" and "b < 2 ^ 32" and "a < 2 ^ 32"
  shows "rnd (of_nat a / of_nat b) \<ge> rnd (6 / 10) \<longleftrightarrow> 3 * b \<le> 5 * (a :: nat)"
proof
  have m: "mono rnd" using assms(1) by (simp add: rounds_def)
  show "rnd (of_nat a / of_nat b) \<ge> rnd (6 / 10)" if "3 * b \<le> 5 * a"
  proof (rule monoD[OF m])
    have "rat_of_nat (3 * b) \<le> rat_of_nat (5 * a)" using that by (simp only: of_nat_le_iff)
    then show "(6 / 10 :: rat) \<le> of_nat a / of_nat b" using assms(2) by (simp add: field_simps)
  qed
  show "3 * b \<le> 5 * a" if r: "rnd (of_nat a / of_nat b) \<ge> rnd (6 / 10)"
  proof (rule ccontr)
    assume "\<not> 3 * b \<le> 5 * a"
    then have "5 * a + 1 \<le> 3 * b" by simp
    then have "rat_of_nat (5 * a + 1) \<le> rat_of_nat (3 * b)" by (simp only: of_nat_le_iff)
    then have gap: "of_nat a / of_nat b + 1 / (5 * of_nat b) \<le> (6 / 10 :: rat)" using assms(2) by (simp add: field_simps)
    let ?x = "of_nat a / of_nat b :: rat"
    have pos: "0 \<le> ?x" "0 \<le> 1 / (5 * rat_of_nat b)" by simp_all
    have x6: "?x \<le> 6 / 10" using gap pos(2) by linarith
    also have "(6 / 10 :: rat) \<le> 2 ^ 32" by simp
    finally have x: "0 \<le> ?x" "?x \<le> 2 ^ 32" using pos(1) by blast+
    have err: "\<And>y. 0 \<le> y \<Longrightarrow> y \<le> 2 ^ 32 \<Longrightarrow> \<bar>rnd y - y\<bar> \<le> y / 2 ^ 53" using assms(1) by (simp add: rounds_def)
    have "rnd ?x \<le> ?x + ?x / 2 ^ 53" using err[OF x] by linarith
    moreover have "(6 / 10 :: rat) - (6 / 10) / 2 ^ 53 \<le> rnd (6 / 10)"
    proof -
      have "\<bar>rnd (6 / 10) - 6 / 10\<bar> \<le> (6 / 10) / 2 ^ 53" by (rule err) simp_all
      then show ?thesis by linarith
    qed
    ultimately have "(6 / 10 :: rat) - (6 / 10) / 2 ^ 53 \<le> ?x + ?x / 2 ^ 53" using r by linarith
    moreover have "?x / 2 ^ 53 \<le> (6 / 10) / 2 ^ 53" using x6 by (rule divide_right_mono) simp
    ultimately have "1 / (5 * rat_of_nat b) \<le> (12 / 10) / 2 ^ 53" using gap by linarith
    moreover have "rat_of_nat b \<le> 2 ^ 32" using assms(3) by (metis less_imp_le of_nat_le_iff of_nat_numeral of_nat_power)
    then have "1 / (5 * 2 ^ 32) \<le> 1 / (5 * rat_of_nat b)" using assms(2) by (intro divide_left_mono) simp_all
    ultimately have "1 / (5 * 2 ^ 32) \<le> (12 / 10 :: rat) / 2 ^ 53" by linarith
    then show False by simp
  qed
qed

text \<open>The breaker trips exactly from five requests on, when at least three fifths of them failed:
  the rounding of floating point never decides.\<close>

lemma ready_to_trip_exact:
  assumes "rounds rnd"
  shows "ready_to_trip rnd c \<longleftrightarrow>
    5 \<le> unat (cn_Requests c) \<and> 3 * unat (cn_Requests c) \<le> 5 * unat (cn_TotalFailures c)"
proof -
  have b: "unat (cn_Requests c) < 2 ^ 32" "unat (cn_TotalFailures c) < 2 ^ 32"
    using unsigned_less[of "cn_Requests c", where 'a = nat] unsigned_less[of "cn_TotalFailures c", where 'a = nat] by simp_all
  have five: "cn_Requests c < 5 \<longleftrightarrow> unat (cn_Requests c) < 5" by (simp add: word_less_nat_alt)
  show ?thesis
    using trip_ratio[OF assms _ b, simplified] by (auto simp: ready_to_trip_def five)
qed

end
