(* ===== verification/Market_Checker.thy ===== *)
theory Market_Checker
  imports Order_Service Circuit_Breaker Spot_Service
begin

text \<open>
  The client of the spot service that the order service checks markets with
  (\<open>order-service/internal/adapters/grpcclient/market_checker.go\<close>): a remote call of at most 200
  milliseconds inside the circuit breaker, and a fallback for every error. The remote call is a
  parameter: what \<open>GetMarket\<close> answers, the market of the response or an error.
\<close>

text \<open>What one call reads from its surroundings.\<close>

record 'ts check_env =
  ck_poll :: poll
  ck_t1 :: time
  ck_t2 :: time
  ck_done :: poll
  ck_rpc :: "'ts market_pb option result"

definition getFallbackMarket :: "string \<Rightarrow> 'd order_market option result" where
  "getFallbackMarket marketID =
     Inl (Errorf (''market validation service unavailable: cannot create order for '' @ marketID))"

text \<open>The function that the breaker runs.\<close>

definition fetch_market :: "(string \<Rightarrow> 'd \<times> err option) \<Rightarrow> 'ts market_pb option result \<Rightarrow> 'd order_market option result" where
  "fetch_market nfs rpc =
     (case rpc of
        Inl e \<Rightarrow> Inl e
      | Inr None \<Rightarrow> Inl (Errorf ''received nil market from service'')
      | Inr (Some m) \<Rightarrow> Inr (ToDomainMarket nfs (Some m)))"

definition checker_GetMarket ::
  "'b breaker_lib \<Rightarrow> (string \<Rightarrow> 'd \<times> err option) \<Rightarrow> 'ts check_env \<Rightarrow> string \<Rightarrow> 'b \<Rightarrow> 'b \<times> 'd order_market option result"
where
  "checker_GetMarket B nfs K marketID b =
     (case cb_Execute B (ck_poll K) (ck_t1 K) (ck_t2 K) (ck_done K) (fetch_market nfs (ck_rpc K)) b of
        (b', Inl e) \<Rightarrow> (b', getFallbackMarket marketID)
      | (b', Inr m) \<Rightarrow> (b', Inr m))"

definition checker_CheckMarketActive ::
  "'b breaker_lib \<Rightarrow> (string \<Rightarrow> 'd \<times> err option) \<Rightarrow> 'ts check_env \<Rightarrow> string \<Rightarrow> 'b \<Rightarrow> 'b \<times> bool result"
where
  "checker_CheckMarketActive B nfs K marketID b =
     (case checker_GetMarket B nfs K marketID b of
        (b', Inl e) \<Rightarrow> (b', Inl e)
      | (b', Inr m) \<Rightarrow> (b', Inr (case m of None \<Rightarrow> False | Some x \<Rightarrow> om_Enabled x)))"

text \<open>The breaker of the checker: its own copy of the default test, and a line in the log for a change of state.\<close>

definition checker_breaker :: "(rat \<Rightarrow> rat) \<Rightarrow> ((string \<times> string \<times> string) list breaker_config \<Rightarrow> 'b) \<Rightarrow> 'b" where
  "checker_breaker rnd gobreaker =
     (let cbConfig = DefaultCircuitBreakerConfig rnd ''spot-service-checker'';
          cbConfig1 = cbConfig\<lparr>bc_ReadyToTrip := (\<lambda>c. if cn_Requests c < 5 then False
            else let failureRatio = rnd (of_nat (unat (cn_TotalFailures c)) / of_nat (unat (cn_Requests c))) in failureRatio \<ge> rnd (6 / 10))\<rparr>;
          cbConfig2 = cbConfig1\<lparr>bc_OnStateChange := Some (\<lambda>name from to log. log @ [(name, from, to)])\<rparr>
      in NewCircuitBreaker gobreaker cbConfig2)"

lemma checker_breaker_default:
  "checker_breaker rnd gobreaker =
     NewCircuitBreaker gobreaker ((DefaultCircuitBreakerConfig rnd ''spot-service-checker'')
       \<lparr>bc_OnStateChange := Some (\<lambda>name from to log. log @ [(name, from, to)])\<rparr>)"
proof -
  have t: "(\<lambda>c. if cn_Requests c < 5 then False
      else let failureRatio = rnd (of_nat (unat (cn_TotalFailures c)) / of_nat (unat (cn_Requests c))) in failureRatio \<ge> rnd (6 / 10)) =
    ready_to_trip rnd"
    by (rule ext) (simp only: ready_to_trip_def)
  show ?thesis unfolding checker_breaker_def t by (simp add: DefaultCircuitBreakerConfig_def)
qed

text \<open>The checker as the market client of the service.\<close>

definition market_checker :: "'b breaker_lib \<Rightarrow> (string \<Rightarrow> 'd \<times> err option) \<Rightarrow> 'ts check_env \<Rightarrow> 'b market_client" where
  "market_checker B nfs K = \<lparr>mc_CheckMarketActive = (\<lambda>_. checker_CheckMarketActive B nfs K)\<rparr>"

lemma market_checker_simps [simp]:
  "mc_CheckMarketActive (market_checker B nfs K) cx i b = checker_CheckMarketActive B nfs K i b"
  by (simp add: market_checker_def)

text \<open>The check answers yes or no only from a market that the spot service returned while the
  breaker let the call through and the context lived, by its enabled flag; every other outcome, a
  market that does not exist among them, is the same error, that of the fallback.\<close>

lemma market_check_answers:
  "snd (checker_CheckMarketActive B nfs K marketID b) =
     (if ck_poll K = None \<and> snd (gb_before B (ck_t1 K) b) = None \<and> ck_done K = None then
        (case ck_rpc K of
           Inr (Some m) \<Rightarrow> Inr (m_Enabled m)
         | _ \<Rightarrow> Inl (Errorf (''market validation service unavailable: cannot create order for '' @ marketID)))
      else Inl (Errorf (''market validation service unavailable: cannot create order for '' @ marketID)))"
proof -
  obtain b1 o1 where before: "gb_before B (ck_t1 K) b = (b1, o1)" by fastforce
  show ?thesis
    by (cases "ck_poll K"; cases o1; cases "ck_done K"; cases "ck_rpc K")
       (auto simp: checker_CheckMarketActive_def checker_GetMarket_def cb_Execute_def fetch_market_def
          getFallbackMarket_def ToDomainMarket_def before Let_def split: option.split)
qed

text \<open>A market that the spot service's repository holds as deleted passes the check when it is
  still enabled: the handler answers it with its deletion time, the check reads the enabled flag only.\<close>

lemma deleted_market_passes_check:
  assumes "gm_get store i = Some m" and "mk_Enabled m" and "mk_DeletedAt m = Some d" and "i \<noteq> ''''" and "parses i"
    and "ck_rpc K = snd (handler_GetMarket newts str parses enc dec (\<lambda>p i. market_GetByID p i store) None background t1 t2 i s)"
    and "ck_poll K = None" and "ck_done K = None" and "snd (gb_before B (ck_t1 K) b) = None"
  shows "snd (checker_CheckMarketActive B nfs K i b) = Inr True \<and> \<not> IsActive m"
proof -
  have "ck_rpc K = Inr (spot_ToProto newts str (Some m))"
    using assms(1,4,5,6)
    by (simp add: handler_GetMarket_def spot_GetMarketByID_def cache_lookup_def cache_store_def uid_Validate_def
        IsValid_def market_GetByID_def)
  then show ?thesis using assms by (simp add: market_check_answers spot_ToProto_def IsActive_def)
qed

definition wit_id :: string where
  "wit_id = ''0b5f5fc6-4a3b-4a2d-9c55-0d6b6f6f6f6f''"

definition wit_deleted :: "unit market" where
  "wit_deleted = seed_market (\<lambda>_. ()) wit_id ''OLD_USD'' ''OLD'' True (Some 7) '''' '''' '''' ''''"

definition wit_breaker :: "unit breaker_lib" where
  "wit_breaker =
     \<lparr>gb_before = (\<lambda>t b. (b, None)), gb_after = (\<lambda>t ok b. b), gb_open = (\<lambda>t b. False), gb_state = (\<lambda>t b. ''closed''),
      gb_counts = (\<lambda>b. \<lparr>cn_Requests = 0, cn_TotalSuccesses = 0, cn_TotalFailures = 0, cn_ConsecutiveSuccesses = 0,
        cn_ConsecutiveFailures = 0\<rparr>)\<rparr>"

lemma deleted_market_passes_check_witness:
  "snd (checker_CheckMarketActive wit_breaker (\<lambda>s. ((), None))
     \<lparr>ck_poll = None, ck_t1 = 0, ck_t2 = 0, ck_done = None,
      ck_rpc = snd (handler_GetMarket (\<lambda>t. t) (\<lambda>_. '''') (\<lambda>s. length s = 36) (\<lambda>m. None) (\<lambda>b. None)
        (\<lambda>p i. market_GetByID p i (gm_put wit_id wit_deleted [])) (None :: unit cache_ops option) background 0 0 wit_id ())\<rparr>
     wit_id ()) = Inr True"
proof -
  have m: "mk_Enabled wit_deleted" "mk_DeletedAt wit_deleted = Some 7" by (simp_all add: wit_deleted_def seed_market_def)
  have i: "wit_id \<noteq> ''''" "length wit_id = 36" by (simp_all add: wit_id_def)
  have b: "snd (gb_before wit_breaker t b) = None" for t b by (simp add: wit_breaker_def)
  show ?thesis
    by (rule conjunct1[OF deleted_market_passes_check[where store = "gm_put wit_id wit_deleted []" and m = wit_deleted
          and d = 7 and parses = "\<lambda>s. length s = 36" and newts = "\<lambda>t. t" and str = "\<lambda>_. ''''" and enc = "\<lambda>m. None"
          and dec = "\<lambda>b. None" and ?t1.0 = 0 and ?t2.0 = 0 and s = "()"]])
       (simp_all add: m i b)
qed

end
