(* ===== verification/Order_Props.thy ===== *)
theory Order_Props
  imports Order_Runs Market_Checker
begin

text \<open>
  Properties of the order service over its in-memory repository: what a call of \<open>CreateOrder\<close> does,
  that concurrent calls overrun the limit, what a failed market check does, what reads return.
\<close>

section \<open>One call\<close>

lemma create_begin_memory:
  assumes "order_store_ok r" and "ce_poll E = None" and "ce_count E = None"
  shows "create_begin parses memory_orders E cmd r =
    (case uid_Validate parses (cmd_MarketID cmd) ''market_id'' of Some e \<Rightarrow> Some e | None \<Rightarrow>
      (case uid_Validate parses (cmd_UserID cmd) ''user_id'' of Some e \<Rightarrow> Some e | None \<Rightarrow>
        if card (user_orders (cmd_UserID cmd) r) \<ge> 500 then Some (Sentinel (OrderSvc OErrTooManyOrders)) else None))"
proof -
  have "gm_ok r" using assms(1) by (simp add: order_store_ok_def)
  then show ?thesis using assms(2,3)
    by (simp add: create_begin_def order_CountByUser_card MaxOpenOrdersPerUser_def split: option.split)
qed

text \<open>The market check stops a call only when the client answers that the market is inactive.\<close>

definition market_refuses :: "'c market_client option \<Rightarrow> create_env \<Rightarrow> create_command \<Rightarrow> 'c \<Rightarrow> bool" where
  "market_refuses client E cmd c \<longleftrightarrow>
     (\<exists>m. client = Some m \<and> snd (mc_CheckMarketActive m (ce_check E) (cmd_MarketID cmd) c) = Inr False)"

lemma create_check_outcome:
  "snd (create_check client E cmd c) =
    (if market_refuses client E cmd c then Some (Sentinel (OrderSvc OErrInvalidMarket)) else None)"
  by (auto simp: create_check_def market_refuses_def split: option.split sum.split prod.split)

lemma create_order_cases:
  assumes ok: "order_store_ok r" and live: "ce_poll E = None" "ce_count E = None" "ce_save E = None"
    and run: "order_CreateOrder parses memory_orders client E cmd (r, c) = ((r', c'), res)"
  shows "((\<exists>ord. res = Inr ord) \<longleftrightarrow>
      uid_Validate parses (cmd_MarketID cmd) ''market_id'' = None \<and> uid_Validate parses (cmd_UserID cmd) ''user_id'' = None \<and>
      card (user_orders (cmd_UserID cmd) r) < 500 \<and> \<not> market_refuses client E cmd c) \<and>
    (\<forall>ord. res = Inr ord \<longrightarrow> ord = new_order E cmd \<and> order_GetOrder memory_orders background (ce_orderID E) r' = Inr (Some ord) \<and>
      (\<forall>i. i \<noteq> ce_orderID E \<longrightarrow> gm_get r' i = gm_get r i)) \<and>
    ((\<exists>e. res = Inl e) \<longrightarrow> r' = r)"
proof -
  obtain c1 where chk: "create_check client E cmd c = (c1, if market_refuses client E cmd c then Some (Sentinel (OrderSvc OErrInvalidMarket)) else None)"
    using create_check_outcome[of client E cmd c] by (metis prod.collapse)
  have save: "create_save memory_orders E cmd r = (gm_put (ce_orderID E) (new_order E cmd) r, Inr (new_order E cmd))"
    using live by (simp add: create_save_def order_Save_def Let_def)
  note b = create_begin_memory[OF ok live(1,2), of parses cmd]
  show ?thesis
  proof (cases "create_begin parses memory_orders E cmd r")
    case (Some e)
    then have "r' = r" "res = Inl e" using run by (simp_all add: order_CreateOrder_def)
    moreover have "\<not> (uid_Validate parses (cmd_MarketID cmd) ''market_id'' = None \<and> uid_Validate parses (cmd_UserID cmd) ''user_id'' = None \<and>
      card (user_orders (cmd_UserID cmd) r) < 500)" using b Some by (auto split: option.splits if_splits)
    ultimately show ?thesis by auto
  next
    case None
    then have v: "uid_Validate parses (cmd_MarketID cmd) ''market_id'' = None" "uid_Validate parses (cmd_UserID cmd) ''user_id'' = None"
      "card (user_orders (cmd_UserID cmd) r) < 500" using b by (auto split: option.splits if_splits)
    show ?thesis
    proof (cases "market_refuses client E cmd c")
      case True
      then have "r' = r" "\<exists>e. res = Inl e" using run None chk by (auto simp: order_CreateOrder_def)
      then show ?thesis using True by auto
    next
      case False
      then have "r' = gm_put (ce_orderID E) (new_order E cmd) r" "res = Inr (new_order E cmd)"
        using run None chk save by (auto simp: order_CreateOrder_def)
      then show ?thesis using False v by (simp add: order_GetOrder_def order_GetByID_def)
    qed
  qed
qed

text \<open>C19: with a live context, \<open>CreateOrder\<close> succeeds exactly when both identifiers are well formed, the
  user has fewer than 500 orders of any status, and the market client, if any, did not answer that
  the market is inactive. Then the order is stored, pending and unfilled, under the new identifier,
  reading it gives it back, and no other order changes; when it fails no order changes.\<close>

theorem create_order_exact:
  assumes ok: "order_store_ok r" and live: "ce_poll E = None" "ce_count E = None" "ce_save E = None"
    and run: "order_CreateOrder parses memory_orders client E cmd (r, c) = ((r', c'), res)"
  shows "((\<exists>ord. res = Inr ord) \<longleftrightarrow>
      uid_Validate parses (cmd_MarketID cmd) ''market_id'' = None \<and> uid_Validate parses (cmd_UserID cmd) ''user_id'' = None \<and>
      card (user_orders (cmd_UserID cmd) r) < 500 \<and> \<not> market_refuses client E cmd c) \<and>
    (\<forall>ord. res = Inr ord \<longrightarrow> ord = new_order E cmd \<and> order_GetOrder memory_orders background (ce_orderID E) r' = Inr (Some ord) \<and>
      (\<forall>i. i \<noteq> ce_orderID E \<longrightarrow> gm_get r' i = gm_get r i)) \<and>
    ((\<exists>e. res = Inl e) \<longrightarrow> r' = r)"
  by (rule create_order_cases[OF ok live run])

definition wit_cenv :: "string \<Rightarrow> create_env" where
  "wit_cenv i = \<lparr>ce_poll = None, ce_count = None, ce_seed = 0, ce_check = background, ce_save = None, ce_orderID = i\<rparr>"

definition wit_cmd :: create_command where
  "wit_cmd = \<lparr>cmd_OrderID = ''x'', cmd_UserID = ''u'', cmd_MarketID = ''m'', cmd_Type = ORDER_TYPE_BUY,
     cmd_Price = ''1'', cmd_Quantity = ''2''\<rparr>"

theorem create_order_exact_witness:
  "order_GetOrder memory_orders background ''o1''
     (fst (fst (order_CreateOrder (\<lambda>s. True) (memory_orders :: (unit order_store, unit) order_ops) (None :: unit market_client option)
        (wit_cenv ''o1'') wit_cmd ([], ())))) = Inr (Some (new_order (wit_cenv ''o1'') wit_cmd))"
    (is "order_GetOrder _ _ _ (fst (fst ?run)) = _")
proof -
  have run: "?run = ((fst (fst ?run), snd (fst ?run)), snd ?run)" by (simp only: prod.collapse)
  have live: "ce_poll (wit_cenv ''o1'') = None" "ce_count (wit_cenv ''o1'') = None" "ce_save (wit_cenv ''o1'') = None"
    "ce_orderID (wit_cenv ''o1'') = ''o1''" by (simp_all add: wit_cenv_def)
  note all = create_order_exact[OF order_store_ok_Nil live(1-3) run]
  have "uid_Validate (\<lambda>s. True) (cmd_MarketID wit_cmd) ''market_id'' = None \<and> uid_Validate (\<lambda>s. True) (cmd_UserID wit_cmd) ''user_id'' = None \<and>
      card (user_orders (cmd_UserID wit_cmd) ([] :: unit order_store)) < 500 \<and> \<not> market_refuses (None :: unit market_client option) (wit_cenv ''o1'') wit_cmd ()"
    by (simp add: uid_Validate_None wit_cmd_def user_orders_def market_refuses_def)
  then obtain ord where "snd ?run = Inr ord" using all by blast
  then show ?thesis using all live(4) by auto
qed

text \<open>A failed market check does not stop an order. When the checker's call to the spot service
  fails, is rejected by the breaker or reports no such market, its error says that the order cannot
  be created, and with valid identifiers and fewer than 500 orders the order is created.\<close>

lemma unanswered_check_accepts:
  assumes "order_store_ok r" and "ce_poll E = None" "ce_count E = None" "ce_save E = None"
    and "uid_Validate parses (cmd_MarketID cmd) ''market_id'' = None" and "uid_Validate parses (cmd_UserID cmd) ''user_id'' = None"
    and "card (user_orders (cmd_UserID cmd) r) < 500"
    and "\<forall>m. ck_rpc K \<noteq> Inr (Some m) \<or> snd (gb_before B (ck_t1 K) b) \<noteq> None"
  shows "snd (checker_CheckMarketActive B nfs K (cmd_MarketID cmd) b) =
      Inl (Errorf (''market validation service unavailable: cannot create order for '' @ cmd_MarketID cmd)) \<and>
    snd (order_CreateOrder parses memory_orders (Some (market_checker B nfs K)) E cmd (r, b)) = Inr (new_order E cmd)"
proof -
  let ?run = "order_CreateOrder parses memory_orders (Some (market_checker B nfs K)) E cmd (r, b)"
  have err: "snd (checker_CheckMarketActive B nfs K (cmd_MarketID cmd) b) =
      Inl (Errorf (''market validation service unavailable: cannot create order for '' @ cmd_MarketID cmd))"
    using assms(8) by (auto simp: market_check_answers split: sum.split option.split)
  then have "\<not> market_refuses (Some (market_checker B nfs K)) E cmd b" by (simp add: market_refuses_def)
  moreover obtain r' c' res where run: "?run = ((r', c'), res)" by (metis prod.collapse)
  ultimately show ?thesis
    using create_order_cases[OF assms(1-4) run] assms(5-7) err by auto
qed

section \<open>Concurrent calls\<close>

definition flights_at :: "stage \<Rightarrow> (create_env \<times> create_command) list \<Rightarrow> flights" where
  "flights_at s jobs = mset (map (\<lambda>(E, cmd). (s, E, cmd)) jobs)"

lemma begin_all:
  "\<forall>(E, cmd) \<in> set jobs. create_begin parses ops E cmd r = None \<Longrightarrow>
   (create_step parses ops orders_of client)\<^sup>*\<^sup>* (r, c, F) (r, c, F + flights_at Counted jobs)"
proof (induction jobs arbitrary: F)
  case (Cons j jobs)
  obtain E cmd where j: "j = (E, cmd)" by fastforce
  have "create_step parses ops orders_of client (r, c, F) (r, c, add_mset (Counted, E, cmd) F)"
    using Cons.prems j by (intro begun) simp
  moreover have "(create_step parses ops orders_of client)\<^sup>*\<^sup>* (r, c, add_mset (Counted, E, cmd) F)
      (r, c, add_mset (Counted, E, cmd) F + flights_at Counted jobs)" using Cons.prems by (intro Cons.IH) simp
  ultimately show ?case by (simp add: j flights_at_def converse_rtranclp_into_rtranclp)
qed (simp add: flights_at_def)

lemma check_all:
  "(create_step parses ops orders_of None)\<^sup>*\<^sup>* (r, c, F + flights_at Counted jobs) (r, c, F + flights_at Checked jobs)"
proof (induction jobs arbitrary: F)
  case (Cons j jobs)
  obtain E cmd where j: "j = (E, cmd)" by fastforce
  have "create_step parses ops orders_of None (r, c, add_mset (Counted, E, cmd) (F + flights_at Counted jobs))
      (r, c, add_mset (Checked, E, cmd) (F + flights_at Counted jobs))" by (intro checked) (simp add: create_check_def)
  moreover have "(create_step parses ops orders_of None)\<^sup>*\<^sup>* (r, c, add_mset (Checked, E, cmd) F + flights_at Counted jobs)
      (r, c, add_mset (Checked, E, cmd) F + flights_at Checked jobs)" by (rule Cons.IH)
  ultimately show ?case by (simp add: j flights_at_def converse_rtranclp_into_rtranclp)
qed (simp add: flights_at_def)

lemma save_all:
  assumes "order_store_ok r" and "distinct (map (ce_orderID \<circ> fst) jobs)"
    and "\<forall>(E, cmd) \<in> set jobs. ce_save E = None \<and> cmd_UserID cmd = uid \<and> gm_get r (ce_orderID E) = None"
  shows "\<exists>r'. (create_step parses memory_orders gm_get client)\<^sup>*\<^sup>* (r, c, flights_at Checked jobs) (r', c, {#}) \<and>
    card (user_orders uid r') = card (user_orders uid r) + length jobs"
  using assms
proof (induction jobs arbitrary: r)
  case (Cons j jobs)
  obtain E cmd where j: "j = (E, cmd)" by fastforce
  have job: "ce_save E = None" "cmd_UserID cmd = uid" "gm_get r (ce_orderID E) = None" and gm: "gm_ok r"
    using Cons.prems j by (auto simp: order_store_ok_def)
  let ?r = "gm_put (ce_orderID E) (new_order E cmd) r"
  have "create_save memory_orders E cmd r = (?r, Inr (new_order E cmd))"
    using job by (simp add: create_save_def order_Save_def Let_def)
  then have "create_step parses memory_orders gm_get client (r, c, add_mset (Checked, E, cmd) (flights_at Checked jobs))
      (?r, c, flights_at Checked jobs)" using job(3) by (rule saved)
  then have step: "create_step parses memory_orders gm_get client (r, c, flights_at Checked (j # jobs)) (?r, c, flights_at Checked jobs)"
    by (simp add: j flights_at_def)
  have "\<exists>r'. (create_step parses memory_orders gm_get client)\<^sup>*\<^sup>* (?r, c, flights_at Checked jobs) (r', c, {#}) \<and>
      card (user_orders uid r') = card (user_orders uid ?r) + length jobs"
  proof (rule Cons.IH)
    show "order_store_ok ?r" using Cons.prems(1) by (simp add: order_store_ok_def)
    show "\<forall>(E, cmd) \<in> set jobs. ce_save E = None \<and> cmd_UserID cmd = uid \<and> gm_get ?r (ce_orderID E) = None"
      using Cons.prems(2,3) j by (auto simp: rev_image_eqI)
  qed (use Cons.prems in simp)
  moreover have "card (user_orders uid ?r) = Suc (card (user_orders uid r))"
  proof -
    have "ce_orderID E \<notin> user_orders uid r" using job(3) by (simp add: user_orders_def)
    then show ?thesis using user_orders_Save[OF gm, of "new_order E cmd" uid] job finite_user_orders[OF gm, of uid] by simp
  qed
  ultimately show ?case using step by (auto intro: converse_rtranclp_into_rtranclp)
qed (auto simp: flights_at_def)

text \<open>The limit does not hold for concurrent calls: from any state in which a user has at most 499
  orders, any number of that user's calls that pass the check before the first of them stores its
  order are all stored.\<close>

lemma order_limit_overrun:
  fixes jobs :: "(create_env \<times> create_command) list"
  assumes "order_store_ok r" and "card (user_orders uid r) \<le> 499" and "distinct (map (ce_orderID \<circ> fst) jobs)"
    and "\<forall>(E, cmd) \<in> set jobs. ce_poll E = None \<and> ce_count E = None \<and> ce_save E = None \<and> gm_get r (ce_orderID E) = None \<and>
      cmd_UserID cmd = uid \<and> parses uid \<and> uid \<noteq> [] \<and> parses (cmd_MarketID cmd) \<and> cmd_MarketID cmd \<noteq> []"
  shows "\<exists>r'. (create_step parses memory_orders gm_get None)\<^sup>*\<^sup>* (r, c, {#}) (r', c, {#}) \<and>
    card (user_orders uid r') = card (user_orders uid r) + length jobs"
proof -
  have "\<forall>(E, cmd) \<in> set jobs. create_begin parses memory_orders E cmd r = None"
    using assms(2,4) create_begin_memory[OF assms(1)] by (fastforce simp: uid_Validate_None split: option.split)
  then have "(create_step parses memory_orders gm_get None)\<^sup>*\<^sup>* (r, c, {#}) (r, c, {#} + flights_at Counted jobs)"
    by (rule begin_all)
  moreover have "(create_step parses memory_orders gm_get None)\<^sup>*\<^sup>* (r, c, {#} + flights_at Counted jobs) (r, c, {#} + flights_at Checked jobs)"
    by (rule check_all)
  moreover obtain r' where "(create_step parses memory_orders gm_get None)\<^sup>*\<^sup>* (r, c, flights_at Checked jobs) (r', c, {#})"
    "card (user_orders uid r') = card (user_orders uid r) + length jobs"
    using save_all[OF assms(1,3), of uid parses None c] assms(4) by blast
  ultimately show ?thesis by (auto intro: rtranclp_trans)
qed

text \<open>A repository with 499 orders of one user.\<close>

definition full_store :: "unit order_store" where
  "full_store = map (\<lambda>n. (replicate n (CHR ''o''), new_order (wit_cenv (replicate n (CHR ''o''))) wit_cmd)) [0 ..< 499]"

lemma full_store: "order_store_ok full_store" "card (user_orders ''u'' full_store) = 499"
proof -
  have keys: "map fst full_store = map (\<lambda>n. replicate n (CHR ''o'')) [0 ..< 499]" by (simp add: full_store_def)
  have "inj_on (\<lambda>n. replicate n (CHR ''o'')) S" for S by (metis inj_onI length_replicate)
  then have gm: "gm_ok full_store" unfolding gm_ok_def keys by (simp only: distinct_map distinct_upt simp_thms)
  moreover have "o_OrderId ord = i \<and> o_UserId ord = ''u''" if "(i, ord) \<in> set full_store" for i ord
    using that by (auto simp: full_store_def wit_cenv_def wit_cmd_def)
  ultimately show "order_store_ok full_store" by (auto simp: order_store_ok_def gm_get_iff)
  have "collect_user ''u'' (map snd full_store) = map snd full_store"
    unfolding collect_user_filter by (rule filter_True) (auto simp: full_store_def wit_cmd_def)
  then show "card (user_orders ''u'' full_store) = 499"
    by (simp add: card_user_orders[OF gm]) (simp add: full_store_def)
qed

lemma order_limit_overrun_witness:
  "\<exists>r. (create_step (\<lambda>s. True) memory_orders gm_get (None :: unit market_client option))\<^sup>*\<^sup>*
      (full_store, (), {#}) (r, (), {#}) \<and> card (user_orders ''u'' r) = 501"
proof -
  have new: "gm_get full_store ''a'' = None" "gm_get full_store ''b'' = None"
    by (auto simp: gm_get_None gm_keys_def full_store_def Cons_replicate_eq)
  have jobs: "\<forall>(E, cmd) \<in> set [(wit_cenv ''a'', wit_cmd), (wit_cenv ''b'', wit_cmd)]. ce_poll E = None \<and> ce_count E = None \<and>
      ce_save E = None \<and> gm_get full_store (ce_orderID E) = None \<and>
      cmd_UserID cmd = ''u'' \<and> True \<and> ''u'' \<noteq> [] \<and> True \<and> cmd_MarketID cmd \<noteq> []"
    using new by (simp add: wit_cenv_def wit_cmd_def)
  have d: "distinct (map (ce_orderID \<circ> fst) [(wit_cenv ''a'', wit_cmd), (wit_cenv ''b'', wit_cmd)])" by (simp add: wit_cenv_def)
  have le: "card (user_orders ''u'' full_store) \<le> 499" by (simp add: full_store)
  show ?thesis
    using order_limit_overrun[OF full_store(1) le d, where parses = "\<lambda>s. True" and c = "()"] jobs full_store(2) by fastforce
qed

section \<open>Reading\<close>

text \<open>With a live context, listing a user's orders gives every stored order of that user exactly
  once and no other, whatever order the runtime visits the map in.\<close>

lemma list_orders_exact:
  assumes "order_store_ok r"
  shows "\<exists>xs. order_ListOrders memory_orders background seed uid r = Inr xs \<and> distinct xs \<and>
    set xs = {ord. gm_get r (o_OrderId ord) = Some ord \<and> o_UserId ord = uid} \<and> length xs = card (user_orders uid r)"
proof -
  obtain xs where xs: "order_ListByUser None seed uid r = Inr xs" by (simp add: order_ListByUser_def)
  then have "length xs = card (user_orders uid r)"
    using assms by (auto simp: order_ListByUser_def length_collect_order card_user_orders order_store_ok_def)
  then show ?thesis using xs order_ListByUser_exact[OF assms xs] by (simp add: order_ListOrders_def)
qed

lemma list_orders_exact_witness:
  "\<exists>xs. order_ListOrders memory_orders background 3 ''u'' full_store = Inr xs \<and> length xs = 499"
  using list_orders_exact[OF full_store(1), of 3 "''u''"] full_store(2) by auto

end
