(* ===== verification/Order_Handler.thy ===== *)
theory Order_Handler
  imports Order_Props Jwt_Validator Jwt_Manager
begin

text \<open>
  The gRPC handler of the order service (\<open>order-service/internal/handler/order_handler.go\<close>), with
  the claims that an interceptor left in the context, and what its answers tell a client.
\<close>

definition order_toGRPCError :: "err \<Rightarrow> err" where
  "order_toGRPCError e =
     (if e = Sentinel (OrderSvc OErrOrderNotFound) then StatusErr CodeNotFound ''order not found''
      else if e = Sentinel (OrderSvc OErrInvalidMarket) then StatusErr CodeInvalidArgument ''invalid or inactive market''
      else if e = Sentinel (OrderSvc OErrInsufficientBalance) then StatusErr CodeFailedPrecondition ''insufficient balance''
      else if e = Sentinel (OrderSvc OErrTooManyOrders) then StatusErr CodeResourceExhausted ''too many open orders''
      else StatusErr CodeInternal ''internal server error'')"

text \<open>\<open>handlerID\<close> is the identifier the handler makes for the command; the service makes its own.\<close>

definition order_command :: "string \<Rightarrow> string \<Rightarrow> create_order_request \<Rightarrow> create_command" where
  "order_command handlerID userID req =
     \<lparr>cmd_OrderID = handlerID, cmd_UserID = userID, cmd_MarketID = cor_MarketId req, cmd_Type = cor_Type req,
      cmd_Price = cor_Price req, cmd_Quantity = cor_Quantity req\<rparr>"

definition oh_CreateOrder ::
  "(string \<Rightarrow> bool) \<Rightarrow> ('r, 'ts) order_ops \<Rightarrow> 'c market_client option \<Rightarrow> create_env \<Rightarrow> string \<Rightarrow> create_order_request \<Rightarrow>
   ('r \<times> 'c, create_order_response) grpc_handler"
where
  "oh_CreateOrder parses ops client E handlerID req claims st =
     (case claims of
        None \<Rightarrow> (st, Inl (unauthenticated ''user not authenticated''))
      | Some c \<Rightarrow>
          let userRole = ToUserRole c
          in if userRole \<noteq> USER_ROLE_USER \<and> userRole \<noteq> USER_ROLE_PREMIUM
            then (st, Inl (StatusErr CodePermissionDenied ''insufficient permissions''))
          else if cor_MarketId req = '''' then (st, Inl (StatusErr CodeInvalidArgument ''market_id is required''))
          else if cor_Price req = '''' \<or> cor_Quantity req = ''''
            then (st, Inl (StatusErr CodeInvalidArgument ''price and quantity are required''))
          else if cor_Type req = ORDER_TYPE_UNSPECIFIED
            then (st, Inl (StatusErr CodeInvalidArgument ''order type is required''))
          else case order_CreateOrder parses ops client E (order_command handlerID (cl_UserID c) req) st of
            (st', Inl e) \<Rightarrow> (st', Inl (order_toGRPCError e))
          | (st', Inr createdOrder) \<Rightarrow>
              (st', Inr \<lparr>cors_OrderId = o_OrderId createdOrder, cors_Status = o_Status createdOrder\<rparr>))"

text \<open>The claims play no part in reading an order.\<close>

definition oh_GetOrderStatus ::
  "('r, 'ts) order_ops \<Rightarrow> ctx \<Rightarrow> string \<Rightarrow> ('r, 'ts order_pb option) grpc_handler" where
  "oh_GetOrderStatus ops cx orderID claims r =
     (if orderID = '''' then (r, Inl (StatusErr CodeInvalidArgument ''order_id is required''))
      else case order_GetOrder ops cx orderID r of
        Inl e \<Rightarrow> (r, Inl (order_toGRPCError e))
      | Inr ord \<Rightarrow> (r, Inr ord))"

definition oh_ListOrders ::
  "('r, 'ts) order_ops \<Rightarrow> ctx \<Rightarrow> nat \<Rightarrow> ('r, 'ts order_pb list) grpc_handler" where
  "oh_ListOrders ops cx seed claims r =
     (case claims of
        None \<Rightarrow> (r, Inl (unauthenticated ''user not authenticated''))
      | Some c \<Rightarrow>
          (case order_ListOrders ops cx seed (cl_UserID c) r of
             Inl e \<Rightarrow> (r, Inl (order_toGRPCError e))
           | Inr orders \<Rightarrow> (r, Inr orders)))"

section \<open>Properties\<close>

text \<open>For an order that is not stored the client gets Internal, never NotFound: the in-memory
  repository's error is not the service's error of the same name.\<close>

lemma missing_order_is_internal:
  assumes "gm_get r orderID = None" and "orderID \<noteq> ''''"
  shows "snd (oh_GetOrderStatus memory_orders background orderID claims r) = Inl (StatusErr CodeInternal ''internal server error'')"
  using assms by (simp add: oh_GetOrderStatus_def order_GetOrder_def order_GetByID_def order_toGRPCError_def)

text \<open>The role claim read from a token is one it was signed with.\<close>

definition carries_role :: "(jwt_claims \<Rightarrow> string result) \<Rightarrow> string \<Rightarrow> claims \<Rightarrow> bool" where
  "carries_role sign tok claims \<longleftrightarrow> (\<forall>c. sign c = Inr tok \<longrightarrow> cl_Role claims = jc_Role c)"

text \<open>C22: the claims of a token that the user service issues never pass the role check of
  \<open>CreateOrder\<close>: the issued role claim is the name of the enumeration value, the check knows the
  short names only. Every such request is denied.\<close>

theorem issued_roles_denied:
  assumes "GenerateTokens sign itoa s now f uid em role = Inr tp" and "named_role role"
    and "carries_role sign (tp_AccessToken tp) claims"
  shows "oh_CreateOrder parses ops client E hid req (Some claims) st =
    (st, Inl (StatusErr CodePermissionDenied ''insufficient permissions''))"
proof -
  have "cl_Role claims = user_role_String itoa role"
    using assms(1,3) by (auto simp: GenerateTokens_def carries_role_def Let_def split: sum.splits)
  then have "ToUserRole claims = USER_ROLE_UNSPECIFIED"
    using assms(2) by (cases role) (auto simp: ToUserRole_def named_role_def upper_ascii_def Let_def)
  then show ?thesis by (simp add: oh_CreateOrder_def)
qed

theorem issued_roles_denied_witness:
  "snd (oh_CreateOrder (\<lambda>s. True) (memory_orders :: (unit order_store, unit) order_ops) (None :: unit market_client option) (wit_cenv ''o'') ''h''
      \<lparr>cor_MarketId = ''m'', cor_Type = ORDER_TYPE_BUY, cor_Price = ''1'', cor_Quantity = ''1'', cor_IdempotencyKey = ''''\<rparr>
      (Some \<lparr>cl_Issuer = Issuer, cl_Audience = [], cl_UserID = ''u'', cl_Email = ''e'', cl_Username = '''', cl_Role = ''USER_ROLE_USER''\<rparr>)
      ([], ())) = Inl (StatusErr CodePermissionDenied ''insufficient permissions'')"
proof -
  let ?sign = "\<lambda>c. if jc_Role c = ''USER_ROLE_USER'' then Inr ''t'' else Inl (LibErr ''no key'')"
  let ?tp = "\<lparr>tp_AccessToken = ''t'', tp_ExpiresAt = unix DefaultAccessTTL, tp_RefreshToken =
      \<lparr>rt_TokenID = ''i'', rt_UserID = ''u'', rt_Token = ''r'', rt_ExpiresAt = DefaultRefreshTTL, rt_Revoked = False, rt_CreatedAt = 0\<rparr>\<rparr>"
  have gen: "GenerateTokens ?sign (\<lambda>_. '''') (NewSigner 0 0) 0 \<lparr>fi_jti = ''j'', fi_tokenID = ''i'', fi_token = ''r''\<rparr> ''u'' ''e'' USER_ROLE_USER =
    Inr ?tp" by (simp add: GenerateTokens_def NewSigner_def)
  have named: "named_role USER_ROLE_USER" by (simp add: named_role_def)
  have "carries_role ?sign (tp_AccessToken ?tp) \<lparr>cl_Issuer = Issuer, cl_Audience = [], cl_UserID = ''u'', cl_Email = ''e'',
      cl_Username = '''', cl_Role = ''USER_ROLE_USER''\<rparr>" by (auto simp: carries_role_def)
  note denied = issued_roles_denied[OF gen named this]
  show ?thesis by (simp only: denied snd_conv)
qed

text \<open>The idempotency key of a request has no effect: two requests with the same key, or the same
  request twice, that are accepted make two orders.\<close>

lemma create_order_not_idempotent:
  assumes "order_store_ok r" and "\<forall>E \<in> {E1, E2}. ce_poll E = None \<and> ce_count E = None \<and> ce_save E = None"
    and "oh_CreateOrder parses memory_orders client E1 h1 req (Some claims) (r, c) = (st1, Inr resp1)"
    and "oh_CreateOrder parses memory_orders client E2 h2 (req\<lparr>cor_IdempotencyKey := k\<rparr>) (Some claims) st1 = (st2, Inr resp2)"
    and "ce_orderID E1 \<noteq> ce_orderID E2" and "gm_get r (ce_orderID E1) = None" and "gm_get r (ce_orderID E2) = None"
  shows "cors_OrderId resp1 \<noteq> cors_OrderId resp2 \<and>
    card (user_orders (cl_UserID claims) (fst st2)) = card (user_orders (cl_UserID claims) r) + 2"
proof -
  have step: "cors_OrderId resp = ce_orderID E \<and> fst st' = gm_put (ce_orderID E) (new_order E cmd) r0 \<and> order_store_ok (fst st') \<and>
      card (user_orders (cl_UserID claims) (fst st')) = Suc (card (user_orders (cl_UserID claims) r0))"
    if h1: "oh_CreateOrder parses memory_orders client E h rq (Some claims) (r0, c0) = (st', Inr resp)"
      and h2: "cmd = order_command h (cl_UserID claims) rq" and h3: "ce_save E = None"
      and h4: "order_store_ok r0" and h5: "gm_get r0 (ce_orderID E) = None" for E h rq r0 c0 st' resp cmd
  proof -
    have gm: "gm_ok r0" using h4 by (simp add: order_store_ok_def)
    obtain o1 where "order_CreateOrder parses memory_orders client E cmd (r0, c0) = (st', Inr o1)" "cors_OrderId resp = o_OrderId o1"
      using h1 h2 by (auto simp: oh_CreateOrder_def Let_def split: if_splits prod.splits sum.splits)
    then have run: "fst st' = gm_put (ce_orderID E) (new_order E cmd) r0" "cors_OrderId resp = ce_orderID E"
      using h3 by (auto simp: order_CreateOrder_def create_save_def order_Save_def Let_def split: option.splits prod.splits)
    have "ce_orderID E \<notin> user_orders uid r0" for uid using h5 by (simp add: user_orders_def)
    then show ?thesis
      using run h2 h4 h5 user_orders_Save[OF gm, of "new_order E cmd" "cl_UserID claims"] finite_user_orders[OF gm]
      by (simp add: order_store_ok_def order_command_def)
  qed
  have s: "ce_save E1 = None" "ce_save E2 = None" using assms(2) by simp_all
  note one = step[OF assms(3) refl s(1) assms(1,6)]
  obtain r1 c1 where st1: "st1 = (r1, c1)" by fastforce
  have "order_store_ok (fst st1)" using one by blast
  moreover have "gm_get (fst st1) (ce_orderID E2) = None" using one assms(5,7) by simp
  ultimately have ok1: "order_store_ok r1" and "gm_get r1 (ce_orderID E2) = None" unfolding st1 by simp_all
  note two = step[OF assms(4)[unfolded st1] refl s(2) ok1 this(2)]
  have "cors_OrderId resp1 \<noteq> cors_OrderId resp2" using one two assms(5) by simp
  moreover have "card (user_orders (cl_UserID claims) r1) = Suc (card (user_orders (cl_UserID claims) r))"
    using one unfolding st1 fst_conv by blast
  moreover have "card (user_orders (cl_UserID claims) (fst st2)) = Suc (card (user_orders (cl_UserID claims) r1))"
    using two by blast
  ultimately show ?thesis by presburger
qed

definition wit_claims :: claims where
  "wit_claims = \<lparr>cl_Issuer = '''', cl_Audience = [], cl_UserID = ''u'', cl_Email = ''e'', cl_Username = '''', cl_Role = ''user''\<rparr>"

definition wit_oreq :: create_order_request where
  "wit_oreq = \<lparr>cor_MarketId = ''m'', cor_Type = ORDER_TYPE_BUY, cor_Price = ''1'', cor_Quantity = ''1'', cor_IdempotencyKey = ''k''\<rparr>"

lemma wit_oh:
  "order_store_ok r \<Longrightarrow> card (user_orders ''u'' r) < 500 \<Longrightarrow>
   oh_CreateOrder (\<lambda>s. True) memory_orders (None :: unit market_client option) (wit_cenv i) ''h'' wit_oreq (Some wit_claims) (r :: unit order_store, ()) =
     ((gm_put i (new_order (wit_cenv i) (order_command ''h'' ''u'' wit_oreq)) r, ()),
      Inr \<lparr>cors_OrderId = i, cors_Status = ORDER_STATUS_PENDING\<rparr>)"
proof -
  assume ok: "order_store_ok r" and c: "card (user_orders ''u'' r) < 500"
  have role: "ToUserRole wit_claims = USER_ROLE_USER"
  proof -
    have "ToUpper ''user'' = ''USER''" by code_simp
    then show ?thesis by (simp only: ToUserRole_def wit_claims_def Let_def claims.select_convs simp_thms if_True)
  qed
  have "ce_poll (wit_cenv i) = None" "ce_count (wit_cenv i) = None" by (simp_all add: wit_cenv_def)
  note b = create_begin_memory[OF ok this, of "\<lambda>s. True" "order_command ''h'' ''u'' wit_oreq"]
  have e: "ce_save (wit_cenv i) = None" "ce_orderID (wit_cenv i) = i" "cl_UserID wit_claims = ''u''"
    by (simp_all add: wit_cenv_def wit_claims_def)
  have "create_begin (\<lambda>s. True) memory_orders (wit_cenv i) (order_command ''h'' ''u'' wit_oreq) r = None"
    using b c by (simp add: order_command_def wit_oreq_def uid_Validate_def IsValid_def)
  then have "order_CreateOrder (\<lambda>s. True) memory_orders (None :: unit market_client option) (wit_cenv i) (order_command ''h'' ''u'' wit_oreq) (r, ()) =
    ((gm_put i (new_order (wit_cenv i) (order_command ''h'' ''u'' wit_oreq)) r, ()), Inr (new_order (wit_cenv i) (order_command ''h'' ''u'' wit_oreq)))"
    using e by (simp add: order_CreateOrder_def create_check_def create_save_def order_Save_def Let_def)
  moreover have "cor_MarketId wit_oreq \<noteq> ''''" "cor_Price wit_oreq \<noteq> ''''" "cor_Quantity wit_oreq \<noteq> ''''"
    "cor_Type wit_oreq \<noteq> ORDER_TYPE_UNSPECIFIED" by (simp_all add: wit_oreq_def)
  ultimately show ?thesis by (simp add: oh_CreateOrder_def role e)
qed

lemma create_order_not_idempotent_witness:
  "\<exists>st1 st2. oh_CreateOrder (\<lambda>s. True) memory_orders (None :: unit market_client option) (wit_cenv ''o1'') ''h'' wit_oreq (Some wit_claims)
        ([] :: unit order_store, ()) = st1 \<and>
     oh_CreateOrder (\<lambda>s. True) memory_orders None (wit_cenv ''o2'') ''h'' wit_oreq (Some wit_claims) (fst st1) = st2 \<and>
     card (user_orders ''u'' (fst (fst st2))) = 2"
proof -
  let ?r1 = "gm_put ''o1'' (new_order (wit_cenv ''o1'') (order_command ''h'' ''u'' wit_oreq)) ([] :: unit order_store)"
  have none: "user_orders ''u'' ([] :: unit order_store) = {}" by (simp add: user_orders_def)
  have ok1: "order_store_ok ?r1" by (simp add: order_store_ok_def wit_cenv_def)
  have "user_orders ''u'' ?r1 = {''o1''}" by (auto simp: user_orders_def order_command_def)
  then have c1: "card (user_orders ''u'' ?r1) < 500" by simp
  have c0: "card (user_orders ''u'' ([] :: unit order_store)) < 500" by (simp add: none)
  have same: "wit_oreq\<lparr>cor_IdempotencyKey := ''k''\<rparr> = wit_oreq" by (simp add: wit_oreq_def)
  have polls: "\<forall>E \<in> {wit_cenv ''o1'', wit_cenv ''o2''}. ce_poll E = None \<and> ce_count E = None \<and> ce_save E = None"
    "ce_orderID (wit_cenv ''o1'') \<noteq> ce_orderID (wit_cenv ''o2'')" by (simp_all add: wit_cenv_def)
  have u: "cl_UserID wit_claims = ''u''" by (simp add: wit_claims_def)
  note first = wit_oh[OF order_store_ok_Nil c0, of "''o1''"] and second = wit_oh[OF ok1 c1, of "''o2''"]
  have two: "card (user_orders ''u'' (fst (gm_put ''o2'' (new_order (wit_cenv ''o2'') (order_command ''h'' ''u'' wit_oreq)) ?r1, ()))) =
    card (user_orders ''u'' ([] :: unit order_store)) + 2"
    using create_order_not_idempotent[OF order_store_ok_Nil polls(1) first _ polls(2), of "''h''" "''k''"] second by (simp add: same u)
  show ?thesis using first second two none by simp
qed

end
