(* ===== verification/Service_Config.thy ===== *)
theory Service_Config
  imports Complex_Main Errors
begin

text \<open>
  The configuration of the three services (\<open>internal/config/config.go\<close> of each):
  the fields with the defaults of their struct tags, the checks and \<open>Load\<close>; and the shared configuration
  (\<open>shared/config/config.go\<close>), which only the cookies of the user service are read from. What the envconfig library
  reads from the environment is an argument, and so is \<open>dec\<close>, the decimal digits of a number.
\<close>

record order_config =
  oc_ServiceName :: string
  oc_GRPCPort :: string
  oc_MetricsPort :: string
  oc_LogLevel :: string
  oc_LogFormat :: string
  oc_DBHost :: string
  oc_DBPort :: int
  oc_DBUser :: string
  oc_DBPassword :: string
  oc_DBName :: string
  oc_DBSSLMode :: string
  oc_DBMaxConns :: int
  oc_DBTimeout :: duration
  oc_DBDSN :: string
  oc_RedisAddr :: string
  oc_RedisPassword :: string
  oc_RedisDB :: int
  oc_RedisPoolSize :: int
  oc_RedisTimeout :: duration
  oc_JWTSecretOrPublicKey :: string
  oc_JWTIssuer :: string
  oc_JWTAudience :: string
  oc_JWTAlgorithm :: string
  oc_JWTClockSkew :: duration
  oc_IdempotencyTTL :: duration
  oc_IdempotencyCleanupInterval :: duration
  oc_IdempotencyMaxKeys :: int
  oc_RateLimitRPS :: int
  oc_RateLimitBurst :: int
  oc_GRPCKeepaliveMaxConnIdle :: duration
  oc_GRPCKeepaliveTime :: duration
  oc_GRPCKeepaliveTimeout :: duration
  oc_ShutdownGracePeriod :: duration
  oc_MetricsShutdownTimeout :: duration
  oc_MetricsReadTimeout :: duration
  oc_MetricsWriteTimeout :: duration
  oc_MetricsIdleTimeout :: duration

record user_config =
  uc_ServiceName :: string
  uc_GRPCPort :: string
  uc_MetricsPort :: string
  uc_LogLevel :: string
  uc_LogFormat :: string
  uc_JWTPrivateKeyPath :: string
  uc_JWTPublicKeyPath :: string
  uc_JWTAccessTTL :: duration
  uc_JWTRefreshTTL :: duration
  uc_JWTIssuer :: string
  uc_JWTAudience :: string
  uc_JWTAlgorithm :: string
  uc_JWTClockSkew :: duration
  uc_BcryptCost :: int
  uc_RateLimitRPS :: int
  uc_RateLimitBurst :: int
  uc_IdempotencyTTL :: duration
  uc_AuthUseHttpOnlyCookies :: bool
  uc_AuthCookieName :: string
  uc_AuthCookieDomain :: string
  uc_AuthCookieSecure :: bool
  uc_AuthCookiePath :: string
  uc_ShutdownGracePeriod :: duration
  uc_MetricsShutdownTimeout :: duration
  uc_GRPCKeepaliveMaxConnIdle :: duration
  uc_GRPCKeepaliveTime :: duration
  uc_GRPCKeepaliveTimeout :: duration
  uc_MetricsReadTimeout :: duration
  uc_MetricsWriteTimeout :: duration
  uc_MetricsIdleTimeout :: duration

record spot_config =
  sc_ServiceName :: string
  sc_GRPCPort :: string
  sc_MetricsPort :: string
  sc_LogLevel :: string
  sc_LogFormat :: string
  sc_JWTPublicKeyPath :: string
  sc_RateLimitRPS :: int
  sc_RateLimitBurst :: int
  sc_IdempotencyTTL :: duration
  sc_ShutdownGracePeriod :: duration
  sc_MetricsShutdownTimeout :: duration
  sc_MetricsReadTimeout :: duration
  sc_MetricsWriteTimeout :: duration
  sc_MetricsIdleTimeout :: duration
  sc_GRPCKeepaliveMaxConnIdle :: duration
  sc_GRPCKeepaliveTime :: duration
  sc_GRPCKeepaliveTimeout :: duration
  sc_UserServiceAddr :: string
  sc_OrderServiceAddr :: string
  sc_MarketRefreshInterval :: duration

text \<open>The defaults of the struct tags, which apply when a variable is not set.\<close>

definition default_order_config :: order_config where
  "default_order_config =
     \<lparr>oc_ServiceName = ''order-service'', oc_GRPCPort = '':50052'', oc_MetricsPort = '':9092'',
      oc_LogLevel = ''info'', oc_LogFormat = ''json'', oc_DBHost = ''localhost'', oc_DBPort = 5432,
      oc_DBUser = ''postgres'', oc_DBPassword = ''postgres'', oc_DBName = ''exchange'', oc_DBSSLMode = ''disable'',
      oc_DBMaxConns = 25, oc_DBTimeout = 5 * second, oc_DBDSN = '''', oc_RedisAddr = ''localhost:6379'',
      oc_RedisPassword = '''', oc_RedisDB = 0, oc_RedisPoolSize = 10, oc_RedisTimeout = 5 * second,
      oc_JWTSecretOrPublicKey = '''', oc_JWTIssuer = ''exchange-system'', oc_JWTAudience = ''exchange-api'',
      oc_JWTAlgorithm = ''HS256'', oc_JWTClockSkew = 30 * second, oc_IdempotencyTTL = 24 * 3600 * second,
      oc_IdempotencyCleanupInterval = 1 * 3600 * second, oc_IdempotencyMaxKeys = 100000, oc_RateLimitRPS = 100,
      oc_RateLimitBurst = 50, oc_GRPCKeepaliveMaxConnIdle = 5 * 60 * second, oc_GRPCKeepaliveTime = 2 * 60 * second,
      oc_GRPCKeepaliveTimeout = 20 * second, oc_ShutdownGracePeriod = 30 * second,
      oc_MetricsShutdownTimeout = 5 * second, oc_MetricsReadTimeout = 5 * second,
      oc_MetricsWriteTimeout = 10 * second, oc_MetricsIdleTimeout = 120 * second\<rparr>"

definition default_user_config :: user_config where
  "default_user_config =
     \<lparr>uc_ServiceName = ''user-service'', uc_GRPCPort = '':50053'', uc_MetricsPort = '':9093'',
      uc_LogLevel = ''info'', uc_LogFormat = ''json'', uc_JWTPrivateKeyPath = ''./keys/private.pem'',
      uc_JWTPublicKeyPath = ''./keys/public.pem'', uc_JWTAccessTTL = 15 * 60 * second,
      uc_JWTRefreshTTL = 168 * 3600 * second, uc_JWTIssuer = ''exchange-system'', uc_JWTAudience = ''exchange-api'',
      uc_JWTAlgorithm = ''RS256'', uc_JWTClockSkew = 30 * second, uc_BcryptCost = 12, uc_RateLimitRPS = 100,
      uc_RateLimitBurst = 50, uc_IdempotencyTTL = 24 * 3600 * second, uc_AuthUseHttpOnlyCookies = False,
      uc_AuthCookieName = ''refresh_token'', uc_AuthCookieDomain = '''', uc_AuthCookieSecure = True,
      uc_AuthCookiePath = ''/'', uc_ShutdownGracePeriod = 30 * second, uc_MetricsShutdownTimeout = 5 * second,
      uc_GRPCKeepaliveMaxConnIdle = 5 * 60 * second, uc_GRPCKeepaliveTime = 2 * 60 * second,
      uc_GRPCKeepaliveTimeout = 20 * second, uc_MetricsReadTimeout = 5 * second,
      uc_MetricsWriteTimeout = 10 * second, uc_MetricsIdleTimeout = 120 * second\<rparr>"

definition default_spot_config :: spot_config where
  "default_spot_config =
     \<lparr>sc_ServiceName = ''spot-service'', sc_GRPCPort = '':50054'', sc_MetricsPort = '':9094'',
      sc_LogLevel = ''info'', sc_LogFormat = ''json'', sc_JWTPublicKeyPath = ''./keys/public.pem'',
      sc_RateLimitRPS = 100, sc_RateLimitBurst = 50, sc_IdempotencyTTL = 24 * 3600 * second,
      sc_ShutdownGracePeriod = 30 * second, sc_MetricsShutdownTimeout = 5 * second,
      sc_MetricsReadTimeout = 5 * second, sc_MetricsWriteTimeout = 10 * second, sc_MetricsIdleTimeout = 120 * second,
      sc_GRPCKeepaliveMaxConnIdle = 5 * 60 * second, sc_GRPCKeepaliveTime = 2 * 60 * second,
      sc_GRPCKeepaliveTimeout = 20 * second, sc_UserServiceAddr = ''localhost:50053'',
      sc_OrderServiceAddr = ''localhost:50052'', sc_MarketRefreshInterval = 5 * second\<rparr>"

definition order_config_Validate :: "order_config \<Rightarrow> unit result" where
  "order_config_Validate c =
     (if oc_RateLimitRPS c \<le> 0 then Inl (Errorf ''RATE_LIMIT_RPS must be positive'')
      else if oc_ShutdownGracePeriod c \<le> 0 then Inl (Errorf ''SHUTDOWN_GRACE_PERIOD must be positive'')
      else Inr ())"

definition spot_config_Validate :: "spot_config \<Rightarrow> unit result" where
  "spot_config_Validate c =
     (if sc_GRPCPort c = '''' \<or> sc_UserServiceAddr c = '''' \<or> sc_OrderServiceAddr c = ''''
        then Inl (Errorf ''required service addresses missing'')
      else if sc_RateLimitRPS c \<le> 0 \<or> sc_ShutdownGracePeriod c \<le> 0 then Inl (Errorf ''invalid rate limit or timeout values'')
      else Inr ())"

definition user_config_Validate :: "(int \<Rightarrow> string) \<Rightarrow> user_config \<Rightarrow> unit result" where
  "user_config_Validate dec c =
     (if uc_BcryptCost c < 10 \<or> uc_BcryptCost c > 14 then Inl (Errorf (''BCRYPT_COST must be 10-14, got '' @ dec (uc_BcryptCost c)))
      else if uc_JWTAccessTTL c \<le> 0 \<or> uc_JWTRefreshTTL c \<le> 0 then Inl (Errorf ''JWT TTLs must be positive'')
      else if uc_RateLimitRPS c \<le> 0 then Inl (Errorf ''RATE_LIMIT_RPS must be positive'')
      else if uc_ShutdownGracePeriod c \<le> 0 then Inl (Errorf ''SHUTDOWN_GRACE_PERIOD must be positive'')
      else Inr ())"

text \<open>\<open>Load\<close> is the same in all three.\<close>

definition order_config_Load :: "order_config result \<Rightarrow> order_config result" where
  "order_config_Load env =
     (case env of
        Inl e \<Rightarrow> Inl (Wrapf ''envconfig failed'' e)
      | Inr c \<Rightarrow> (case order_config_Validate c of Inl e \<Rightarrow> Inl (Wrapf ''invalid config'' e) | Inr _ \<Rightarrow> Inr c))"

definition spot_config_Load :: "spot_config result \<Rightarrow> spot_config result" where
  "spot_config_Load env =
     (case env of
        Inl e \<Rightarrow> Inl (Wrapf ''envconfig failed'' e)
      | Inr c \<Rightarrow> (case spot_config_Validate c of Inl e \<Rightarrow> Inl (Wrapf ''invalid config'' e) | Inr _ \<Rightarrow> Inr c))"

definition user_config_Load :: "(int \<Rightarrow> string) \<Rightarrow> user_config result \<Rightarrow> user_config result" where
  "user_config_Load dec env =
     (case env of
        Inl e \<Rightarrow> Inl (Wrapf ''envconfig failed'' e)
      | Inr c \<Rightarrow> (case user_config_Validate dec c of Inl e \<Rightarrow> Inl (Wrapf ''invalid config'' e) | Inr _ \<Rightarrow> Inr c))"

text \<open>What a service that has started can rely on.\<close>

lemma order_config_loaded:
  "order_config_Load env = Inr c \<longleftrightarrow> env = Inr c \<and> 0 < oc_RateLimitRPS c \<and> 0 < oc_ShutdownGracePeriod c"
  by (auto simp: order_config_Load_def order_config_Validate_def split: sum.splits if_splits)

lemma user_config_loaded:
  "user_config_Load dec env = Inr c \<longleftrightarrow>
     env = Inr c \<and> 10 \<le> uc_BcryptCost c \<and> uc_BcryptCost c \<le> 14 \<and> 0 < uc_JWTAccessTTL c \<and> 0 < uc_JWTRefreshTTL c \<and>
     0 < uc_RateLimitRPS c \<and> 0 < uc_ShutdownGracePeriod c"
  by (auto simp: user_config_Load_def user_config_Validate_def split: sum.splits if_splits)

lemma spot_config_loaded:
  "spot_config_Load env = Inr c \<longleftrightarrow>
     env = Inr c \<and> sc_GRPCPort c \<noteq> '''' \<and> sc_UserServiceAddr c \<noteq> '''' \<and> sc_OrderServiceAddr c \<noteq> '''' \<and>
     0 < sc_RateLimitRPS c \<and> 0 < sc_ShutdownGracePeriod c"
  by (auto simp: spot_config_Load_def spot_config_Validate_def split: sum.splits if_splits)

section \<open>The shared configuration\<close>

record shared_config =
  hc_ServiceName :: string
  hc_ServiceVersion :: string
  hc_LogLevel :: string
  hc_GRPCPort :: string
  hc_GRPCTimeout :: duration
  hc_ReadTimeout :: duration
  hc_WriteTimeout :: duration
  hc_HTTPPort :: string
  hc_DBHost :: string
  hc_DBPort :: int
  hc_DBUser :: string
  hc_DBPassword :: string
  hc_DBName :: string
  hc_DBSSLMode :: string
  hc_DBMaxConns :: int
  hc_DBTimeout :: duration
  hc_RedisAddr :: string
  hc_RedisPassword :: string
  hc_RedisDB :: int
  hc_RedisPoolSize :: int
  hc_RedisTimeout :: duration
  hc_JWTSecretOrPublicKey :: string
  hc_JWTIssuer :: string
  hc_JWTAudience :: string
  hc_JWTAlgorithm :: string
  hc_JWTClockSkew :: duration
  hc_AuthUseHttpOnlyCookies :: bool
  hc_AuthCookieName :: string
  hc_AuthCookieDomain :: string
  hc_AuthCookieSecure :: bool
  hc_AuthCookiePath :: string
  hc_IdempotencyKeyTTL :: duration
  hc_IdempotencyCleanupInterval :: duration
  hc_IdempotencyMaxKeys :: int
  hc_LogFormat :: string
  hc_LogSensitiveFields :: "string list"
  hc_LogRedactValue :: string
  hc_LogCaller :: bool
  hc_LogStacktrace :: bool
  hc_RateLimitEnabled :: bool
  hc_RateLimitRequests :: int
  hc_RateLimitWindow :: duration
  hc_RateLimitBurst :: int
  hc_CircuitBreakerEnabled :: bool
  hc_CircuitBreakerMaxFailures :: int
  hc_CircuitBreakerTimeout :: duration
  hc_CircuitBreakerInterval :: duration
  hc_RetryMaxAttempts :: int
  hc_RetryInitialInterval :: duration
  hc_RetryMaxInterval :: duration
  hc_RetryMultiplier :: rat
  hc_RetryRandomization :: rat
  hc_PrometheusPort :: string
  hc_UserServiceAddr :: string
  hc_OrderServiceAddr :: string
  hc_SpotServiceAddr :: string
  hc_TokenStoragePath :: string

text \<open>The key of the tokens is required: it has no default.\<close>

definition default_shared_config :: "string \<Rightarrow> shared_config" where
  "default_shared_config key =
     \<lparr>hc_ServiceName = ''exchange-service'', hc_ServiceVersion = ''1.0.0'', hc_LogLevel = ''info'',
      hc_GRPCPort = '':50051'', hc_GRPCTimeout = 30 * second, hc_ReadTimeout = 10 * second,
      hc_WriteTimeout = 10 * second, hc_HTTPPort = '':8080'', hc_DBHost = ''localhost'', hc_DBPort = 5432,
      hc_DBUser = ''postgres'', hc_DBPassword = ''postgres'', hc_DBName = ''exchange'', hc_DBSSLMode = ''disable'',
      hc_DBMaxConns = 25, hc_DBTimeout = 5 * second, hc_RedisAddr = ''localhost:6379'', hc_RedisPassword = '''',
      hc_RedisDB = 0, hc_RedisPoolSize = 10, hc_RedisTimeout = 5 * second, hc_JWTSecretOrPublicKey = key,
      hc_JWTIssuer = ''exchange-system'', hc_JWTAudience = ''exchange-api'', hc_JWTAlgorithm = ''HS256'',
      hc_JWTClockSkew = 30 * second, hc_AuthUseHttpOnlyCookies = False, hc_AuthCookieName = ''refresh_token'',
      hc_AuthCookieDomain = '''', hc_AuthCookieSecure = True, hc_AuthCookiePath = ''/'',
      hc_IdempotencyKeyTTL = 24 * 3600 * second, hc_IdempotencyCleanupInterval = 1 * 3600 * second,
      hc_IdempotencyMaxKeys = 100000, hc_LogFormat = ''json'',
      hc_LogSensitiveFields = [''password'', ''token'', ''secret'', ''key'', ''card'', ''cvv'', ''pin''],
      hc_LogRedactValue = ''***REDACTED***'', hc_LogCaller = False, hc_LogStacktrace = False,
      hc_RateLimitEnabled = True, hc_RateLimitRequests = 100, hc_RateLimitWindow = 1 * 60 * second,
      hc_RateLimitBurst = 10, hc_CircuitBreakerEnabled = True, hc_CircuitBreakerMaxFailures = 5,
      hc_CircuitBreakerTimeout = 30 * second, hc_CircuitBreakerInterval = 10 * second, hc_RetryMaxAttempts = 3,
      hc_RetryInitialInterval = 100 * 1000000, hc_RetryMaxInterval = 10 * second, hc_RetryMultiplier = 2,
      hc_RetryRandomization = 1 / 2, hc_PrometheusPort = '':9090'', hc_UserServiceAddr = ''localhost:50053'',
      hc_OrderServiceAddr = ''localhost:50052'', hc_SpotServiceAddr = ''localhost:50054'',
      hc_TokenStoragePath = ''./tokens.json''\<rparr>"

text \<open>The defaults of \<open>JWTConfig\<close>.\<close>

record jwt_env_config =
  je_Issuer :: string
  je_Audience :: string
  je_Algorithm :: string
  je_ClockSkew :: duration

definition default_jwt_env_config :: jwt_env_config where
  "default_jwt_env_config =
     \<lparr>je_Issuer = ''exchange-system'', je_Audience = ''exchange-api'', je_Algorithm = ''RS256'', je_ClockSkew = 30 * second\<rparr>"

definition shared_config_Load :: "shared_config result \<Rightarrow> shared_config result" where
  "shared_config_Load env = (case env of Inl e \<Rightarrow> Inl e | Inr c \<Rightarrow> Inr c)"

text \<open>\<open>MustLoad\<close> panics with the error: no result.\<close>

definition shared_config_MustLoad :: "shared_config result \<Rightarrow> shared_config option" where
  "shared_config_MustLoad env = (case shared_config_Load env of Inl e \<Rightarrow> None | Inr c \<Rightarrow> Some c)"

section \<open>The defaults together\<close>

text \<open>With no variable set the services load their defaults, listen on different ports, and reach each other.\<close>

lemma defaults_load:
  "order_config_Load (Inr default_order_config) = Inr default_order_config"
  "user_config_Load dec (Inr default_user_config) = Inr default_user_config"
  "spot_config_Load (Inr default_spot_config) = Inr default_spot_config"
  by (simp_all add: order_config_loaded user_config_loaded spot_config_loaded default_order_config_def
      default_user_config_def default_spot_config_def second_def)

lemma default_addresses:
  "sc_UserServiceAddr default_spot_config = ''localhost'' @ uc_GRPCPort default_user_config"
  "sc_OrderServiceAddr default_spot_config = ''localhost'' @ oc_GRPCPort default_order_config"
  "hc_UserServiceAddr (default_shared_config k) = ''localhost'' @ uc_GRPCPort default_user_config"
  "hc_OrderServiceAddr (default_shared_config k) = ''localhost'' @ oc_GRPCPort default_order_config"
  "hc_SpotServiceAddr (default_shared_config k) = ''localhost'' @ sc_GRPCPort default_spot_config"
  "distinct [oc_GRPCPort default_order_config, uc_GRPCPort default_user_config, sc_GRPCPort default_spot_config,
     oc_MetricsPort default_order_config, uc_MetricsPort default_user_config, sc_MetricsPort default_spot_config]"
  by (simp_all add: default_order_config_def default_user_config_def default_spot_config_def default_shared_config_def)

end
