(* ===== verification/Servers.thy ===== *)
theory Servers
  imports Shared_Grpc User_Handler Order_Handler Service_Config
begin

text \<open>
  The gRPC servers as their processes put them together: the interceptors around the handlers, the rate
  limits and the options of the server, and what every request comes to, in \<open>order-service/internal/di/module.go\<close>,
  \<open>user-service/internal/di/module.go\<close> and \<open>spot-service/main.go\<close>.
\<close>

section \<open>The chain\<close>

text \<open>What a server starts a request with: the metadata it received and nothing else.\<close>

definition received :: "metadata \<Rightarrow> request_ctx" where
  "received md = \<lparr>rx_incoming = md, rx_outgoing = [], rx_values = [], rx_claims = None\<rparr>"

text \<open>A handler as the server runs it may panic; the handlers of the services return.\<close>

type_synonym ('s, 'a) server_handler = "claims option \<Rightarrow> 's \<Rightarrow> 's \<times> 'a outcome"

definition returning :: "('s, 'a) grpc_handler \<Rightarrow> ('s, 'a) server_handler" where
  "returning h claims s = (case h claims s of (s', r) \<Rightarrow> (s', Returned r))"

definition registered :: "(metadata \<Rightarrow> ('s, 'a) server_handler) \<Rightarrow> ('s, 'a) unary" where
  "registered h cx s = h (rx_incoming cx) (ClaimsFromContext cx) s"

text \<open>The interceptor of the user service around a handler that may panic: what it lets through reaches the handler with the
  claims it found.\<close>

definition user_guard ::
  "'k jwt_parser \<Rightarrow> 'k jwt_validator \<Rightarrow> string list \<Rightarrow> string \<Rightarrow> (metadata \<Rightarrow> ('s, 'a) server_handler) \<Rightarrow> metadata \<Rightarrow> ('s, 'a) server_handler"
where
  "user_guard parse v ps meth h md claims s =
     (case user_interceptor parse v ps meth md (\<lambda>c st. (st, Inr c)) claims s of
        (s', Inl e) \<Rightarrow> (s', Returned (Inl e))
      | (s', Inr c) \<Rightarrow> h md c s')"

lemma user_guard_returning:
  "user_guard parse v ps meth (\<lambda>m. returning (h m)) md = returning (user_interceptor parse v ps meth md (h md))"
  by (rule ext, rule ext)
     (auto simp: user_guard_def returning_def user_interceptor_def Let_def split: option.split list.split sum.split prod.split)

text \<open>The first three interceptors of every server, around the others.\<close>

definition server_chain :: "string \<Rightarrow> string \<Rightarrow> ('s, 'a) unary \<Rightarrow> (log_entry list \<times> 's, 'a) unary" where
  "server_chain fresh meth inner = XRequestID fresh (LoggerInterceptor meth (UnaryPanicRecoveryInterceptor inner))"

text \<open>The state of a server: its log, the counters of the metrics (not in the spot service), its rate limiter
  and what its handlers work on. The order server and the spot server have no authentication interceptor.\<close>

definition order_server ::
  "'l rate_lib \<Rightarrow> ('m, 'l rate_limiter \<times> 's, 'a) prometheus_lib \<Rightarrow> 'm \<Rightarrow> string \<Rightarrow> string \<Rightarrow> time \<Rightarrow> time \<Rightarrow>
   ('s, 'a) server_handler \<Rightarrow> metadata \<Rightarrow>
   log_entry list \<times> 'm \<times> 'l rate_limiter \<times> 's \<Rightarrow> (log_entry list \<times> 'm \<times> 'l rate_limiter \<times> 's) \<times> 'a outcome"
where
  "order_server R L m0 fresh meth t1 t2 h md =
     server_chain fresh meth (snd (MetricsInterceptor L m0) meth (rate_interceptor R t1 t2 (registered (\<lambda>_. h)))) (received md)"

definition spot_server ::
  "'l rate_lib \<Rightarrow> string \<Rightarrow> string \<Rightarrow> time \<Rightarrow> time \<Rightarrow> ('s, 'a) server_handler \<Rightarrow> metadata \<Rightarrow>
   log_entry list \<times> 'l rate_limiter \<times> 's \<Rightarrow> (log_entry list \<times> 'l rate_limiter \<times> 's) \<times> 'a outcome"
where
  "spot_server R fresh meth t1 t2 h md = server_chain fresh meth (rate_interceptor R t1 t2 (registered (\<lambda>_. h))) (received md)"

definition user_server ::
  "'k jwt_parser \<Rightarrow> 'k jwt_validator \<Rightarrow> string list \<Rightarrow> 'l rate_lib \<Rightarrow> ('m, 'l rate_limiter \<times> 's, 'a) prometheus_lib \<Rightarrow> 'm \<Rightarrow>
   string \<Rightarrow> string \<Rightarrow> time \<Rightarrow> time \<Rightarrow> (metadata \<Rightarrow> ('s, 'a) server_handler) \<Rightarrow> metadata \<Rightarrow>
   log_entry list \<times> 'm \<times> 'l rate_limiter \<times> 's \<Rightarrow> (log_entry list \<times> 'm \<times> 'l rate_limiter \<times> 's) \<times> 'a outcome"
where
  "user_server parse v ps R L m0 fresh meth t1 t2 h md =
     server_chain fresh meth (snd (MetricsInterceptor L m0) meth
       (rate_interceptor R t1 t2 (registered (user_guard parse v ps meth h)))) (received md)"

text \<open>An interceptor of the user service that no server uses: it hands the request on.\<close>

definition HTTPResponseWriterInterceptor :: "('s, 'a) unary \<Rightarrow> ('s, 'a) unary" where
  "HTTPResponseWriterInterceptor h cx s = h cx s"

section \<open>Limits and options\<close>

text \<open>The limiter of a server has a rate and a burst, and no limits for roles or bytes.\<close>

definition service_limits :: "int \<Rightarrow> int \<Rightarrow> rate_config" where
  "service_limits rps burst = \<lparr>rg_RequestsPerSecond = of_int rps, rg_MaxBurst = burst, rg_RoleLimits = [], rg_BytesPerSecond = 0\<rparr>"

definition order_limits :: "order_config \<Rightarrow> rate_config" where
  "order_limits cfg = service_limits (oc_RateLimitRPS cfg) (oc_RateLimitBurst cfg)"

definition user_limits :: "user_config \<Rightarrow> rate_config" where
  "user_limits cfg = service_limits (uc_RateLimitRPS cfg) (uc_RateLimitBurst cfg)"

definition spot_limits :: "spot_config \<Rightarrow> rate_config" where
  "spot_limits cfg = service_limits (sc_RateLimitRPS cfg) (sc_RateLimitBurst cfg)"

record keepalive =
  ka_MaxConnectionIdle :: duration
  ka_Time :: duration
  ka_Timeout :: duration

definition order_keepalive :: "order_config \<Rightarrow> keepalive" where
  "order_keepalive cfg = \<lparr>ka_MaxConnectionIdle = oc_GRPCKeepaliveMaxConnIdle cfg, ka_Time = oc_GRPCKeepaliveTime cfg,
     ka_Timeout = oc_GRPCKeepaliveTimeout cfg\<rparr>"

definition user_keepalive :: "user_config \<Rightarrow> keepalive" where
  "user_keepalive cfg = \<lparr>ka_MaxConnectionIdle = uc_GRPCKeepaliveMaxConnIdle cfg, ka_Time = uc_GRPCKeepaliveTime cfg,
     ka_Timeout = uc_GRPCKeepaliveTimeout cfg\<rparr>"

text \<open>No server has a limit for a role, and none needs one: nothing stores a role in the context.\<close>

lemma service_has_no_roles: "\<not> has_user_limit (NewRateLimiter R (service_limits rps burst))"
  by (simp add: has_user_limit_def NewRateLimiter_def service_limits_def gm_get_def)

section \<open>Properties\<close>

definition service_exhausted :: "'a outcome" where
  "service_exhausted = Returned (Inl (StatusErr CodeResourceExhausted ''service rate limit exceeded''))"

text \<open>What the client gets from an outcome, and what the log gains: the start and the end of the request under the
  identifier the client sent, and between them the panic if there was one.\<close>

fun outcome_answer :: "'a outcome \<Rightarrow> 'a result" where
  "outcome_answer (Returned r) = r"
| "outcome_answer (Panicked m) = Inl (StatusErr CodeInternal (''Internal server error: '' @ m))"

definition outcome_log :: "metadata \<Rightarrow> string \<Rightarrow> 'a outcome \<Rightarrow> log_entry list" where
  "outcome_log md meth x =
     (let entry = RequestLog (case incoming_id md of Some i \<Rightarrow> i | None \<Rightarrow> ''unknown'') meth
      in case x of
        Returned (Inr _) \<Rightarrow> [entry Started, entry Completed]
      | Returned (Inl _) \<Rightarrow> [entry Started, entry Failed]
      | Panicked m \<Rightarrow> [entry Started, PanicLog m, entry Failed])"

lemma chain_logs:
  "server_chain fresh meth inner cx (lg, s) =
     (case inner (cx\<lparr>rx_outgoing := [(RequestIDKey, case incoming_id (rx_incoming cx) of Some i \<Rightarrow> i | None \<Rightarrow> fresh)]\<rparr>) s of
        (s', x) \<Rightarrow> ((lg @ outcome_log (rx_incoming cx) meth x, s'), Returned (outcome_answer x)))"
  by (auto simp: server_chain_def XRequestID_def LoggerInterceptor_def UnaryPanicRecoveryInterceptor_def outcome_log_def Let_def
      split: prod.split outcome.split sum.split)

text \<open>With nothing in the context but the metadata, the rate limit is the limit of the service.\<close>

definition limited :: "'l rate_lib \<Rightarrow> time \<Rightarrow> 'l rate_limiter \<Rightarrow> 's \<Rightarrow> 's \<times> 'a outcome \<Rightarrow> 's \<times> 'a outcome" where
  "limited R t l s run = (if snd (Allow R t l) then run else (s, service_exhausted))"

lemma rate_received:
  assumes "rx_values cx = []" and "rx_claims cx = None"
  shows "rate_interceptor R t1 t2 (registered h) cx (l, s) =
    (case limited R t1 l s (h (rx_incoming cx) None s) of (s', x) \<Rightarrow> ((fst (Allow R t1 l), s'), x))"
  using assms by (cases "Allow R t1 l")
    (auto simp: rate_interceptor_def registered_def ClaimsFromContext_def limited_def service_exhausted_def Let_def split: prod.split)

lemma chain_received:
  assumes "monitors L"
  shows "\<exists>m'. server_chain fresh meth (snd (MetricsInterceptor L m0) meth (rate_interceptor R t1 t2 (registered h))) (received md) (lg, m, l, s) =
     (case limited R t1 l s (h md None s) of
        (s', x) \<Rightarrow> ((lg @ outcome_log md meth x, m', fst (Allow R t1 l), s'), Returned (outcome_answer x)))"
proof -
  let ?cx = "(received md)\<lparr>rx_outgoing := [(RequestIDKey, case incoming_id md of Some i \<Rightarrow> i | None \<Rightarrow> fresh)]\<rparr>"
  let ?inner = "rate_interceptor R t1 t2 (registered h)"
  obtain m' where "snd (MetricsInterceptor L m0) meth ?inner ?cx (m, l, s) = ((m', fst (?inner ?cx (l, s))), snd (?inner ?cx (l, s)))"
    using monitored[OF assms] by blast
  moreover have "?inner ?cx (l, s) = (case limited R t1 l s (h md None s) of (s', x) \<Rightarrow> ((fst (Allow R t1 l), s'), x))"
    by (subst rate_received) (simp_all add: received_def)
  ultimately show ?thesis by (auto simp: chain_logs received_def split: prod.split)
qed

text \<open>For handlers that return.\<close>

lemma chain_returns:
  assumes "monitors L"
  shows "\<exists>lg' m' l'. server_chain fresh meth (snd (MetricsInterceptor L m0) meth (rate_interceptor R t1 t2 (registered (\<lambda>m. returning (h m)))))
      (received md) (lg, m, l, s) =
     (if snd (Allow R t1 l) then ((lg', m', l', fst (h md None s)), Returned (snd (h md None s)))
      else ((lg', m', l', s), service_exhausted))"
  using chain_received[OF assms, of fresh meth m0 R t1 t2 "\<lambda>m. returning (h m)" md lg m l s]
  by (cases "snd (Allow R t1 l)"; cases "h md None s") (auto simp: limited_def returning_def service_exhausted_def)

text \<open>Whatever a client sends, the order server answers \<open>CreateOrder\<close> and \<open>ListOrders\<close> with
  Unauthenticated or with an exhausted rate limit, and no order is stored: no interceptor of its chain
  puts claims into the context.\<close>

lemma order_server_refuses:
  fixes ops :: "('r, 'ts) order_ops"
  assumes "monitors L" and "monitors L'"
  shows "(\<exists>lg' m' l' r. order_server R L m0 fresh meth t1 t2 (returning (oh_CreateOrder parses ops client E hid req)) md (lg, m, l, s) =
        ((lg', m', l', s), r) \<and>
      (r = Returned (Inl (unauthenticated ''user not authenticated'')) \<or> r = service_exhausted)) \<and>
    (\<exists>lg' m' l' r. order_server R L' m0 fresh meth t1 t2 (returning (oh_ListOrders ops cx seed)) md (lg, m, l, fst s) =
        ((lg', m', l', fst s), r) \<and>
      (r = Returned (Inl (unauthenticated ''user not authenticated'')) \<or> r = service_exhausted))"
proof -
  note create = chain_returns[OF assms(1), of fresh meth m0 R t1 t2 "\<lambda>_. oh_CreateOrder parses ops client E hid req" md lg m l s]
  note listed = chain_returns[OF assms(2), of fresh meth m0 R t1 t2 "\<lambda>_. oh_ListOrders ops cx seed" md lg m l "fst s"]
  show ?thesis using create listed
    by (cases "snd (Allow R t1 l)") (auto simp: order_server_def oh_CreateOrder_def oh_ListOrders_def)
qed

text \<open>C26: a request to any of the servers is answered, whatever its handler does: beyond the limit of the service with
  ResourceExhausted, without running the handler; otherwise as the handler answers (in the user service, as its authentication
  interceptor does or lets it), a panic as an Internal error. The log gains a start and an end under the request identifier of the
  client, and between them the entry of the panic when the handler panicked.\<close>

theorem every_request_answered:
  assumes "monitors L" and "monitors L'"
  shows "(\<exists>m'. order_server R L m0 fresh meth t1 t2 h md (lg, m, l, s) =
      (case limited R t1 l s (h None s) of
         (s', x) \<Rightarrow> ((lg @ outcome_log md meth x, m', fst (Allow R t1 l), s'), Returned (outcome_answer x)))) \<and>
    (\<exists>m'. user_server parse v ps R L' m0 fresh meth t1 t2 uh md (lg, m, l, u) =
      (case limited R t1 l u (user_guard parse v ps meth uh md None u) of
         (u', x) \<Rightarrow> ((lg @ outcome_log md meth x, m', fst (Allow R t1 l), u'), Returned (outcome_answer x)))) \<and>
    spot_server R fresh meth t1 t2 sh md (lg, l, c) =
      (case limited R t1 l c (sh None c) of
         (c', x) \<Rightarrow> ((lg @ outcome_log md meth x, fst (Allow R t1 l), c'), Returned (outcome_answer x)))"
proof (intro conjI)
  show "spot_server R fresh meth t1 t2 sh md (lg, l, c) =
      (case limited R t1 l c (sh None c) of
         (c', x) \<Rightarrow> ((lg @ outcome_log md meth x, fst (Allow R t1 l), c'), Returned (outcome_answer x)))"
    by (simp add: spot_server_def chain_logs rate_received received_def split: prod.split)
qed (unfold order_server_def user_server_def, rule chain_received[OF assms(1)], rule chain_received[OF assms(2)])

text \<open>Metrics that count the calls, and a handler that panics.\<close>

definition wit_metrics :: "(nat, 's, 'a) prometheus_lib" where
  "wit_metrics = \<lparr>pm_EnableHandlingTimeHistogram = (\<lambda>m. m),
     pm_UnaryServerInterceptor = (\<lambda>meth h cx st. case h cx (snd st) of (s', r) \<Rightarrow> ((Suc (fst st), s'), r))\<rparr>"

lemma wit_metrics_monitors: "monitors wit_metrics"
  by (auto simp: monitors_def wit_metrics_def split: prod.splits)

definition wit_broken :: "(nat, unit) server_handler" where
  "wit_broken claims n = (Suc n, Panicked ''index out of range'')"

theorem every_request_answered_witness:
  "\<exists>m'. order_server wit_rates wit_metrics 0 ''r1'' ''/m'' 0 0 wit_broken None ([], 0, NewRateLimiter wit_rates (service_limits 1 1), 7) =
     (([RequestLog ''unknown'' ''/m'' Started, PanicLog ''index out of range'', RequestLog ''unknown'' ''/m'' Failed], m',
       fst (Allow wit_rates 0 (NewRateLimiter wit_rates (service_limits 1 1))), 8),
      Returned (Inl (StatusErr CodeInternal ''Internal server error: index out of range'')))"
proof -
  let ?l = "NewRateLimiter wit_rates (service_limits 1 1)"
  have ok: "snd (Allow wit_rates 0 ?l)" by (simp add: Allow_def NewRateLimiter_def wit_rates_def service_limits_def)
  have run: "limited wit_rates 0 ?l 7 (wit_broken None 7) = (8, Panicked ''index out of range'')"
    by (simp only: limited_def ok if_True wit_broken_def) simp
  have "outcome_log None ''/m'' (Panicked ''index out of range'' :: unit outcome) =
      [RequestLog ''unknown'' ''/m'' Started, PanicLog ''index out of range'', RequestLog ''unknown'' ''/m'' Failed]"
    by (simp add: outcome_log_def incoming_id_def Let_def)
  then show ?thesis
    using every_request_answered[OF wit_metrics_monitors wit_metrics_monitors, of wit_rates 0 "''r1''" "''/m''" 0 0 wit_broken None "[]" 0 ?l 7,
      THEN conjunct1] run by simp
qed

end
