(* ===== verification/Idempotency.thy ===== *)
theory Idempotency
  imports Cache_Port
begin

text \<open>
  Idempotency keys: the in-memory store (\<open>shared/idempotency/idempotency.go\<close>) and the store over a
  cache (\<open>shared/adapters/redis_idempotency.go\<close>), the contract they share as a locale, what a sequence of calls, deletions and
  ticks of the cleanup answers, and where the contract ends: eviction at capacity and the race of two callers over a cache.
\<close>

section \<open>The in-memory store\<close>

record idem_store =
  is_data :: "(string, time) gomap"
  is_ttl :: duration
  is_maxKeys :: int
  is_stopped :: bool

definition NewStore :: "duration \<Rightarrow> int \<Rightarrow> idem_store" where
  "NewStore keyTTL maxKeys = \<lparr>is_data = [], is_ttl = keyTTL, is_maxKeys = maxKeys, is_stopped = False\<rparr>"

text \<open>At capacity the first key of a range loop is deleted: \<open>seed\<close> is the runtime's choice.\<close>

definition evict_one :: "nat \<Rightarrow> (string, time) gomap \<Rightarrow> (string, time) gomap" where
  "evict_one seed m = (case range_order seed m of [] \<Rightarrow> m | (k, e) # _ \<Rightarrow> gm_del k m)"

definition store_CheckAndSet :: "poll \<Rightarrow> time \<Rightarrow> nat \<Rightarrow> string \<Rightarrow> idem_store \<Rightarrow> idem_store \<times> bool result" where
  "store_CheckAndSet p now seed key s =
     (case p of Some e \<Rightarrow> (s, Inl (CtxErr e)) | None \<Rightarrow>
      if gm_get (is_data s) key \<noteq> None then (s, Inr True)
      else let room = (if is_maxKeys s > 0 \<and> int (length (is_data s)) \<ge> is_maxKeys s
                       then evict_one seed (is_data s) else is_data s)
        in (s\<lparr>is_data := gm_put key (now + is_ttl s) room\<rparr>, Inr False))"

text \<open>\<open>Delete\<close> does not look at its context.\<close>

definition store_Delete :: "string \<Rightarrow> idem_store \<Rightarrow> idem_store \<times> unit result" where
  "store_Delete key s = (s\<lparr>is_data := gm_del key (is_data s)\<rparr>, Inr ())"

text \<open>Closing a closed channel panics: \<open>None\<close>.\<close>

definition store_Close :: "idem_store \<Rightarrow> idem_store option" where
  "store_Close s = (if is_stopped s then None else Some (s\<lparr>is_stopped := True\<rparr>))"

definition store_Stats :: "idem_store \<Rightarrow> int \<times> int" where
  "store_Stats s = (int (length (is_data s)), is_maxKeys s)"

text \<open>One tick of \<open>cleanupLoop\<close>; after \<open>Close\<close> there are none.\<close>

definition store_cleanup :: "time \<Rightarrow> idem_store \<Rightarrow> idem_store" where
  "store_cleanup now s =
     (if is_stopped s then s else s\<lparr>is_data := filter (\<lambda>(k, e). \<not> now > e) (is_data s)\<rparr>)"

definition store_wf :: "idem_store \<Rightarrow> bool" where
  "store_wf s \<longleftrightarrow> gm_ok (is_data s) \<and> (is_maxKeys s > 0 \<longrightarrow> int (length (is_data s)) \<le> is_maxKeys s)"

lemma NewStore_wf [inv_intro]: "store_wf (NewStore ttl n)"
  by (simp add: store_wf_def NewStore_def)

lemma evict_one_ok [simp]: "gm_ok m \<Longrightarrow> gm_ok (evict_one seed m)"
  by (auto simp: evict_one_def split: list.split)

lemma evict_one_keys: "gm_keys (evict_one seed m) \<subseteq> gm_keys m"
  by (auto simp: evict_one_def split: list.split)

lemma evict_one_len: "gm_ok m \<Longrightarrow> m \<noteq> [] \<Longrightarrow> Suc (length (evict_one seed m)) = length m"
proof -
  assume ok: "gm_ok m" and m: "m \<noteq> []"
  obtain k e rest where r: "range_order seed m = (k, e) # rest"
    using m by (metis list.exhaust range_order_eq_Nil surj_pair)
  then have "(k, e) \<in> set (range_order seed m)" by simp
  then have "(k, e) \<in> set m" by (simp only: set_range_order)
  then have "k \<in> gm_keys m" by (force simp: gm_keys_def)
  then show ?thesis using ok m by (simp add: evict_one_def r gm_len_del)
qed

lemma store_CheckAndSet_wf [inv_intro]:
  assumes "store_wf s"
  shows "store_wf (fst (store_CheckAndSet p now seed k s))"
proof (cases "p = None \<and> gm_get (is_data s) k = None")
  case True
  let ?full = "is_maxKeys s > 0 \<and> int (length (is_data s)) \<ge> is_maxKeys s"
  let ?room = "if ?full then evict_one seed (is_data s) else is_data s"
  have ok: "gm_ok (is_data s)" using assms by (simp add: store_wf_def)
  have "k \<notin> gm_keys (is_data s)" using True by (simp add: gm_get_None)
  then have "k \<notin> gm_keys ?room" using evict_one_keys[of seed "is_data s"] by auto
  then have "length (gm_put k (now + is_ttl s) ?room) = Suc (length ?room)" using ok by (simp add: gm_len_put)
  moreover have "?full \<Longrightarrow> Suc (length ?room) = length (is_data s)"
  proof -
    assume f: ?full
    then have "is_data s \<noteq> []" by auto
    then show "Suc (length ?room) = length (is_data s)" using ok f by (simp add: evict_one_len)
  qed
  ultimately show ?thesis using assms ok True by (auto simp: store_CheckAndSet_def store_wf_def Let_def)
next
  case False
  then show ?thesis using assms by (cases p) (auto simp: store_CheckAndSet_def)
qed

lemma store_Delete_wf [inv_intro]: "store_wf s \<Longrightarrow> store_wf (fst (store_Delete k s))"
  using gm_len_del_le[of k "is_data s"] by (auto simp: store_Delete_def store_wf_def)

lemma store_cleanup_wf [inv_intro]: "store_wf s \<Longrightarrow> store_wf (store_cleanup now s)"
  by (auto simp: store_cleanup_def store_wf_def intro: order_trans[OF of_nat_mono[OF length_filter_le]])

section \<open>The store over a cache\<close>

text \<open>\<open>CheckAndSet\<close> is two calls of the cache, each with its own poll and time, between which other
  callers run: \<open>redis_lookup\<close> and \<open>redis_mark\<close>.\<close>

definition redis_lookup :: "'s cache_ops \<Rightarrow> poll \<Rightarrow> time \<Rightarrow> string \<Rightarrow> 's \<Rightarrow> 's \<times> bool result" where
  "redis_lookup c p t key s =
     (case c_Get c p t key s of (s1, Inl e) \<Rightarrow> (s1, Inl e) | (s1, Inr v) \<Rightarrow> (s1, Inr (v \<noteq> None)))"

definition redis_mark :: "'s cache_ops \<Rightarrow> poll \<Rightarrow> time \<Rightarrow> string \<Rightarrow> 's \<Rightarrow> 's \<times> bool result" where
  "redis_mark c p t key s =
     (case c_Set c p t key ''1'' 86400 s of (s2, Inl e) \<Rightarrow> (s2, Inl e) | (s2, Inr _) \<Rightarrow> (s2, Inr False))"

definition redis_CheckAndSet ::
  "'s cache_ops \<Rightarrow> ctx \<Rightarrow> time \<Rightarrow> time \<Rightarrow> string \<Rightarrow> 's \<Rightarrow> 's \<times> bool result"
where
  "redis_CheckAndSet c cx t1 t2 key s =
     (case redis_lookup c (cx 0) t1 key s of
        (s1, Inl e) \<Rightarrow> (s1, Inl e)
      | (s1, Inr found) \<Rightarrow> if found then (s1, Inr True) else redis_mark c (cx 1) t2 key s1)"

lemmas redis_parts = redis_CheckAndSet_def redis_lookup_def redis_mark_def

definition redis_idem_Delete :: "'s cache_ops \<Rightarrow> poll \<Rightarrow> string \<Rightarrow> 's \<Rightarrow> 's \<times> unit result" where
  "redis_idem_Delete c p key s = c_Delete c p key s"

section \<open>The contract\<close>

text \<open>What both stores promise: the answer is whether the key is known, a key asked about becomes
  known, and no other key does.\<close>

locale idempotency_store =
  fixes check :: "ctx \<Rightarrow> time \<Rightarrow> nat \<Rightarrow> string \<Rightarrow> 's \<Rightarrow> 's \<times> bool result"
    and known :: "time \<Rightarrow> 's \<Rightarrow> string \<Rightarrow> bool"
    and iinv :: "'s \<Rightarrow> bool"
  assumes check_answer: "iinv s \<Longrightarrow> snd (check cx now seed k s) = Inr b \<Longrightarrow> b = known now s k"
    and check_marks: "iinv s \<Longrightarrow> snd (check cx now seed k s) = Inr b \<Longrightarrow> known now (fst (check cx now seed k s)) k"
    and check_only: "iinv s \<Longrightarrow> known t (fst (check cx now seed k s)) j \<Longrightarrow> j = k \<or> known t s j"
    and check_inv: "iinv s \<Longrightarrow> iinv (fst (check cx now seed k s))"
begin

fun run :: "(ctx \<times> time \<times> nat \<times> string) list \<Rightarrow> 's \<Rightarrow> 's" where
  "run [] s = s"
| "run ((cx, now, seed, k) # calls) s = run calls (fst (check cx now seed k s))"

lemma run_inv: "iinv s \<Longrightarrow> iinv (run calls s)"
  by (induction calls s rule: run.induct) (simp_all add: check_inv)

lemma run_known:
  "iinv s \<Longrightarrow> known t (run calls s) j \<Longrightarrow> known t s j \<or> j \<in> (\<lambda>(cx, now, seed, k). k) ` set calls"
proof (induction calls s rule: run.induct)
  case (2 cx now seed k calls s)
  then show ?case using check_inv[OF "2.prems"(1)] check_only[OF "2.prems"(1), of t cx now seed k j] by auto
qed simp

text \<open>No false duplicates: a key that nobody asked about is new.\<close>

lemma new_key:
  "iinv s \<Longrightarrow> (\<And>t. \<not> known t s k) \<Longrightarrow> k \<notin> (\<lambda>(cx, now, seed, k). k) ` set calls \<Longrightarrow>
   snd (check cx now seed k (run calls s)) = Inr b \<Longrightarrow> b = False"
  using check_answer[OF run_inv] run_known by blast

text \<open>An immediate retry is a duplicate.\<close>

lemma retry_known:
  "iinv s \<Longrightarrow> snd (check cx now seed k s) = Inr b \<Longrightarrow>
   snd (check cx' now seed' k (fst (check cx now seed k s))) = Inr b' \<Longrightarrow> b'"
  using check_answer[OF check_inv] check_marks by blast

end

definition memory_check :: "ctx \<Rightarrow> time \<Rightarrow> nat \<Rightarrow> string \<Rightarrow> idem_store \<Rightarrow> idem_store \<times> bool result" where
  "memory_check cx = store_CheckAndSet (cx 0)"

lemma store_CheckAndSet_cases:
  "store_CheckAndSet None now seed k s =
    (if k \<in> gm_keys (is_data s) then (s, Inr True)
     else (s\<lparr>is_data := gm_put k (now + is_ttl s) (if is_maxKeys s > 0 \<and> int (length (is_data s)) \<ge> is_maxKeys s
                       then evict_one seed (is_data s) else is_data s)\<rparr>, Inr False))"
  by (auto simp: store_CheckAndSet_def gm_get_None Let_def dest: gm_key_get)

lemma store_CheckAndSet_done [simp]: "store_CheckAndSet (Some e) now seed k s = (s, Inl (CtxErr e))"
  by (simp add: store_CheckAndSet_def)

interpretation memory_idem: idempotency_store memory_check "\<lambda>t s k. k \<in> gm_keys (is_data s)" store_wf
proof (unfold_locales, goal_cases)
  case (1 s cx now seed k b)
  then show ?case by (cases "cx 0") (auto simp: memory_check_def store_CheckAndSet_cases split: if_splits)
next
  case (2 s cx now seed k b)
  then show ?case by (cases "cx 0") (auto simp: memory_check_def store_CheckAndSet_cases split: if_splits)
next
  case (3 s t cx now seed k j)
  then show ?case using evict_one_keys[of seed "is_data s"]
    by (cases "cx 0") (auto simp: memory_check_def store_CheckAndSet_cases split: if_splits)
next
  case (4 s cx now seed k)
  then show ?case by (simp add: memory_check_def store_CheckAndSet_wf)
qed

definition redis_check :: "ctx \<Rightarrow> time \<Rightarrow> nat \<Rightarrow> string \<Rightarrow> lru \<Rightarrow> lru \<times> bool result" where
  "redis_check cx now seed = redis_CheckAndSet lru_ops cx now now"

lemma lru_Get_keeps: "snd (lru_Get p now k c) = Inr (Some v) \<Longrightarrow> lru_live now (fst (lru_Get p now k c)) k = Some v"
  by (auto simp: lru_Get_def lru_live_def split: option.splits if_splits)

lemma redis_CheckAndSet_cases:
  obtains (failed) e s' where "redis_CheckAndSet c cx t1 t2 k s = (s', Inl e)"
      and "s' = fst (c_Get c (cx 0) t1 k s) \<or> s' = fst (c_Set c (cx 1) t2 k ''1'' 86400 (fst (c_Get c (cx 0) t1 k s)))"
  | (found) v where "snd (c_Get c (cx 0) t1 k s) = Inr (Some v)"
      and "redis_CheckAndSet c cx t1 t2 k s = (fst (c_Get c (cx 0) t1 k s), Inr True)"
  | (stored) "snd (c_Get c (cx 0) t1 k s) = Inr None"
      and "snd (c_Set c (cx 1) t2 k ''1'' 86400 (fst (c_Get c (cx 0) t1 k s))) = Inr ()"
      and "redis_CheckAndSet c cx t1 t2 k s = (fst (c_Set c (cx 1) t2 k ''1'' 86400 (fst (c_Get c (cx 0) t1 k s))), Inr False)"
proof -
  obtain s1 r1 where g: "c_Get c (cx 0) t1 k s = (s1, r1)" by fastforce
  obtain s2 r2 where st: "c_Set c (cx 1) t2 k ''1'' 86400 s1 = (s2, r2)" by fastforce
  show ?thesis
  proof (cases r1)
    case (Inl e)
    then show ?thesis using g by (intro failed[of s1 e]) (simp_all add: redis_parts)
  next
    case r: (Inr o1)
    show ?thesis
    proof (cases o1)
      case (Some v)
      then show ?thesis using g r by (intro found[of v]) (simp_all add: redis_parts)
    next
      case None
      then show ?thesis using g r st failed[of s2] stored by (cases r2) (simp_all add: redis_parts)
    qed
  qed
qed

interpretation redis_idem: idempotency_store redis_check "\<lambda>t s k. lru_live t s k \<noteq> None" lru_wf
proof (unfold_locales, goal_cases)
  case (1 s cx now seed k b)
  have "snd (lru_Get (cx 0) now k s) = Inr x \<Longrightarrow> x = lru_live now s k" for x
    using lru_cache.get_answer[OF 1(1)] by simp
  note ans = this
  show ?case
    using 1(2) by (cases rule: redis_CheckAndSet_cases[of lru_ops cx now now k s]; cases "lru_live now s k")
      (auto simp: redis_check_def dest!: ans)
next
  case (2 s cx now seed k b)
  show ?case
  proof (cases rule: redis_CheckAndSet_cases[of lru_ops cx now now k s])
    case (found v)
    then show ?thesis using lru_Get_keeps by (simp add: redis_check_def)
  next
    case stored
    let ?s1 = "fst (lru_Get (cx 0) now k s)"
    have "cx 1 = None" using stored(2) by (cases "cx 1") (simp_all add: lru_Set_def)
    moreover have "lru_live now (fst (lru_Set None now k ''1'' 86400 ?s1)) k = Some ''1''"
      using 2(1) by (intro lru_cache.set_holds[simplified]) (simp_all add: lru_Get_wf second_def)
    ultimately show ?thesis using stored by (simp add: redis_check_def)
  qed (use 2 in \<open>simp add: redis_check_def\<close>)
next
  case (3 s t cx now seed k j)
  have g: "lru_live t (fst (lru_Get (cx 0) now k s)) j = Some w \<Longrightarrow> lru_live t s j = Some w" for w
    by (rule lru_Get_live[OF 3(1)])
  have st: "lru_live t (fst (lru_Set (cx 1) now k ''1'' 86400 (fst (lru_Get (cx 0) now k s)))) j = Some w \<Longrightarrow>
    j = k \<or> lru_live t (fst (lru_Get (cx 0) now k s)) j = Some w" for w
    using lru_Set_live[OF lru_Get_wf[OF 3(1)]] by blast
  show ?case using 3(2) g st
    by (cases rule: redis_CheckAndSet_cases[of lru_ops cx now now k s]) (auto simp: redis_check_def)
next
  case (4 s cx now seed k)
  then show ?case
    by (cases rule: redis_CheckAndSet_cases[of lru_ops cx now now k s]) (auto simp: redis_check_def lru_Get_wf lru_Set_wf)
qed

section \<open>What the stores guarantee\<close>

text \<open>What happens to a store that is not closed: calls, with any context, and ticks of the cleanup.\<close>

datatype idem_op = IdCheck poll time nat string | IdDelete string | IdTick time

fun idem_step :: "idem_op \<Rightarrow> idem_store \<Rightarrow> idem_store \<times> bool result option" where
  "idem_step (IdCheck p now seed k) s = (case store_CheckAndSet p now seed k s of (s', b) \<Rightarrow> (s', Some b))"
| "idem_step (IdDelete k) s = (fst (store_Delete k s), None)"
| "idem_step (IdTick now) s = (store_cleanup now s, None)"

fun idem_answers :: "idem_op list \<Rightarrow> idem_store \<Rightarrow> bool result option list" where
  "idem_answers [] s = []"
| "idem_answers (x # xs) s = (case idem_step x s of (s', b) \<Rightarrow> b # idem_answers xs s')"

definition idem_state :: "idem_op list \<Rightarrow> idem_store \<Rightarrow> idem_store" where
  "idem_state xs s = fold (\<lambda>x s. fst (idem_step x s)) xs s"

fun idem_asked :: "idem_op \<Rightarrow> string set" where
  "idem_asked (IdCheck p now seed k) = {k}"
| "idem_asked _ = {}"

text \<open>What takes a key with the expiry \<open>e\<close> out of the store: deleting it, and a tick after \<open>e\<close>.\<close>

fun idem_removes :: "idem_op \<Rightarrow> string \<Rightarrow> time \<Rightarrow> bool" where
  "idem_removes (IdCheck p now seed j) k e = False"
| "idem_removes (IdDelete j) k e = (j = k)"
| "idem_removes (IdTick now) k e = (now > e)"

text \<open>The call number \<open>j\<close> was accepted with the key \<open>k\<close>, which expires at \<open>e\<close>.\<close>

definition idem_accepted :: "idem_op list \<Rightarrow> idem_store \<Rightarrow> nat \<Rightarrow> string \<Rightarrow> time \<Rightarrow> bool" where
  "idem_accepted xs s j k e \<longleftrightarrow> idem_answers xs s ! j = Some (Inr False) \<and> (\<exists>t seed. xs ! j = IdCheck None t seed k \<and> e = t + is_ttl s)"

definition idem_held :: "idem_op list \<Rightarrow> idem_store \<Rightarrow> nat \<Rightarrow> string \<Rightarrow> time \<Rightarrow> bool" where
  "idem_held xs s i k e \<longleftrightarrow> (\<exists>j < i. idem_accepted xs s j k e \<and> (\<forall>m. j < m \<and> m < i \<longrightarrow> \<not> idem_removes (xs ! m) k e))"

lemma idem_answers_snoc: "idem_answers (xs @ [x]) s = idem_answers xs s @ [snd (idem_step x (idem_state xs s))]"
  by (induction xs arbitrary: s) (simp_all add: idem_state_def split: prod.split)

lemma idem_answers_length [simp]: "length (idem_answers xs s) = length xs"
  by (induction xs arbitrary: s) (simp_all split: prod.split)

lemma idem_state_snoc: "idem_state (xs @ [x]) s = fst (idem_step x (idem_state xs s))"
  by (simp add: idem_state_def)

lemma idem_answers_append: "idem_answers (xs @ ys) s = idem_answers xs s @ idem_answers ys (idem_state xs s)"
  by (induction xs arbitrary: s) (simp_all add: idem_state_def split: prod.split)

lemma idem_answers_nth: "i < length xs \<Longrightarrow> idem_answers xs s ! i = snd (idem_step (xs ! i) (idem_state (take i xs) s))"
proof -
  assume i: "i < length xs"
  have "xs = take i xs @ xs ! i # drop (Suc i) xs" using i by (simp add: id_take_nth_drop)
  then have "idem_answers xs s = idem_answers (take i xs) s @ idem_answers (xs ! i # drop (Suc i) xs) (idem_state (take i xs) s)"
    by (metis idem_answers_append)
  then show ?thesis using i by (simp add: nth_append split: prod.split)
qed

lemma held_snoc:
  "idem_held (xs @ [x]) s (Suc (length xs)) k e \<longleftrightarrow>
     idem_accepted (xs @ [x]) s (length xs) k e \<or> idem_held xs s (length xs) k e \<and> \<not> idem_removes x k e"
proof -
  have old: "idem_accepted (xs @ [x]) s j k e = idem_accepted xs s j k e" if "j < length xs" for j
    using that by (simp add: idem_accepted_def idem_answers_snoc nth_append)
  show ?thesis
  proof
    assume "idem_held (xs @ [x]) s (Suc (length xs)) k e"
    then obtain j where j: "j < Suc (length xs)" "idem_accepted (xs @ [x]) s j k e"
        "\<And>m. j < m \<Longrightarrow> m < Suc (length xs) \<Longrightarrow> \<not> idem_removes ((xs @ [x]) ! m) k e" unfolding idem_held_def by blast
    show "idem_accepted (xs @ [x]) s (length xs) k e \<or> idem_held xs s (length xs) k e \<and> \<not> idem_removes x k e"
    proof (cases "j = length xs")
      case False
      then have "j < length xs" using j(1) by simp
      moreover have "\<not> idem_removes x k e" using j(3)[of "length xs"] calculation by simp
      moreover have "\<not> idem_removes (xs ! m) k e" if "j < m" "m < length xs" for m
        using j(3)[of m] that by (simp add: nth_append)
      ultimately show ?thesis using j(2) old unfolding idem_held_def by blast
    qed (use j(2) in simp)
  next
    assume "idem_accepted (xs @ [x]) s (length xs) k e \<or> idem_held xs s (length xs) k e \<and> \<not> idem_removes x k e"
    then show "idem_held (xs @ [x]) s (Suc (length xs)) k e"
    proof
      assume "idem_held xs s (length xs) k e \<and> \<not> idem_removes x k e"
      then obtain j where j: "j < length xs" "idem_accepted xs s j k e" "\<not> idem_removes x k e"
          "\<And>m. j < m \<Longrightarrow> m < length xs \<Longrightarrow> \<not> idem_removes (xs ! m) k e" unfolding idem_held_def by blast
      have "\<not> idem_removes ((xs @ [x]) ! m) k e" if "j < m" "m < Suc (length xs)" for m
        using that j(3,4) by (simp add: nth_append less_Suc_eq_le)
      then show ?thesis using j(1,2) old unfolding idem_held_def by (metis less_SucI)
    qed (auto simp: idem_held_def)
  qed
qed

text \<open>With room for the keys, the store holds the keys accepted and not removed since, with their expiry.\<close>

definition idem_roomy :: "idem_op list \<Rightarrow> int \<Rightarrow> bool" where
  "idem_roomy xs maxKeys \<longleftrightarrow> maxKeys \<le> 0 \<or> int (card (\<Union> (idem_asked ` set xs))) \<le> maxKeys"

lemma finite_asked: "finite (\<Union> (idem_asked ` set xs))"
proof -
  have "finite (idem_asked x)" for x by (cases x) simp_all
  then show ?thesis by simp
qed

lemma roomy_snoc: "idem_roomy (xs @ [x]) n \<Longrightarrow> idem_roomy xs n"
proof -
  assume "idem_roomy (xs @ [x]) n"
  moreover have "card (\<Union> (idem_asked ` set xs)) \<le> card (\<Union> (idem_asked ` set (xs @ [x])))"
    by (rule card_mono[OF finite_asked]) auto
  ultimately show ?thesis by (auto simp: idem_roomy_def)
qed

lemma idem_state_held:
  assumes "idem_roomy xs n"
  shows "gm_ok (is_data (idem_state xs (NewStore ttl n))) \<and> is_ttl (idem_state xs (NewStore ttl n)) = ttl \<and>
    is_maxKeys (idem_state xs (NewStore ttl n)) = n \<and> \<not> is_stopped (idem_state xs (NewStore ttl n)) \<and>
    gm_keys (is_data (idem_state xs (NewStore ttl n))) \<subseteq> \<Union> (idem_asked ` set xs) \<and>
    (\<forall>k e. gm_get (is_data (idem_state xs (NewStore ttl n))) k = Some e \<longleftrightarrow> idem_held xs (NewStore ttl n) (length xs) k e)"
  using assms
proof (induction xs rule: rev_induct)
  case Nil
  then show ?case by (simp add: idem_state_def NewStore_def idem_held_def)
next
  case (snoc x xs)
  let ?empty = "NewStore ttl n"
  let ?s = "idem_state xs ?empty"
  have IH: "gm_ok (is_data ?s)" "is_ttl ?s = ttl" "is_maxKeys ?s = n" "\<not> is_stopped ?s" "gm_keys (is_data ?s) \<subseteq> \<Union> (idem_asked ` set xs)"
    and idem_held: "\<And>k e. gm_get (is_data ?s) k = Some e \<longleftrightarrow> idem_held xs ?empty (length xs) k e"
    using snoc.IH[OF roomy_snoc[OF snoc.prems]] by auto
  have ttl0: "is_ttl ?empty = ttl" by (simp add: NewStore_def)
  have new: "idem_accepted (xs @ [x]) ?empty (length xs) k e \<longleftrightarrow>
      snd (idem_step x ?s) = Some (Inr False) \<and> (\<exists>t seed. x = IdCheck None t seed k \<and> e = t + ttl)" for k e
    by (simp add: idem_accepted_def idem_answers_snoc nth_append ttl0)
  obtain s' a where run: "idem_step x ?s = (s', a)" by fastforce
  have "gm_ok (is_data s') \<and> is_ttl s' = ttl \<and> is_maxKeys s' = n \<and> \<not> is_stopped s' \<and>
      gm_keys (is_data s') \<subseteq> \<Union> (idem_asked ` set (xs @ [x])) \<and>
      (\<forall>k e. gm_get (is_data s') k = Some e \<longleftrightarrow> a = Some (Inr False) \<and> (\<exists>t seed. x = IdCheck None t seed k \<and> e = t + ttl) \<or>
         gm_get (is_data ?s) k = Some e \<and> \<not> idem_removes x k e)"
  proof (cases x)
    case (IdDelete j)
    then show ?thesis using IH run by (auto simp: store_Delete_def split: if_splits)
  next
    case (IdTick now)
    have "gm_keys (filter P m) \<subseteq> gm_keys m" for P and m :: "(string, time) gomap" by (auto simp: gm_keys_def)
    then have "gm_keys (filter (\<lambda>(k, e). \<not> now > e) (is_data ?s)) \<subseteq> \<Union> (idem_asked ` set xs)" using IH(5) by (rule subset_trans)
    then show ?thesis using IH run IdTick
      by (auto simp: store_cleanup_def gm_get_filter split: option.splits if_splits)
  next
    case (IdCheck p now seed j)
    show ?thesis
    proof (cases "p = None \<and> j \<notin> gm_keys (is_data ?s)")
      case True
      then have none: "gm_get (is_data ?s) j = None" by (simp add: gm_get_None)
      have "\<not> (n > 0 \<and> int (length (is_data ?s)) \<ge> n)"
      proof
        assume full: "n > 0 \<and> int (length (is_data ?s)) \<ge> n"
        have "card (insert j (gm_keys (is_data ?s))) \<le> card (\<Union> (idem_asked ` set (xs @ [x])))"
          by (rule card_mono[OF finite_asked]) (use IH(5) IdCheck in auto)
        then show False using full snoc.prems True IH(1) by (simp add: gm_len idem_roomy_def)
      qed
      then have st: "idem_step x ?s = (?s\<lparr>is_data := gm_put j (now + ttl) (is_data ?s)\<rparr>, Some (Inr False))"
        using True IH(2,3) IdCheck by (simp add: store_CheckAndSet_cases if_not_P)
      show ?thesis using IH True none run st IdCheck by auto
    next
      case False
      then have st: "fst (idem_step x ?s) = ?s" "snd (idem_step x ?s) \<noteq> Some (Inr False)"
        using IdCheck by (cases p; auto simp: store_CheckAndSet_cases)+
      show ?thesis using IH st run IdCheck by auto
    qed
  qed
  then show ?case by (simp add: idem_state_snoc run held_snoc idem_held[symmetric] new)
qed

lemma check_answers_held:
  assumes "i < length xs" and "xs ! i = IdCheck None now seed k" and "idem_roomy xs n"
  shows "idem_answers xs (NewStore ttl n) ! i = Some (Inr (\<exists>e. idem_held xs (NewStore ttl n) i k e))"
proof -
  have "idem_roomy (take i xs) n"
  proof -
    have "card (\<Union> (idem_asked ` set (take i xs))) \<le> card (\<Union> (idem_asked ` set xs))"
      by (rule card_mono[OF finite_asked]) (use in_set_takeD in fastforce)
    then show ?thesis using assms(3) by (auto simp: idem_roomy_def)
  qed
  from idem_state_held[OF this, of ttl] have get: "gm_get (is_data (idem_state (take i xs) (NewStore ttl n))) k = Some e \<longleftrightarrow>
      idem_held (take i xs) (NewStore ttl n) i k e" for e using assms(1) by simp
  have "idem_accepted (take i xs) (NewStore ttl n) j k e = idem_accepted xs (NewStore ttl n) j k e" if "j < i" for j e
    using that assms(1) by (simp add: idem_accepted_def idem_answers_nth min_def)
  then have "idem_held (take i xs) (NewStore ttl n) i k e = idem_held xs (NewStore ttl n) i k e" for e
    unfolding idem_held_def by (metis nth_take)
  then have "k \<in> gm_keys (is_data (idem_state (take i xs) (NewStore ttl n))) \<longleftrightarrow> (\<exists>e. idem_held xs (NewStore ttl n) i k e)"
    using get by (metis gm_get_Some_key gm_key_get)
  then show ?thesis using assms(1,2) by (simp add: idem_answers_nth store_CheckAndSet_cases)
qed

fun op_time :: "idem_op \<Rightarrow> time option" where
  "op_time (IdCheck p now seed k) = Some now"
| "op_time (IdDelete k) = None"
| "op_time (IdTick now) = Some now"

text \<open>The clock does not run backwards.\<close>

definition idem_clocked :: "idem_op list \<Rightarrow> bool" where
  "idem_clocked xs \<longleftrightarrow> (\<forall>i < length xs. \<forall>j < i. case (op_time (xs ! j), op_time (xs ! i)) of (Some a, Some b) \<Rightarrow> a \<le> b | _ \<Rightarrow> True)"

lemma clockedD: "idem_clocked xs \<Longrightarrow> j < i \<Longrightarrow> i < length xs \<Longrightarrow> op_time (xs ! j) = Some a \<Longrightarrow> op_time (xs ! i) = Some b \<Longrightarrow> a \<le> b"
  unfolding idem_clocked_def by fastforce

text \<open>C23: as long as no more keys are in use than the store may hold, a call of \<open>CheckAndSet\<close> answers whether
  an earlier accepted call with its key has not been undone since, by \<open>Delete\<close> or by a tick of the cleanup after the
  expiry of the key. So within the time to live exactly the first call with a key is accepted, whatever ticks come, and
  a key is new again when every accepted call with it was followed by a tick after its expiry; between the expiry and that tick it
  is still a duplicate.\<close>

theorem idempotency_first_wins:
  assumes "idem_roomy xs n"
  shows "(\<forall>i < length xs. \<forall>now seed k. xs ! i = IdCheck None now seed k \<longrightarrow>
      idem_answers xs (NewStore ttl n) ! i = Some (Inr (\<exists>e. idem_held xs (NewStore ttl n) i k e))) \<and>
    (\<forall>j i k e now seed. idem_clocked xs \<longrightarrow> j < i \<longrightarrow> i < length xs \<longrightarrow> idem_accepted xs (NewStore ttl n) j k e \<longrightarrow>
      xs ! i = IdCheck None now seed k \<longrightarrow> now \<le> e \<longrightarrow> (\<forall>m. j < m \<and> m < i \<longrightarrow> xs ! m \<noteq> IdDelete k) \<longrightarrow>
      idem_answers xs (NewStore ttl n) ! i = Some (Inr True)) \<and>
    (\<forall>i now seed k. i < length xs \<longrightarrow> xs ! i = IdCheck None now seed k \<longrightarrow>
      (\<forall>j e. j < i \<longrightarrow> idem_accepted xs (NewStore ttl n) j k e \<longrightarrow> (\<exists>m tick. j < m \<and> m < i \<and> xs ! m = IdTick tick \<and> tick > e)) \<longrightarrow>
      idem_answers xs (NewStore ttl n) ! i = Some (Inr False))"
proof (intro conjI allI impI)
  note exact = check_answers_held[OF _ _ assms, of _ _ _ _ ttl]
  show "idem_answers xs (NewStore ttl n) ! i = Some (Inr (\<exists>e. idem_held xs (NewStore ttl n) i k e))"
    if "i < length xs" "xs ! i = IdCheck None now seed k" for i now seed k by (rule exact[OF that])
  show "idem_answers xs (NewStore ttl n) ! i = Some (Inr True)"
    if c: "idem_clocked xs" and i: "j < i" "i < length xs" and acc: "idem_accepted xs (NewStore ttl n) j k e"
      and x: "xs ! i = IdCheck None now seed k" and live: "now \<le> e" and nodel: "\<forall>m. j < m \<and> m < i \<longrightarrow> xs ! m \<noteq> IdDelete k"
    for j i k e now seed
  proof -
    have "\<not> idem_removes (xs ! m) k e" if m: "j < m" "m < i" for m
    proof (cases "xs ! m")
      case (IdTick tick)
      then have "tick \<le> now" using clockedD[OF c m(2) i(2)] x by simp
      then show ?thesis using IdTick live by simp
    qed (use nodel m in auto)
    then have "\<exists>e. idem_held xs (NewStore ttl n) i k e" using i(1) acc unfolding idem_held_def by blast
    then show ?thesis using exact[OF i(2) x] by simp
  qed
  show "idem_answers xs (NewStore ttl n) ! i = Some (Inr False)"
    if i: "i < length xs" and x: "xs ! i = IdCheck None now seed k"
      and gone: "\<forall>j e. j < i \<longrightarrow> idem_accepted xs (NewStore ttl n) j k e \<longrightarrow> (\<exists>m tick. j < m \<and> m < i \<and> xs ! m = IdTick tick \<and> tick > e)"
    for i now seed k
  proof -
    have "\<not> idem_held xs (NewStore ttl n) i k e" for e
    proof
      assume "idem_held xs (NewStore ttl n) i k e"
      then obtain j where j: "j < i" "idem_accepted xs (NewStore ttl n) j k e" "\<forall>m. j < m \<and> m < i \<longrightarrow> \<not> idem_removes (xs ! m) k e"
        by (auto simp: idem_held_def)
      then obtain m tick where "j < m" "m < i" "xs ! m = IdTick tick" "tick > e" using gone by blast
      then show False using j(3) by (metis idem_removes.simps(3))
    qed
    then show ?thesis using exact[OF i x] by simp
  qed
qed

text \<open>A time to live of 100 and a tick every 50: a repetition at 60 is a duplicate, one at 120 is not when a tick came just
  after the expiry (the test of the repository), and is one when the last tick came just before it.\<close>

definition wit_expired :: "idem_op list" where
  "wit_expired = [IdCheck None 0 0 ''order-ttl'', IdTick 50, IdCheck None 60 0 ''order-ttl'', IdTick 101, IdCheck None 120 0 ''order-ttl'']"

definition wit_unswept :: "idem_op list" where
  "wit_unswept = [IdCheck None 0 0 ''order-ttl'', IdTick 50, IdTick 100, IdCheck None 120 0 ''order-ttl'']"

lemma wit_roomy: "idem_roomy wit_expired 1000" "idem_roomy wit_unswept 1000"
  by (simp_all add: idem_roomy_def wit_expired_def wit_unswept_def)

lemma wit_first: "idem_answers wit_expired (NewStore 100 1000) ! 0 = Some (Inr False)"
    "idem_answers wit_unswept (NewStore 100 1000) ! 0 = Some (Inr False)"
  by (simp_all add: wit_expired_def wit_unswept_def NewStore_def store_CheckAndSet_def split: prod.split)

lemma wit_clocked: "idem_clocked wit_expired"
  by (simp add: idem_clocked_def wit_expired_def All_less_Suc numeral_eq_Suc)

theorem idempotency_first_wins_witness:
  "idem_answers wit_expired (NewStore 100 1000) ! 2 = Some (Inr True) \<and> idem_answers wit_expired (NewStore 100 1000) ! 4 = Some (Inr False) \<and>
   idem_answers wit_unswept (NewStore 100 1000) ! 3 = Some (Inr True)"
proof -
  note e = idempotency_first_wins[OF wit_roomy(1), of 100] and u = idempotency_first_wins[OF wit_roomy(2), of 100]
  have acc: "idem_accepted wit_expired (NewStore 100 1000) 0 ''order-ttl'' 100" "idem_accepted wit_unswept (NewStore 100 1000) 0 ''order-ttl'' 100"
    using wit_first by (simp_all add: idem_accepted_def wit_expired_def wit_unswept_def NewStore_def)
  have "\<forall>m. 0 < m \<and> m < 2 \<longrightarrow> wit_expired ! m \<noteq> IdDelete ''order-ttl''" by (auto simp: wit_expired_def less_Suc_eq numeral_eq_Suc)
  then have two: "idem_answers wit_expired (NewStore 100 1000) ! 2 = Some (Inr True)"
    using conjunct1[OF conjunct2[OF e], rule_format, OF wit_clocked _ _ acc(1), of 2 60 0] by (simp add: wit_expired_def)
  have four: "idem_answers wit_expired (NewStore 100 1000) ! 4 = Some (Inr False)"
  proof (rule conjunct2[OF conjunct2[OF e], rule_format, of 4 120 0 "''order-ttl''"])
    fix j k
    assume j: "j < (4 :: nat)" and a: "idem_accepted wit_expired (NewStore 100 1000) j ''order-ttl'' k"
    have "j \<noteq> 2" using two a by (auto simp: idem_accepted_def)
    then consider "j = 0" | "j = 1" | "j = 3" using j by linarith
    then have "j = 0 \<and> k = 100" using a by cases (auto simp: idem_accepted_def wit_expired_def NewStore_def)
    then show "\<exists>m tick. j < m \<and> m < 4 \<and> wit_expired ! m = IdTick tick \<and> k < tick"
      by (intro exI[of _ 3] exI[of _ 101]) (simp add: wit_expired_def)
  qed (simp_all add: wit_expired_def)
  have "\<forall>m. 0 < m \<and> m < 3 \<longrightarrow> \<not> idem_removes (wit_unswept ! m) ''order-ttl'' 100" by (auto simp: wit_unswept_def less_Suc_eq numeral_eq_Suc)
  then have "\<exists>e. idem_held wit_unswept (NewStore 100 1000) 3 ''order-ttl'' e"
    unfolding idem_held_def using acc(2) by (intro exI[of _ 100] exI[of _ 0]) simp
  then have "idem_answers wit_unswept (NewStore 100 1000) ! 3 = Some (Inr True)"
    using conjunct1[OF u, rule_format, of 3 120 0 "''order-ttl''"] by (simp add: wit_unswept_def)
  then show ?thesis using two four by blast
qed

text \<open>The store never holds more keys than its limit, and at the limit any key, also one just
  accepted, may be forgotten: for every key idem_held there is a choice of the runtime with which the
  next new key drops it, so that its repetition is accepted again.\<close>

lemma idempotency_eviction_forgets:
  assumes "store_wf s" and "is_maxKeys s > 0" and "int (length (is_data s)) = is_maxKeys s"
    and "k \<in> gm_keys (is_data s)" and "j \<notin> gm_keys (is_data s)"
  shows "(\<forall>p now seed i. int (length (is_data (fst (store_CheckAndSet p now seed i s)))) \<le> is_maxKeys s) \<and>
    (\<exists>seed. \<forall>now now' seed'. snd (store_CheckAndSet None now' seed' k (fst (store_CheckAndSet None now seed j s))) = Inr False)"
proof -
  have ok: "gm_ok (is_data s)" using assms(1) by (simp add: store_wf_def)
  have max: "is_maxKeys (fst (store_CheckAndSet p now seed i s)) = is_maxKeys s" for p now seed i
    by (cases p) (simp_all add: store_CheckAndSet_cases)
  have cap: "int (length (is_data (fst (store_CheckAndSet p now seed i s)))) \<le> is_maxKeys s" for p now seed i
    using store_CheckAndSet_wf[OF assms(1), of p now seed i] assms(2) max by (simp add: store_wf_def)
  obtain e where e: "(k, e) \<in> set (is_data s)" using assms(4) by (auto simp: gm_keys_def)
  then obtain rest where "mset ((k, e) # rest) = mset (is_data s)"
    by (metis ex_mset insert_DiffM mset.simps(2) set_mset_mset)
  then obtain seed where "range_order seed (is_data s) = (k, e) # rest" using range_order_complete by blast
  then have "evict_one seed (is_data s) = gm_del k (is_data s)" by (simp add: evict_one_def)
  then have "gm_keys (is_data (fst (store_CheckAndSet None now seed j s))) = insert j (gm_keys (is_data s) - {k})" for now
    using assms(2,3,5) by (simp add: store_CheckAndSet_cases)
  then have "snd (store_CheckAndSet None now' seed' k (fst (store_CheckAndSet None now seed j s))) = Inr False" for now now' seed'
    using assms(4,5) store_CheckAndSet_cases[of now' seed' k "fst (store_CheckAndSet None now seed j s)"] by auto
  then show ?thesis using cap by blast
qed

lemma idempotency_eviction_forgets_witness:
  "\<exists>seed. snd (store_CheckAndSet None 3 0 ''a'' (fst (store_CheckAndSet None 2 seed ''b''
     (fst (store_CheckAndSet None 1 0 ''a'' (NewStore 5 1)))))) = Inr False"
proof -
  let ?s = "fst (store_CheckAndSet None 1 0 ''a'' (NewStore 5 1))"
  have s: "is_data ?s = [(''a'', 6)]" "is_maxKeys ?s = 1" by (simp_all add: store_CheckAndSet_def NewStore_def gm_put_def)
  have "\<exists>seed. \<forall>now now' seed'. snd (store_CheckAndSet None now' seed' ''a'' (fst (store_CheckAndSet None now seed ''b'' ?s))) = Inr False"
    by (rule conjunct2[OF idempotency_eviction_forgets[OF store_CheckAndSet_wf[OF NewStore_wf]]]) (simp_all add: s gm_keys_def)
  then show ?thesis by blast
qed

text \<open>The store over a cache does not decide between concurrent callers: two calls with the same new
  key that both read before either writes are both accepted.\<close>

lemma redis_idempotency_race:
  assumes "lru_wf s" and "lru_live t1 s k = None" and "lru_live t2 (fst (lru_Get None t1 k s)) k = None"
  shows "\<exists>s1 s2 s3 s4. redis_lookup lru_ops None t1 k s = (s1, Inr False) \<and> redis_lookup lru_ops None t2 k s1 = (s2, Inr False) \<and>
    redis_mark lru_ops None t3 k s2 = (s3, Inr False) \<and> redis_mark lru_ops None t4 k s3 = (s4, Inr False)"
proof -
  obtain s1 where one: "lru_Get None t1 k s = (s1, Inr None)" using lru_Get_answer[of t1 k s] assms(2) by (metis prod.collapse)
  obtain s2 where two: "lru_Get None t2 k s1 = (s2, Inr None)"
    using lru_Get_answer[of t2 k s1] assms(3) one by (metis fst_conv prod.collapse)
  have wf1: "lru_wf s1" using lru_Get_wf[OF assms(1), of None t1 k] one by simp
  have wf2: "lru_wf s2" using lru_Get_wf[OF wf1, of None t2 k] two by simp
  have set_total: "\<exists>s'. lru_Set None t k v ttl c = (s', Inr ())" if "lru_wf c" for t v ttl c
    using lru_cache.set_total[OF that, of t k v ttl] by (metis lru_ops_simps(2) prod.collapse)
  obtain s3 where three: "lru_Set None t3 k ''1'' 86400 s2 = (s3, Inr ())" using set_total[OF wf2] by blast
  have wf3: "lru_wf s3" using lru_Set_wf[OF wf2, of None t3 k "''1''" 86400] three by simp
  obtain s4 where four: "lru_Set None t4 k ''1'' 86400 s3 = (s4, Inr ())" using set_total[OF wf3] by blast
  show ?thesis by (intro exI[of _ s1] exI[of _ s2] exI[of _ s3] exI[of _ s4]) (simp add: redis_parts one two three four)
qed

lemma redis_idempotency_race_witness:
  "\<exists>s1 s2 s3 s4. redis_lookup lru_ops None 0 ''k'' (NewLRUCache 10) = (s1, Inr False) \<and> redis_lookup lru_ops None 0 ''k'' s1 = (s2, Inr False) \<and>
    redis_mark lru_ops None 1 ''k'' s2 = (s3, Inr False) \<and> redis_mark lru_ops None 1 ''k'' s3 = (s4, Inr False)"
proof -
  have "gm_get (lru_data (NewLRUCache 10)) ''k'' = None" by simp
  then have "lru_live 0 (NewLRUCache 10) ''k'' = None" "lru_live 0 (fst (lru_Get None 0 ''k'' (NewLRUCache 10))) ''k'' = None"
    by (simp_all add: lru_live_def lru_Get_def)
  from redis_idempotency_race[OF NewLRUCache_wf this] show ?thesis by blast
qed

end
