(* ===== verification/Retry.thy ===== *)
theory Retry
  imports Complex_Main Errors
begin

text \<open>
  Retrying with back-off (\<open>shared/retry/retry.go\<close>). \<open>fl\<close> is the rounding of \<open>float64\<close>, applied to
  the result of every operation (infinities and NaN are not modelled). \<open>dur\<close> is the conversion of a \<open>float64\<close> to
  \<open>time.Duration\<close>, an \<open>int64\<close>: it cuts towards zero what is in range (\<open>converts\<close>), and Go leaves the rest to the
  implementation. \<open>u\<close> gives the values of \<open>rand.Float64()\<close>, one per delay. The context is polled at the head of each
  attempt (\<open>2 * i\<close>) and raced against the timer after it (\<open>2 * i + 1\<close>). The retried function is a function of
  a state; the delays waited for are returned.
\<close>

record retry_config =
  rc_MaxAttempts :: int
  rc_InitialInterval :: duration
  rc_MaxInterval :: duration
  rc_Multiplier :: rat
  rc_Randomization :: rat

definition cut :: "rat \<Rightarrow> int" where
  "cut x = (if x \<ge> 0 then \<lfloor>x\<rfloor> else \<lceil>x\<rceil>)"

definition converts :: "(rat \<Rightarrow> duration) \<Rightarrow> bool" where
  "converts dur \<longleftrightarrow> (\<forall>x. - (2 ^ 63) \<le> x \<and> x < 2 ^ 63 \<longrightarrow> dur x = cut x)"

definition isRetryable :: "err option \<Rightarrow> bool" where
  "isRetryable e \<longleftrightarrow> e \<noteq> None"

definition calculateDelay :: "(rat \<Rightarrow> rat) \<Rightarrow> (rat \<Rightarrow> duration) \<Rightarrow> rat \<Rightarrow> duration \<Rightarrow> rat \<Rightarrow> rat \<Rightarrow> duration" where
  "calculateDelay fl dur u base multiplier randomization =
     (let delay = fl (fl (of_int base) * multiplier);
          delay = (if randomization > 0
            then let jitter = fl (fl (fl (u * 2) - 1) * randomization) in fl (delay * fl (1 + jitter))
            else delay);
          delay = (if delay < 0 then 0 else delay)
      in dur delay)"

definition next_interval :: "(rat \<Rightarrow> rat) \<Rightarrow> (rat \<Rightarrow> duration) \<Rightarrow> retry_config \<Rightarrow> duration \<Rightarrow> duration" where
  "next_interval fl dur cfg interval =
     (let i = dur (fl (fl (of_int interval) * rc_Multiplier cfg))
      in if i > rc_MaxInterval cfg then rc_MaxInterval cfg else i)"

text \<open>The loop of \<open>Do\<close>: \<open>i\<close> attempts are over, \<open>n\<close> remain.\<close>

fun do_loop ::
  "(rat \<Rightarrow> rat) \<Rightarrow> (rat \<Rightarrow> duration) \<Rightarrow> (nat \<Rightarrow> rat) \<Rightarrow> retry_config \<Rightarrow> ctx \<Rightarrow> ('s \<Rightarrow> 's \<times> unit result) \<Rightarrow> nat \<Rightarrow> nat \<Rightarrow> duration \<Rightarrow>
   unit result \<Rightarrow> 's \<Rightarrow> 's \<times> unit result \<times> duration list"
where
  "do_loop fl dur u cfg cx f i 0 interval lastErr s = (s, lastErr, [])"
| "do_loop fl dur u cfg cx f i (Suc n) interval lastErr s =
     (case cx (2 * i) of Some e \<Rightarrow> (s, Inl (CtxErr e), []) | None \<Rightarrow>
      (case f s of
         (s', Inr _) \<Rightarrow> (s', Inr (), [])
       | (s', Inl e) \<Rightarrow>
           if \<not> isRetryable (Some e) then (s', Inl e, [])
           else if n = 0 then (s', Inl e, [])
           else let delay = calculateDelay fl dur (u i) interval (rc_Multiplier cfg) (rc_Randomization cfg)
           in case cx (2 * i + 1) of
             Some c \<Rightarrow> (s', Inl (CtxErr c), [delay])
           | None \<Rightarrow>
               (case do_loop fl dur u cfg cx f (Suc i) n (next_interval fl dur cfg interval) (Inl e) s' of
                  (s'', r, ds) \<Rightarrow> (s'', r, delay # ds))))"

definition retry_Do ::
  "(rat \<Rightarrow> rat) \<Rightarrow> (rat \<Rightarrow> duration) \<Rightarrow> (nat \<Rightarrow> rat) \<Rightarrow> retry_config \<Rightarrow> ctx \<Rightarrow> ('s \<Rightarrow> 's \<times> unit result) \<Rightarrow> 's \<Rightarrow>
   's \<times> unit result \<times> duration list"
where
  "retry_Do fl dur u cfg cx f s =
     do_loop fl dur u cfg cx f 0 (nat (rc_MaxAttempts cfg)) (rc_InitialInterval cfg) (Inr ()) s"

text \<open>\<open>DoWithResult\<close> gives a value and an error. It has a loop of its own.\<close>

fun result_loop ::
  "(rat \<Rightarrow> rat) \<Rightarrow> (rat \<Rightarrow> duration) \<Rightarrow> (nat \<Rightarrow> rat) \<Rightarrow> 'a \<Rightarrow> retry_config \<Rightarrow> ctx \<Rightarrow> ('s \<Rightarrow> 's \<times> 'a \<times> err option) \<Rightarrow> nat \<Rightarrow> nat \<Rightarrow> duration \<Rightarrow>
   err option \<Rightarrow> 's \<Rightarrow> 's \<times> ('a \<times> err option) \<times> duration list"
where
  "result_loop fl dur u zero cfg cx f i 0 interval lastErr s = (s, (zero, lastErr), [])"
| "result_loop fl dur u zero cfg cx f i (Suc n) interval lastErr s =
     (case cx (2 * i) of Some e \<Rightarrow> (s, (zero, Some (CtxErr e)), []) | None \<Rightarrow>
      (case f s of
         (s', x, None) \<Rightarrow> (s', (x, None), [])
       | (s', x, Some e) \<Rightarrow>
           if \<not> isRetryable (Some e) then (s', (zero, Some e), [])
           else if n = 0 then (s', (zero, Some e), [])
           else let delay = calculateDelay fl dur (u i) interval (rc_Multiplier cfg) (rc_Randomization cfg)
           in case cx (2 * i + 1) of
             Some c \<Rightarrow> (s', (zero, Some (CtxErr c)), [delay])
           | None \<Rightarrow>
               (case result_loop fl dur u zero cfg cx f (Suc i) n (next_interval fl dur cfg interval) (Some e) s' of
                  (s'', r, ds) \<Rightarrow> (s'', r, delay # ds))))"

definition retry_DoWithResult ::
  "(rat \<Rightarrow> rat) \<Rightarrow> (rat \<Rightarrow> duration) \<Rightarrow> (nat \<Rightarrow> rat) \<Rightarrow> 'a \<Rightarrow> retry_config \<Rightarrow> ctx \<Rightarrow> ('s \<Rightarrow> 's \<times> 'a \<times> err option) \<Rightarrow> 's \<Rightarrow>
   's \<times> ('a \<times> err option) \<times> duration list"
where
  "retry_DoWithResult fl dur u zero cfg cx f s =
     result_loop fl dur u zero cfg cx f 0 (nat (rc_MaxAttempts cfg)) (rc_InitialInterval cfg) None s"

section \<open>Outcome\<close>

text \<open>The state before the i-th call, when all earlier ones have run, and the delay after it.\<close>

definition nth_state :: "('s \<Rightarrow> 's \<times> 'a) \<Rightarrow> 's \<Rightarrow> nat \<Rightarrow> 's" where
  "nth_state f s i = ((fst \<circ> f) ^^ i) s"

lemma nth_state_0 [simp]: "nth_state f s 0 = s"
  by (simp add: nth_state_def)

lemma nth_state_Suc: "nth_state f s (Suc i) = nth_state f (fst (f s)) i"
  by (simp add: nth_state_def funpow_Suc_right del: funpow.simps)

definition nth_delay :: "(rat \<Rightarrow> rat) \<Rightarrow> (rat \<Rightarrow> duration) \<Rightarrow> (nat \<Rightarrow> rat) \<Rightarrow> retry_config \<Rightarrow> duration \<Rightarrow> nat \<Rightarrow> duration" where
  "nth_delay fl dur u cfg interval i =
     calculateDelay fl dur (u i) ((next_interval fl dur cfg ^^ i) interval) (rc_Multiplier cfg) (rc_Randomization cfg)"

text \<open>How the attempt \<open>k\<close> of at most \<open>n\<close> ends a call whose earlier attempts went on: with a context that is over at its head,
  without a call; with a result; with the error of the last attempt; or with a context that ends during the delay. \<open>g\<close> is what
  a call of the function reports, \<open>None\<close> for a success; \<open>w\<close> is what is reported, after \<open>c\<close> calls and \<open>d\<close> delays.\<close>

definition goes_on :: "ctx \<Rightarrow> (nat \<Rightarrow> err option) \<Rightarrow> nat \<Rightarrow> bool" where
  "goes_on cx g i \<longleftrightarrow> cx (2 * i) = None \<and> g i \<noteq> None \<and> cx (2 * i + 1) = None"

definition ends_at :: "ctx \<Rightarrow> (nat \<Rightarrow> err option) \<Rightarrow> nat \<Rightarrow> nat \<Rightarrow> err option \<Rightarrow> nat \<Rightarrow> nat \<Rightarrow> bool" where
  "ends_at cx g n k w c d \<longleftrightarrow>
     (case cx (2 * k) of
        Some e \<Rightarrow> w = Some (CtxErr e) \<and> c = k \<and> d = k
      | None \<Rightarrow> c = Suc k \<and>
          (case g k of
             None \<Rightarrow> w = None \<and> d = k
           | Some e \<Rightarrow>
               if Suc k = n then w = Some e \<and> d = k
               else \<exists>x. cx (2 * k + 1) = Some x \<and> w = Some (CtxErr x) \<and> d = Suc k))"



text \<open>The loop ends in exactly one of these ways.\<close>

lemma result_loop_ends:
  assumes "0 < n"
  shows "\<exists>k < n. \<exists>c d w.
    (\<forall>i < k. goes_on (\<lambda>j. cx (2 * m + j)) (\<lambda>i. snd (snd (f (nth_state f s i)))) i) \<and>
    ends_at (\<lambda>j. cx (2 * m + j)) (\<lambda>i. snd (snd (f (nth_state f s i)))) n k w c d \<and>
    result_loop fl dur u zero cfg cx f m n interval lastErr s =
      (nth_state f s c, (if w = None then fst (snd (f (nth_state f s k))) else zero, w),
       map (nth_delay fl dur (\<lambda>i. u (m + i)) cfg interval) [0..<d])"
  using assms
proof (induction n arbitrary: m s interval lastErr)
  case (Suc n)
  show ?case
  proof (cases "cx (2 * m)")
    case (Some e)
    then show ?thesis
      by (intro exI[of _ 0] exI[of _ "Some (CtxErr e)"] conjI) (simp_all add: ends_at_def)
  next
    case None
    obtain s1 x r where f: "f s = (s1, x, r)" by (metis prod.collapse)
    show ?thesis
    proof (cases r)
      case r: None
      show ?thesis using None f r
        by (intro exI[of _ 0] exI[of _ "Suc 0"] exI[of _ None] conjI) (simp_all add: ends_at_def nth_state_Suc)
    next
      case r: (Some e)
      let ?d = "calculateDelay fl dur (u m) interval (rc_Multiplier cfg) (rc_Randomization cfg)"
      consider (last) "n = 0" | (interrupted) c where "n \<noteq> 0" "cx (2 * m + 1) = Some c" | (on) "n \<noteq> 0" "cx (2 * m + 1) = None"
        by fastforce
      then show ?thesis
      proof cases
        case last
        then show ?thesis using None f r
          by (intro exI[of _ 0] exI[of _ "Suc 0"] exI[of _ "Some e"] conjI exI[of _ "0 :: nat"])
             (simp_all add: ends_at_def nth_state_Suc isRetryable_def)
      next
        case (interrupted c)
        then show ?thesis using None f r
          by (intro exI[of _ 0] exI[of _ "Suc 0"] exI[of _ "Some (CtxErr c)"] conjI)
             (simp_all add: ends_at_def nth_state_Suc isRetryable_def nth_delay_def Let_def)
      next
        case on
        let ?g = "\<lambda>i. snd (snd (f (nth_state f s i)))" and ?g' = "\<lambda>i. snd (snd (f (nth_state f s1 i)))"
        obtain k c d w where k: "k < n" and before: "\<forall>i < k. goes_on (\<lambda>j. cx (2 * Suc m + j)) ?g' i"
          and ends: "ends_at (\<lambda>j. cx (2 * Suc m + j)) ?g' n k w c d"
          and run: "result_loop fl dur u zero cfg cx f (Suc m) n (next_interval fl dur cfg interval) (Some e) s1 =
            (nth_state f s1 c, (if w = None then fst (snd (f (nth_state f s1 k))) else zero, w),
             map (nth_delay fl dur (\<lambda>i. u (Suc m + i)) cfg (next_interval fl dur cfg interval)) [0..<d])"
          using Suc.IH[of "Suc m" s1 "next_interval fl dur cfg interval" "Some e"] on(1) by blast
        have shift: "nth_state f s (Suc i) = nth_state f s1 i" for i by (simp add: nth_state_Suc f)
        have delay: "nth_delay fl dur (\<lambda>i. u (Suc m + i)) cfg (next_interval fl dur cfg interval) =
            nth_delay fl dur (\<lambda>i. u (m + i)) cfg interval \<circ> Suc"
          by (simp add: fun_eq_iff nth_delay_def funpow_Suc_right del: funpow.simps)
        have "goes_on (\<lambda>j. cx (2 * m + j)) ?g i" if "i < Suc k" for i
          using that before None on(2) f r by (cases i) (simp_all add: goes_on_def shift)
        moreover have "ends_at (\<lambda>j. cx (2 * m + j)) ?g (Suc n) (Suc k) w (Suc c) (Suc d)"
          using ends by (auto simp: ends_at_def shift split: option.splits if_splits)
        moreover have "result_loop fl dur u zero cfg cx f m (Suc n) interval lastErr s =
            (nth_state f s (Suc c), (if w = None then fst (snd (f (nth_state f s (Suc k)))) else zero, w),
             map (nth_delay fl dur (\<lambda>i. u (m + i)) cfg interval) [0..<Suc d])"
          using None on f r run[unfolded delay]
          by (simp add: isRetryable_def Let_def shift map_upt_Suc nth_delay_def comp_def del: upt_Suc)
        ultimately show ?thesis using k by (intro exI[of _ "Suc k"] conjI exI) auto
      qed
    qed
  qed
qed simp

text \<open>The loop of \<open>Do\<close> is the one of \<open>DoWithResult\<close> for a function without a value.\<close>

definition error_of :: "'a result \<Rightarrow> err option" where
  "error_of r = (case r of Inl e \<Rightarrow> Some e | Inr _ \<Rightarrow> None)"

definition without_value :: "('s \<Rightarrow> 's \<times> unit result) \<Rightarrow> 's \<Rightarrow> 's \<times> unit \<times> err option" where
  "without_value h s = (case h s of (s', r) \<Rightarrow> (s', (), error_of r))"

lemma do_loop_result:
  "do_loop fl dur u cfg cx h i n interval lastErr s =
     (case result_loop fl dur u () cfg cx (without_value h) i n interval (error_of lastErr) s of
        (s', (_, w), ds) \<Rightarrow> (s', case w of None \<Rightarrow> Inr () | Some e \<Rightarrow> Inl e, ds))"
  by (induction n arbitrary: i interval lastErr s)
     (auto simp: isRetryable_def error_of_def without_value_def Let_def split: option.splits prod.splits sum.splits)

lemma nth_state_without_value: "nth_state (without_value h) s i = nth_state h s i"
proof -
  have "fst \<circ> without_value h = fst \<circ> h" by (simp add: fun_eq_iff without_value_def split: prod.split)
  then show ?thesis by (simp add: nth_state_def)
qed

lemma snd_without_value: "snd (snd (without_value h s)) = error_of (snd (h s))"
  by (simp add: without_value_def split: prod.split)

text \<open>C24: with any context and any function, both loops call the function until it succeeds, its error is that of
  the last attempt, or the context ends, before a call or during a delay; what they return is what ended them, after
  exactly the calls and the delays up to there, each delay computed from the interval of its attempt; an error comes with
  the zero value. With no attempt allowed they report success without a call.\<close>

theorem retry_outcome:
  fixes f :: "'s \<Rightarrow> 's \<times> 'a \<times> err option" and h :: "'s \<Rightarrow> 's \<times> unit result"
  defines "g \<equiv> \<lambda>s i. snd (snd (f (nth_state f s i)))" and "j \<equiv> \<lambda>s i. error_of (snd (h (nth_state h s i)))"
  shows "if rc_MaxAttempts cfg \<le> 0
    then retry_DoWithResult fl dur u zero cfg cx f s = (s, (zero, None), []) \<and> retry_Do fl dur u cfg cx h s = (s, Inr (), [])
    else (\<exists>k < nat (rc_MaxAttempts cfg). \<exists>c d w.
        (\<forall>i < k. goes_on cx (g s) i) \<and> ends_at cx (g s) (nat (rc_MaxAttempts cfg)) k w c d \<and>
        retry_DoWithResult fl dur u zero cfg cx f s =
          (nth_state f s c, (if w = None then fst (snd (f (nth_state f s k))) else zero, w),
           map (nth_delay fl dur u cfg (rc_InitialInterval cfg)) [0..<d])) \<and>
      (\<exists>k < nat (rc_MaxAttempts cfg). \<exists>c d w.
        (\<forall>i < k. goes_on cx (j s) i) \<and> ends_at cx (j s) (nat (rc_MaxAttempts cfg)) k w c d \<and>
        retry_Do fl dur u cfg cx h s =
          (nth_state h s c, case w of None \<Rightarrow> Inr () | Some e \<Rightarrow> Inl e,
           map (nth_delay fl dur u cfg (rc_InitialInterval cfg)) [0..<d]))"
proof (cases "rc_MaxAttempts cfg \<le> 0")
  case True
  then show ?thesis by (simp add: retry_Do_def retry_DoWithResult_def)
next
  case False
  then have n: "0 < nat (rc_MaxAttempts cfg)" by simp
  note ends = result_loop_ends[OF n, of cx 0, unfolded mult_0_right add_0]
  from ends[of "without_value h" s fl dur u "()" cfg "rc_InitialInterval cfg" None, unfolded nth_state_without_value snd_without_value]
  obtain k c d w where k: "k < nat (rc_MaxAttempts cfg)" "\<forall>i < k. goes_on cx (j s) i" "ends_at cx (j s) (nat (rc_MaxAttempts cfg)) k w c d"
    and run: "result_loop fl dur u () cfg cx (without_value h) 0 (nat (rc_MaxAttempts cfg)) (rc_InitialInterval cfg) None s =
      (nth_state h s c, (if w = None then fst (snd (without_value h (nth_state h s k))) else (), w),
       map (nth_delay fl dur u cfg (rc_InitialInterval cfg)) [0..<d])"
    unfolding j_def by blast
  have "retry_Do fl dur u cfg cx h s = (nth_state h s c, case w of None \<Rightarrow> Inr () | Some e \<Rightarrow> Inl e,
      map (nth_delay fl dur u cfg (rc_InitialInterval cfg)) [0..<d])"
    using run by (simp add: retry_Do_def do_loop_result error_of_def)
  then show ?thesis using False k ends[of f s fl dur u zero cfg "rc_InitialInterval cfg" None]
    unfolding retry_DoWithResult_def g_def by auto
qed

definition wit_retry :: retry_config where
  "wit_retry = \<lparr>rc_MaxAttempts = 3, rc_InitialInterval = 1, rc_MaxInterval = 3, rc_Multiplier = 2, rc_Randomization = 0\<rparr>"

text \<open>A service that is down for two calls: the third succeeds, after delays of 2 and 4, unless the deadline comes
  during the second delay.\<close>

definition wit_down :: "nat \<Rightarrow> nat \<times> string \<times> err option" where
  "wit_down n = (Suc n, if n < 2 then ('''', Some (Errorf ''down'')) else (''up'', None))"

definition wit_down_call :: "nat \<Rightarrow> nat \<times> unit result" where
  "wit_down_call n = (Suc n, if n < 2 then Inl (Errorf ''down'') else Inr ())"

lemma wit_retry_states: "nth_state wit_down 0 i = i" "nth_state wit_down_call 0 i = i"
proof -
  show "nth_state wit_down 0 i = i" by (induction i) (simp_all add: nth_state_def wit_down_def)
  show "nth_state wit_down_call 0 i = i" by (induction i) (simp_all add: nth_state_def wit_down_call_def)
qed

lemma wit_retry_delays: "map (nth_delay (\<lambda>x. x) cut u wit_retry 1) [0..<2] = [2, 4]"
  by (simp add: nth_delay_def calculateDelay_def next_interval_def wit_retry_def cut_def upt_conv_Cons)

theorem retry_outcome_witness:
  "retry_DoWithResult (\<lambda>x. x) cut (\<lambda>_. 0) '''' wit_retry background wit_down 0 = (3, (''up'', None), [2, 4]) \<and>
   retry_Do (\<lambda>x. x) cut (\<lambda>_. 0) wit_retry (\<lambda>i. if i = 3 then Some DeadlineExceeded else None) wit_down_call 0 =
     (2, Inl (CtxErr DeadlineExceeded), [2, 4])"
proof
  have three: "nat (rc_MaxAttempts wit_retry) = 3" "\<not> rc_MaxAttempts wit_retry \<le> 0" "rc_InitialInterval wit_retry = 1"
    by (simp_all add: wit_retry_def)
  have g: "snd (snd (wit_down i)) = (if i < 2 then Some (Errorf ''down'') else None)"
    "error_of (snd (wit_down_call i)) = (if i < 2 then Some (Errorf ''down'') else None)" for i
    by (simp_all add: wit_down_def wit_down_call_def error_of_def)
  note all = retry_outcome[where cfg = wit_retry and fl = "\<lambda>x. x" and dur = cut and u = "\<lambda>_. 0" and zero = "''''" and f = wit_down
      and h = wit_down_call and s = 0, unfolded three wit_retry_states g if_not_P[OF three(2)]]
  obtain k c d w where "k < 3" "\<forall>i < k. goes_on background (\<lambda>i. if i < 2 then Some (Errorf ''down'') else None) i"
    "ends_at background (\<lambda>i. if i < 2 then Some (Errorf ''down'') else None) 3 k w c d"
    and run: "retry_DoWithResult (\<lambda>x. x) cut (\<lambda>_. 0) '''' wit_retry background wit_down 0 =
      (c, (if w = None then fst (snd (wit_down k)) else '''', w), map (nth_delay (\<lambda>x. x) cut (\<lambda>_. 0) wit_retry 1) [0..<d])"
    using conjunct1[OF all[of background]] by (elim exE conjE) (rule that)
  then have "k = 2 \<and> c = 3 \<and> d = 2 \<and> w = None" by (auto simp: ends_at_def split: if_splits)
  then show "retry_DoWithResult (\<lambda>x. x) cut (\<lambda>_. 0) '''' wit_retry background wit_down 0 = (3, (''up'', None), [2, 4])"
    using run by (simp add: wit_retry_delays wit_down_def)
  let ?cx = "\<lambda>i :: nat. if i = 3 then Some DeadlineExceeded else None"
  obtain k c d w where k: "k < 3" and on: "\<forall>i < k. goes_on ?cx (\<lambda>i. if i < 2 then Some (Errorf ''down'') else None) i"
    and ends: "ends_at ?cx (\<lambda>i. if i < 2 then Some (Errorf ''down'') else None) 3 k w c d"
    and run: "retry_Do (\<lambda>x. x) cut (\<lambda>_. 0) wit_retry ?cx wit_down_call 0 =
      (c, case w of None \<Rightarrow> Inr () | Some e \<Rightarrow> Inl e, map (nth_delay (\<lambda>x. x) cut (\<lambda>_. 0) wit_retry 1) [0..<d])"
    using conjunct2[OF all[of ?cx]] by (elim exE conjE) (rule that)
  consider "k = 0" | "k = 1" | "k = 2" using k by linarith
  then have "k = 1 \<and> c = 2 \<and> d = 2 \<and> w = Some (CtxErr DeadlineExceeded)"
  proof cases
    case 3
    then have "goes_on ?cx (\<lambda>i. if i < 2 then Some (Errorf ''down'') else None) 1" using on by simp
    then show ?thesis by (simp add: goes_on_def)
  qed (use ends in \<open>simp_all add: ends_at_def\<close>)
  then show "retry_Do (\<lambda>x. x) cut (\<lambda>_. 0) wit_retry ?cx wit_down_call 0 = (2, Inl (CtxErr DeadlineExceeded), [2, 4])"
    using run by (simp add: wit_retry_delays)
qed

text \<open>The delay is computed from the capped interval and multiplied once more: it exceeds the maximum.\<close>

lemma delay_exceeds_max:
  assumes "converts dur"
  shows "calculateDelay (\<lambda>x. x) dur (1 / 2) (next_interval (\<lambda>x. x) dur
     \<lparr>rc_MaxAttempts = 9, rc_InitialInterval = 8, rc_MaxInterval = 10, rc_Multiplier = 2, rc_Randomization = 1 / 2\<rparr> 8) 2 (1 / 2) = 20"
  using assms by (simp add: calculateDelay_def next_interval_def converts_def cut_def)

end
