(* ===== verification/Token_Manager.thy ===== *)
theory Token_Manager
  imports Proto Jwt_Validator
begin

text \<open>
  The token manager of the command line client (\<open>order-client/internal/auth/token_manager.go\<close>) with
  its read-write mutex: a method that waits for a lock its own goroutine holds waits for ever, and
  its result is \<open>None\<close>. The remote calls are parameters (their answers), the token file is part of the
  state, and the JSON and time formats are a codec: \<open>enc\<close> writes the three strings, \<open>dec\<close> reads a
  map with absent keys as empty strings; \<open>fmt\<close> and \<open>prs\<close> are RFC 3339.
\<close>

section \<open>The mutex\<close>

record rwmutex =
  mu_readers :: nat
  mu_writer :: bool

definition free_mutex :: rwmutex where
  "free_mutex = \<lparr>mu_readers = 0, mu_writer = False\<rparr>"

definition mu_Lock :: "rwmutex \<Rightarrow> rwmutex option" where
  "mu_Lock m = (if mu_writer m \<or> mu_readers m > 0 then None else Some (m\<lparr>mu_writer := True\<rparr>))"

definition mu_Unlock :: "rwmutex \<Rightarrow> rwmutex" where
  "mu_Unlock m = m\<lparr>mu_writer := False\<rparr>"

definition mu_RLock :: "rwmutex \<Rightarrow> rwmutex option" where
  "mu_RLock m = (if mu_writer m then None else Some (m\<lparr>mu_readers := Suc (mu_readers m)\<rparr>))"

definition mu_RUnlock :: "rwmutex \<Rightarrow> rwmutex" where
  "mu_RUnlock m = m\<lparr>mu_readers := mu_readers m - 1\<rparr>"

section \<open>The manager\<close>

definition CliAccessTTL :: duration where
  "CliAccessTTL = 15 * 60 * second"

record stored_tokens_file =
  sf_access :: string
  sf_refresh :: string
  sf_expires :: string

record token_manager =
  tm_mu :: rwmutex
  tm_accessToken :: string
  tm_refreshToken :: string
  tm_expiresAt :: time
  tm_disk :: "bytes option"

record codec =
  cd_enc :: "stored_tokens_file \<Rightarrow> bytes result"
  cd_dec :: "bytes \<Rightarrow> stored_tokens_file result"
  cd_fmt :: "time \<Rightarrow> string"
  cd_parse :: "string \<Rightarrow> time option"

text \<open>\<open>wr\<close>: the error of writing the file, if any, with what it leaves of the file.\<close>

type_synonym write_fault = "err \<times> bytes option"

definition tm_saveToDisk :: "codec \<Rightarrow> write_fault option \<Rightarrow> token_manager \<Rightarrow> (token_manager \<times> unit result) option" where
  "tm_saveToDisk C wr tm =
     (case mu_RLock (tm_mu tm) of
        None \<Rightarrow> None
      | Some m \<Rightarrow>
          let data = \<lparr>sf_access = tm_accessToken tm, sf_refresh = tm_refreshToken tm, sf_expires = cd_fmt C (tm_expiresAt tm)\<rparr>;
              tm' = tm\<lparr>tm_mu := mu_RUnlock m\<rparr>
          in case cd_enc C data of
            Inl e \<Rightarrow> Some (tm', Inl e)
          | Inr bytes \<Rightarrow> (case wr of
              Some (e, left) \<Rightarrow> Some (tm'\<lparr>tm_disk := left\<rparr>, Inl e) | None \<Rightarrow> Some (tm'\<lparr>tm_disk := Some bytes\<rparr>, Inr ())))"

text \<open>A file that is not there is no error; \<open>rd\<close> is the error of reading one that is.\<close>

definition tm_loadFromDisk :: "codec \<Rightarrow> err option \<Rightarrow> token_manager \<Rightarrow> (token_manager \<times> unit result) option" where
  "tm_loadFromDisk C rd tm =
     (case tm_disk tm of
        None \<Rightarrow> Some (tm, Inr ())
      | Some data \<Rightarrow>
          (case rd of
             Some e \<Rightarrow> Some (tm, Inl e)
           | None \<Rightarrow>
               (case cd_dec C data of
                  Inl e \<Rightarrow> Some (tm, Inl e)
                | Inr stored \<Rightarrow>
                    (case mu_Lock (tm_mu tm) of
                       None \<Rightarrow> None
                     | Some m \<Rightarrow>
                         Some (tm\<lparr>tm_mu := mu_Unlock m, tm_accessToken := sf_access stored, tm_refreshToken := sf_refresh stored,
                           tm_expiresAt := (case cd_parse C (sf_expires stored) of Some t \<Rightarrow> t | None \<Rightarrow> tm_expiresAt tm)\<rparr>, Inr ())))))"

definition NewTokenManager :: "codec \<Rightarrow> err option \<Rightarrow> bytes option \<Rightarrow> token_manager option" where
  "NewTokenManager C rd disk =
     map_option fst (tm_loadFromDisk C rd
       \<lparr>tm_mu = free_mutex, tm_accessToken = '''', tm_refreshToken = '''', tm_expiresAt = 0, tm_disk = disk\<rparr>)"

text \<open>\<open>Login\<close> and \<open>Register\<close>: the same after the remote call, whose answer is \<open>rpc\<close>.\<close>

definition tm_accept :: "codec \<Rightarrow> write_fault option \<Rightarrow> time \<Rightarrow> 'ts auth_response result \<Rightarrow> token_manager \<Rightarrow>
  (token_manager \<times> 'ts auth_response result) option"
where
  "tm_accept C wr now rpc tm =
     (case rpc of
        Inl e \<Rightarrow> Some (tm, Inl e)
      | Inr resp \<Rightarrow>
          (case mu_Lock (tm_mu tm) of
             None \<Rightarrow> None
           | Some m \<Rightarrow>
               let tm1 = tm\<lparr>tm_mu := mu_Unlock m, tm_accessToken := ar_AccessToken resp, tm_refreshToken := '''',
                            tm_expiresAt := now + CliAccessTTL\<rparr>
               in map_option (\<lambda>(tm2, _). (tm2, Inr resp)) (tm_saveToDisk C wr tm1)))"

definition tm_Login :: "codec \<Rightarrow> write_fault option \<Rightarrow> time \<Rightarrow> 'ts auth_response result \<Rightarrow> token_manager \<Rightarrow>
  (token_manager \<times> 'ts auth_response result) option" where
  "tm_Login = tm_accept"

definition tm_Register :: "codec \<Rightarrow> write_fault option \<Rightarrow> time \<Rightarrow> 'ts auth_response result \<Rightarrow> token_manager \<Rightarrow>
  (token_manager \<times> 'ts auth_response result) option" where
  "tm_Register = tm_accept"

definition cli_expired :: err where
  "cli_expired = Sentinel (Client CErrTokenExpired)"

definition tm_GetAccessToken :: "time \<Rightarrow> token_manager \<Rightarrow> (token_manager \<times> string result) option" where
  "tm_GetAccessToken now tm =
     (case mu_RLock (tm_mu tm) of
        None \<Rightarrow> None
      | Some m \<Rightarrow> Some (tm\<lparr>tm_mu := mu_RUnlock m\<rparr>,
          if tm_accessToken tm = '''' \<or> now > tm_expiresAt tm then Inl cli_expired else Inr (tm_accessToken tm)))"

text \<open>The dash of an error message, in UTF-8.\<close>

definition em_dash :: string where
  "em_dash = [CHR 0xE2, CHR 0x80, CHR 0x94]"

text \<open>\<open>RefreshToken\<close> keeps the lock until it returns, and calls \<open>saveToDisk\<close> before.\<close>

definition tm_RefreshToken ::
  "codec \<Rightarrow> write_fault option \<Rightarrow> time \<Rightarrow> (string \<Rightarrow> string result) \<Rightarrow> token_manager \<Rightarrow> (token_manager \<times> string result) option"
where
  "tm_RefreshToken C wr now rpc tm =
     (case mu_Lock (tm_mu tm) of
        None \<Rightarrow> None
      | Some m \<Rightarrow>
          if tm_refreshToken tm = ''''
            then Some (tm\<lparr>tm_mu := mu_Unlock m\<rparr>, Inl (Errorf (''refresh not supported in CLI mode '' @ em_dash @ '' please login again'')))
          else case rpc (tm_refreshToken tm) of
            Inl e \<Rightarrow> Some (tm\<lparr>tm_mu := mu_Unlock m\<rparr>, Inl e)
          | Inr access \<Rightarrow>
              let tm1 = tm\<lparr>tm_mu := m, tm_accessToken := access, tm_expiresAt := now + CliAccessTTL\<rparr>
              in map_option (\<lambda>(tm2, _). (tm2\<lparr>tm_mu := mu_Unlock (tm_mu tm2)\<rparr>, Inr (tm_accessToken tm2)))
                   (tm_saveToDisk C wr tm1))"

text \<open>The answer of the remote \<open>Logout\<close> is not used; a file that cannot be removed stays: \<open>rm\<close>.\<close>

definition tm_Logout :: "bool \<Rightarrow> token_manager \<Rightarrow> (token_manager \<times> unit result) option" where
  "tm_Logout rm tm =
     (case mu_Lock (tm_mu tm) of
        None \<Rightarrow> None
      | Some m \<Rightarrow> Some (tm\<lparr>tm_mu := mu_Unlock m, tm_accessToken := '''', tm_refreshToken := '''', tm_expiresAt := 0,
          tm_disk := (if rm then None else tm_disk tm)\<rparr>, Inr ()))"

definition tm_HasToken :: "token_manager \<Rightarrow> (token_manager \<times> bool) option" where
  "tm_HasToken tm =
     (case mu_RLock (tm_mu tm) of
        None \<Rightarrow> None
      | Some m \<Rightarrow> Some (tm\<lparr>tm_mu := mu_RUnlock m\<rparr>, tm_accessToken tm \<noteq> ''''))"

section \<open>Properties\<close>

lemmas mutex_defs = mu_Lock_def mu_Unlock_def mu_RLock_def mu_RUnlock_def free_mutex_def

text \<open>Every other method returns and leaves the mutex free.\<close>

lemma tm_methods_return:
  assumes "tm_mu tm = free_mutex"
  shows "\<exists>tm' r. tm_accept C wr now rpc tm = Some (tm', r) \<and> tm_mu tm' = free_mutex"
    and "\<exists>tm' r. tm_GetAccessToken now tm = Some (tm', r) \<and> tm_mu tm' = free_mutex"
    and "\<exists>tm' r. tm_Logout rm tm = Some (tm', r) \<and> tm_mu tm' = free_mutex"
    and "\<exists>tm' r. tm_HasToken tm = Some (tm', r) \<and> tm_mu tm' = free_mutex"
    and "\<exists>tm' r. tm_saveToDisk C wr tm = Some (tm', r) \<and> tm_mu tm' = free_mutex"
    and "\<exists>tm' r. tm_loadFromDisk C rd tm = Some (tm', r) \<and> tm_mu tm' = free_mutex"
  using assms
  by (auto simp: tm_accept_def tm_GetAccessToken_def tm_Logout_def tm_HasToken_def tm_saveToDisk_def tm_loadFromDisk_def
      mutex_defs Let_def split: sum.split option.split)

text \<open>C27: a refresh that the user service accepts never returns: the method holds the write lock and
  waits in \<open>saveToDisk\<close> for the read lock. Every other outcome is an error and frees the lock; after a
  log-in the method always ends with the error, as no refresh token is kept.\<close>

theorem refresh_deadlocks:
  assumes "tm_mu tm = free_mutex"
  shows "(tm_RefreshToken C wr now rpc tm = None \<longleftrightarrow>
      tm_refreshToken tm \<noteq> '''' \<and> (\<exists>access. rpc (tm_refreshToken tm) = Inr access)) \<and>
    (\<forall>tm' r. tm_RefreshToken C wr now rpc tm = Some (tm', r) \<longrightarrow> (\<exists>e. r = Inl e) \<and> tm_mu tm' = free_mutex) \<and>
    (\<exists>tm1 tm2 m. tm_Login C wr now (Inr resp) tm = Some (tm1, Inr resp) \<and>
      tm_RefreshToken C wr2 now2 rpc tm1 = Some (tm2, Inl (Errorf m)))"
    (is "?dead \<and> ?err \<and> ?login")
proof (intro conjI)
  show ?dead using assms
    by (auto simp: tm_RefreshToken_def tm_saveToDisk_def mutex_defs Let_def split: sum.split option.split)
  show ?err using assms
    by (cases "rpc (tm_refreshToken tm)")
      (auto simp: tm_RefreshToken_def tm_saveToDisk_def mutex_defs Let_def split: if_splits)
  have saved: "\<exists>tm'' r''. tm_saveToDisk C wr x = Some (tm'', r'') \<and> tm_refreshToken tm'' = tm_refreshToken x \<and> tm_mu tm'' = free_mutex"
    if "tm_mu x = free_mutex" for x
    using that by (auto simp: tm_saveToDisk_def mutex_defs Let_def split: sum.split option.split)
  obtain tm1 where tm1: "tm_Login C wr now (Inr resp) tm = Some (tm1, Inr resp)" "tm_refreshToken tm1 = ''''" "tm_mu tm1 = free_mutex"
    using assms saved[of "tm\<lparr>tm_mu := free_mutex, tm_accessToken := ar_AccessToken resp, tm_refreshToken := '''', tm_expiresAt := now + CliAccessTTL\<rparr>"]
    by (auto simp: tm_Login_def tm_accept_def mutex_defs Let_def)
  moreover have "\<exists>tm2 m. tm_RefreshToken C wr2 now2 rpc tm1 = Some (tm2, Inl (Errorf m))"
    using tm1 by (simp add: tm_RefreshToken_def mutex_defs)
  ultimately show ?login by blast
qed

definition wit_codec :: codec where
  "wit_codec = \<lparr>cd_enc = (\<lambda>s. Inr []), cd_dec = (\<lambda>b. Inl (Errorf ''unexpected end of JSON input'')),
     cd_fmt = (\<lambda>t. ''t''), cd_parse = (\<lambda>s. None)\<rparr>"

definition wit_manager :: token_manager where
  "wit_manager = \<lparr>tm_mu = free_mutex, tm_accessToken = ''a'', tm_refreshToken = ''r'', tm_expiresAt = 5, tm_disk = None\<rparr>"

theorem refresh_deadlocks_witness:
  "tm_RefreshToken wit_codec None 7 (\<lambda>t. Inr (''new-'' @ t)) wit_manager = None"
proof -
  have "tm_mu wit_manager = free_mutex" by (simp add: wit_manager_def)
  from refresh_deadlocks[OF this, of wit_codec None 7 "\<lambda>t. Inr (''new-'' @ t)", THEN conjunct1]
  show ?thesis by (auto simp: wit_manager_def)
qed

text \<open>The codec of the token file: what is written is read back; times lose their fraction of a second.\<close>

definition codec_ok :: "codec \<Rightarrow> bool" where
  "codec_ok C \<longleftrightarrow> (\<forall>s. \<exists>b. cd_enc C s = Inr b \<and> cd_dec C b = Inr s) \<and>
     (\<forall>t. cd_parse C (cd_fmt C t) = Some (t div second * second))"

text \<open>A log-in survives the process: a manager started from the file has the same access token.\<close>

lemma login_persists:
  assumes "codec_ok C" and "tm_mu tm = free_mutex" and "tm_Login C None now (Inr resp) tm = Some (tm1, r)"
  shows "\<exists>tm2. NewTokenManager C None (tm_disk tm1) = Some tm2 \<and> tm_accessToken tm2 = ar_AccessToken resp \<and>
    tm_expiresAt tm2 = (now + CliAccessTTL) div second * second"
proof -
  let ?f = "\<lparr>sf_access = ar_AccessToken resp, sf_refresh = '''', sf_expires = cd_fmt C (now + CliAccessTTL)\<rparr>"
  obtain b where b: "cd_enc C ?f = Inr b" "cd_dec C b = Inr ?f" using assms(1) unfolding codec_ok_def by blast
  have p: "cd_parse C (cd_fmt C t) = Some (t div second * second)" for t using assms(1) by (simp add: codec_ok_def)
  have "tm_disk tm1 = Some b" using assms(2,3) b
    by (auto simp: tm_Login_def tm_accept_def tm_saveToDisk_def mutex_defs Let_def)
  then show ?thesis using b p by (simp add: NewTokenManager_def tm_loadFromDisk_def mutex_defs)
qed

end
