(* ===== verification/Order_Client.thy ===== *)
theory Order_Client
  imports Token_Manager
begin

text \<open>
  The command line client: its gRPC client (\<open>order-client/internal/client/grpc.go\<close>), the commands of
  \<open>order-client/main.go\<close> and \<open>order-client/internal/app/app.go\<close>. The token provider is any operation
  with the token manager's answer, \<open>None\<close> for one that does not return; a remote call is a function of
  the outgoing metadata, the request and the state of the server. Printing is left out.
\<close>

section \<open>The gRPC client\<close>

type_synonym outgoing = "(string \<times> string) list"
type_synonym ('q, 'r, 'a) rpc = "outgoing \<Rightarrow> 'q \<Rightarrow> 'r \<Rightarrow> 'r \<times> 'a result"
type_synonym 't provider = "('t \<Rightarrow> ('t \<times> string result) option) option"

text \<open>A provider that is nil leaves the context alone, whose metadata is \<open>old\<close>.\<close>

definition withAuth :: "'t provider \<Rightarrow> outgoing \<Rightarrow> 't \<Rightarrow> ('t \<times> outgoing result) option" where
  "withAuth provider old t =
     (case provider of
        None \<Rightarrow> Some (t, Inr old)
      | Some GetAccessToken \<Rightarrow>
          (case GetAccessToken t of
             None \<Rightarrow> None
           | Some (t', Inl e) \<Rightarrow> Some (t', Inl (Wrapf ''failed to get access token'' e))
           | Some (t', Inr token) \<Rightarrow> Some (t', Inr [(''authorization'', ''Bearer '' @ token)])))"

definition cli_call :: "'t provider \<Rightarrow> outgoing \<Rightarrow> ('q, 'r, 'a) rpc \<Rightarrow> 'q \<Rightarrow> 't \<times> 'r \<Rightarrow> (('t \<times> 'r) \<times> 'a result) option" where
  "cli_call provider old rpc req st =
     (case withAuth provider old (fst st) of
        None \<Rightarrow> None
      | Some (t', Inl e) \<Rightarrow> Some ((t', snd st), Inl e)
      | Some (t', Inr md) \<Rightarrow> (case rpc md req (snd st) of (r', res) \<Rightarrow> Some ((t', r'), res)))"

definition cli_CreateOrder ::
  "'t provider \<Rightarrow> outgoing \<Rightarrow> (create_order_request, 'r, create_order_response) rpc \<Rightarrow> string \<Rightarrow> order_type \<Rightarrow> string \<Rightarrow> string \<Rightarrow>
   't \<times> 'r \<Rightarrow> (('t \<times> 'r) \<times> create_order_response result) option"
where
  "cli_CreateOrder provider old rpc marketID orderType price quantity st =
     cli_call provider old rpc
       \<lparr>cor_MarketId = marketID, cor_Type = orderType, cor_Price = price, cor_Quantity = quantity, cor_IdempotencyKey = ''''\<rparr> st"

definition cli_GetOrderStatus ::
  "'t provider \<Rightarrow> outgoing \<Rightarrow> (string, 'r, 'a) rpc \<Rightarrow> string \<Rightarrow> 't \<times> 'r \<Rightarrow> (('t \<times> 'r) \<times> 'a result) option" where
  "cli_GetOrderStatus provider old rpc orderID st = cli_call provider old rpc orderID st"

definition cli_ListOrders ::
  "'t provider \<Rightarrow> outgoing \<Rightarrow> (string \<times> int, 'r, 'a) rpc \<Rightarrow> string \<Rightarrow> int \<Rightarrow> 't \<times> 'r \<Rightarrow> (('t \<times> 'r) \<times> 'a result) option" where
  "cli_ListOrders provider old rpc pageToken pageSize st = cli_call provider old rpc (pageToken, pageSize) st"

section \<open>Commands\<close>

definition toProtoOrderType :: "string \<Rightarrow> order_type" where
  "toProtoOrderType s =
     (if s = ''BUY'' then ORDER_TYPE_BUY else if s = ''SELL'' then ORDER_TYPE_SELL else ORDER_TYPE_BUY)"

text \<open>The checks before \<open>create-order\<close> and \<open>order-status\<close> run.\<close>

definition pre_create :: "string \<Rightarrow> string \<Rightarrow> string \<Rightarrow> string \<Rightarrow> unit result" where
  "pre_create marketID orderType price quantity =
     (if marketID = '''' \<or> price = '''' \<or> quantity = ''''
        then Inl (Errorf ''--market-id, --price and --quantity are required'')
      else if orderType \<noteq> ''BUY'' \<and> orderType \<noteq> ''SELL'' then Inl (Errorf ''--order-type must be BUY or SELL'')
      else Inr ())"

definition pre_status :: "string \<Rightarrow> unit result" where
  "pre_status orderID = (if orderID = '''' then Inl (Errorf ''--order-id is required'') else Inr ())"

text \<open>The result carries what is printed.\<close>

definition executeCreateOrder ::
  "('t \<Rightarrow> ('t \<times> bool) option) \<Rightarrow> 't provider \<Rightarrow> outgoing \<Rightarrow> (create_order_request, 'r, create_order_response) rpc \<Rightarrow>
   string \<Rightarrow> order_type \<Rightarrow> string \<Rightarrow> string \<Rightarrow> 't \<times> 'r \<Rightarrow> (('t \<times> 'r) \<times> create_order_response result) option"
where
  "executeCreateOrder HasToken provider old rpc marketID orderType price quantity st =
     (case HasToken (fst st) of
        None \<Rightarrow> None
      | Some (t', False) \<Rightarrow> Some ((t', snd st), Inl (Errorf ''not authenticated. Please run 'login' first''))
      | Some (t', True) \<Rightarrow> cli_CreateOrder provider old rpc marketID orderType price quantity (t', snd st))"

definition executeOrderStatus ::
  "('t \<Rightarrow> ('t \<times> bool) option) \<Rightarrow> 't provider \<Rightarrow> outgoing \<Rightarrow> (string, 'r, 'a) rpc \<Rightarrow> string \<Rightarrow>
   't \<times> 'r \<Rightarrow> (('t \<times> 'r) \<times> 'a result) option"
where
  "executeOrderStatus HasToken provider old rpc orderID st =
     (case HasToken (fst st) of
        None \<Rightarrow> None
      | Some (t', False) \<Rightarrow> Some ((t', snd st), Inl (Errorf ''not authenticated''))
      | Some (t', True) \<Rightarrow> cli_GetOrderStatus provider old rpc orderID (t', snd st))"

definition create_order_cmd ::
  "('t \<Rightarrow> ('t \<times> bool) option) \<Rightarrow> 't provider \<Rightarrow> (create_order_request, 'r, create_order_response) rpc \<Rightarrow>
   string \<Rightarrow> string \<Rightarrow> string \<Rightarrow> string \<Rightarrow> 't \<times> 'r \<Rightarrow> (('t \<times> 'r) \<times> create_order_response result) option"
where
  "create_order_cmd HasToken provider rpc marketID orderType price quantity st =
     (case pre_create marketID orderType price quantity of
        Inl e \<Rightarrow> Some (st, Inl e)
      | Inr _ \<Rightarrow> executeCreateOrder HasToken provider [] rpc marketID (toProtoOrderType orderType) price quantity st)"

definition PlaceOrder ::
  "'t provider \<Rightarrow> outgoing \<Rightarrow> (create_order_request, 'r, create_order_response) rpc \<Rightarrow> string \<Rightarrow> string \<Rightarrow> string \<Rightarrow>
   't \<times> 'r \<Rightarrow> (('t \<times> 'r) \<times> create_order_response result) option"
where
  "PlaceOrder provider old rpc marketID price quantity st =
     (case cli_CreateOrder provider old rpc marketID ORDER_TYPE_BUY price quantity st of
        None \<Rightarrow> None
      | Some (st', Inl e) \<Rightarrow> Some (st', Inl (Wrapf ''failed to place order'' e))
      | Some (st', Inr resp) \<Rightarrow> Some (st', Inr resp))"

text \<open>The checks of \<open>order-client/internal/config/config.go\<close>.\<close>

record client_config =
  cc_OrderServiceAddr :: string
  cc_UserServiceAddr :: string
  cc_TokenStoragePath :: string
  cc_RequestTimeout :: duration

definition client_config_Validate :: "client_config \<Rightarrow> unit result" where
  "client_config_Validate c =
     (if cc_OrderServiceAddr c = '''' \<or> cc_UserServiceAddr c = '''' then Inl (Errorf ''service addresses are required'')
      else if cc_RequestTimeout c \<le> 0 then Inl (Errorf ''REQUEST_TIMEOUT must be positive'')
      else Inr ())"

section \<open>The command with the token manager\<close>

lemma tm_GetAccessToken_free:
  assumes "tm_mu tm = free_mutex"
  shows "tm_GetAccessToken now tm =
    Some (tm, if tm_accessToken tm = '''' \<or> now > tm_expiresAt tm then Inl cli_expired else Inr (tm_accessToken tm))"
  using assms by (cases tm) (simp add: tm_GetAccessToken_def mutex_defs)

lemma tm_HasToken_free:
  assumes "tm_mu tm = free_mutex"
  shows "tm_HasToken tm = Some (tm, tm_accessToken tm \<noteq> '''')"
  using assms by (cases tm) (simp add: tm_HasToken_def mutex_defs)

text \<open>What the command sends, and when it sends nothing.\<close>

lemma create_order_cmd_exact:
  assumes "tm_mu tm = free_mutex"
  shows "create_order_cmd tm_HasToken (Some (tm_GetAccessToken now)) rpc marketID orderType price quantity (tm, r) =
    (case pre_create marketID orderType price quantity of
       Inl e \<Rightarrow> Some ((tm, r), Inl e)
     | Inr _ \<Rightarrow>
         if tm_accessToken tm = '''' then Some ((tm, r), Inl (Errorf ''not authenticated. Please run 'login' first''))
         else if now > tm_expiresAt tm then Some ((tm, r), Inl (Wrapf ''failed to get access token'' cli_expired))
         else (case rpc [(''authorization'', ''Bearer '' @ tm_accessToken tm)]
                 \<lparr>cor_MarketId = marketID, cor_Type = (if orderType = ''BUY'' then ORDER_TYPE_BUY else ORDER_TYPE_SELL),
                  cor_Price = price, cor_Quantity = quantity, cor_IdempotencyKey = ''''\<rparr> r of (r', res) \<Rightarrow> Some ((tm, r'), res)))"
  using assms
  by (auto simp: create_order_cmd_def executeCreateOrder_def cli_CreateOrder_def cli_call_def withAuth_def tm_HasToken_free
      tm_GetAccessToken_free pre_create_def toProtoOrderType_def split: prod.split)

end
