(* ===== verification/Client_Commands.thy ===== *)
theory Client_Commands
  imports Order_Client Shared_Grpc
begin

text \<open>
  The commands of \<open>order-client/main.go\<close> from the terminal to the remote call. Each command is a process
  of its own: it loads the configuration, opens a token manager on the token file and ends; what
  it leaves is the file. The terminal is the text that is left to read; a prompt that finds no text
  panics. Flags come as arguments, with the empty string for one that is not given. The answers of the
  user service carry a user, as the service always sets it.
\<close>

section \<open>Reading answers\<close>

definition newline :: char where
  "newline = CHR 0x0A"

text \<open>\<open>ReadString\<close> of package bufio: up to and with the delimiter, or what is left; its error is dropped.\<close>

definition read_line :: "string \<Rightarrow> string \<times> string" where
  "read_line s =
     (case dropWhile (\<lambda>c. c \<noteq> newline) s of
        [] \<Rightarrow> (s, [])
      | c # rest \<Rightarrow> (takeWhile (\<lambda>c. c \<noteq> newline) s @ [c], rest))"

text \<open>The last byte is cut off, whatever it is: \<open>None\<close> is the panic of cutting an empty string.\<close>

definition prompt :: "string \<Rightarrow> string \<Rightarrow> (string \<times> string) option" where
  "prompt v stdin =
     (if v \<noteq> '''' then Some (v, stdin)
      else case read_line stdin of (l, rest) \<Rightarrow> if l = '''' then None else Some (butlast l, rest))"

definition login_answers :: "string \<Rightarrow> string \<Rightarrow> string \<Rightarrow> (string \<times> string \<times> string) option" where
  "login_answers email password stdin =
     (if email = '''' \<or> password = ''''
        then case prompt email stdin of
               None \<Rightarrow> None
             | Some (e, s1) \<Rightarrow> (case prompt password s1 of None \<Rightarrow> None | Some (p, s2) \<Rightarrow> Some (e, p, s2))
      else Some (email, password, stdin))"

text \<open>The name of the user is asked for only when the address or the password is.\<close>

definition register_answers ::
  "string \<Rightarrow> string \<Rightarrow> string \<Rightarrow> string \<Rightarrow> (string \<times> string \<times> string \<times> string) option"
where
  "register_answers email password username stdin =
     (if email = '''' \<or> password = ''''
        then case prompt email stdin of
               None \<Rightarrow> None
             | Some (e, s1) \<Rightarrow> (case prompt password s1 of
                 None \<Rightarrow> None
               | Some (p, s2) \<Rightarrow> (case prompt username s2 of None \<Rightarrow> None | Some (u, s3) \<Rightarrow> Some (e, p, u, s3)))
      else Some (email, password, username, stdin))"

section \<open>Configuration and the token manager\<close>

text \<open>\<open>Load\<close>: what the envconfig library reads, and the checks.\<close>

definition client_Load :: "client_config result \<Rightarrow> client_config result" where
  "client_Load env =
     (case env of
        Inl e \<Rightarrow> Inl (Wrapf ''envconfig failed'' e)
      | Inr c \<Rightarrow> (case client_config_Validate c of Inl e \<Rightarrow> Inl (Wrapf ''invalid config'' e) | Inr _ \<Rightarrow> Inr c))"

definition nil_dereference :: string where
  "nil_dereference = ''runtime error: invalid memory address or nil pointer dereference''"

text \<open>What the processes find outside: the codec, the environment, the errors of connecting, of
  reading and writing the token file and of making a logger, and whether the file can be removed.\<close>

record process =
  px_codec :: codec
  px_env :: "client_config result"
  px_dial :: "string \<Rightarrow> err option"
  px_read :: "err option"
  px_write :: "write_fault option"
  px_logger :: "err option"
  px_remove :: bool

definition open_manager :: "process \<Rightarrow> string \<Rightarrow> bytes option \<Rightarrow> token_manager result option" where
  "open_manager P addr disk =
     (case px_dial P addr of
        Some e \<Rightarrow> Some (Inl e)
      | None \<Rightarrow> map_option Inr (NewTokenManager (px_codec P) (px_read P) disk))"

text \<open>The commands of an account ignore the error of \<open>Load\<close> and follow a pointer that is nil.\<close>

definition account_manager :: "process \<Rightarrow> bytes option \<Rightarrow> token_manager outcome option" where
  "account_manager P disk =
     (case client_Load (px_env P) of
        Inl _ \<Rightarrow> Some (Panicked nil_dereference)
      | Inr cfg \<Rightarrow> map_option Returned (open_manager P (cc_UserServiceAddr cfg) disk))"

section \<open>Account commands\<close>

text \<open>After the prompts: open the manager, call it, report. The state is the token file and the server;
  \<open>what\<close> is the text of the error; the result carries the response that is printed.\<close>

definition account_command ::
  "process \<Rightarrow> string \<Rightarrow> (token_manager \<Rightarrow> 'u \<Rightarrow> ('u \<times> token_manager \<times> 'a result) option) \<Rightarrow> bytes option \<times> 'u \<Rightarrow>
   ((bytes option \<times> 'u) \<times> 'a outcome) option"
where
  "account_command P what call st =
     (case account_manager P (fst st) of
        None \<Rightarrow> None
      | Some (Panicked m) \<Rightarrow> Some (st, Panicked m)
      | Some (Returned (Inl e)) \<Rightarrow> Some (st, Returned (Inl e))
      | Some (Returned (Inr tm)) \<Rightarrow>
          (case call tm (snd st) of
             None \<Rightarrow> None
           | Some (u, tm', Inl e) \<Rightarrow> Some ((tm_disk tm', u), Returned (Inl (Wrapf what e)))
           | Some (u, tm', Inr resp) \<Rightarrow> Some ((tm_disk tm', u), Returned (Inr resp))))"

definition slice_out_of_range :: string where
  "slice_out_of_range = ''runtime error: slice bounds out of range [:-1]''"

definition runLogin ::
  "process \<Rightarrow> time \<Rightarrow> (string \<Rightarrow> string \<Rightarrow> 'u \<Rightarrow> 'u \<times> 'ts auth_response result) \<Rightarrow> string \<Rightarrow> string \<Rightarrow> string \<Rightarrow>
   bytes option \<times> 'u \<Rightarrow> ((bytes option \<times> 'u) \<times> 'ts auth_response outcome) option"
where
  "runLogin P now rpc email password stdin st =
     (case login_answers email password stdin of
        None \<Rightarrow> Some (st, Panicked slice_out_of_range)
      | Some (e, p, _) \<Rightarrow>
          account_command P ''login failed''
            (\<lambda>tm u. case rpc e p u of (u', ans) \<Rightarrow> map_option (\<lambda>(tm', r). (u', tm', r)) (tm_Login (px_codec P) (px_write P) now ans tm))
            st)"

definition runRegister ::
  "process \<Rightarrow> time \<Rightarrow> (string \<Rightarrow> string \<Rightarrow> string \<Rightarrow> 'u \<Rightarrow> 'u \<times> 'ts auth_response result) \<Rightarrow> string \<Rightarrow> string \<Rightarrow> string \<Rightarrow> string \<Rightarrow>
   bytes option \<times> 'u \<Rightarrow> ((bytes option \<times> 'u) \<times> 'ts auth_response outcome) option"
where
  "runRegister P now rpc email password username stdin st =
     (case register_answers email password username stdin of
        None \<Rightarrow> Some (st, Panicked slice_out_of_range)
      | Some (e, p, name, _) \<Rightarrow>
          account_command P ''registration failed''
            (\<lambda>tm u. case rpc e p name u of (u', ans) \<Rightarrow> map_option (\<lambda>(tm', r). (u', tm', r)) (tm_Register (px_codec P) (px_write P) now ans tm))
            st)"

text \<open>The server is told of a log-out only if the file has a refresh token, and its answer is dropped.\<close>

definition runLogout :: "process \<Rightarrow> (string \<Rightarrow> 'u \<Rightarrow> 'u) \<Rightarrow> bytes option \<times> 'u \<Rightarrow> ((bytes option \<times> 'u) \<times> unit outcome) option" where
  "runLogout P rpc st =
     account_command P ''logout failed''
       (\<lambda>tm u. map_option (\<lambda>(tm', r). (if tm_refreshToken tm = '''' then u else rpc (tm_refreshToken tm) u, tm', r))
          (tm_Logout (px_remove P) tm)) st"

section \<open>Order commands\<close>

text \<open>A logger, the token manager, the client of the order service, then the call \<open>exec\<close>.\<close>

definition order_process ::
  "process \<Rightarrow> (token_manager \<times> 'r \<Rightarrow> ((token_manager \<times> 'r) \<times> 'a result) option) \<Rightarrow> bytes option \<times> 'r \<Rightarrow>
   ((bytes option \<times> 'r) \<times> 'a result) option"
where
  "order_process P exec st =
     (case client_Load (px_env P) of
        Inl e \<Rightarrow> Some (st, Inl e)
      | Inr cfg \<Rightarrow>
          (case px_logger P of
             Some e \<Rightarrow> Some (st, Inl e)
           | None \<Rightarrow>
               (case open_manager P (cc_UserServiceAddr cfg) (fst st) of
                  None \<Rightarrow> None
                | Some (Inl e) \<Rightarrow> Some (st, Inl e)
                | Some (Inr tm) \<Rightarrow>
                    (case px_dial P (cc_OrderServiceAddr cfg) of
                       Some e \<Rightarrow> Some (st, Inl (Wrapf ''failed to connect to order service'' e))
                     | None \<Rightarrow> map_option (\<lambda>((tm', r), res). ((tm_disk tm', r), res)) (exec (tm, snd st))))))"

definition runCreateOrder ::
  "process \<Rightarrow> time \<Rightarrow> (create_order_request, 'r, create_order_response) rpc \<Rightarrow> string \<Rightarrow> string \<Rightarrow> string \<Rightarrow> string \<Rightarrow>
   bytes option \<times> 'r \<Rightarrow> ((bytes option \<times> 'r) \<times> create_order_response result) option"
where
  "runCreateOrder P now rpc marketID orderType price quantity st =
     order_process P
       (executeCreateOrder tm_HasToken (Some (tm_GetAccessToken now)) [] rpc marketID (toProtoOrderType orderType) price quantity) st"

definition runOrderStatus ::
  "process \<Rightarrow> time \<Rightarrow> (string, 'r, 'a) rpc \<Rightarrow> string \<Rightarrow> bytes option \<times> 'r \<Rightarrow> ((bytes option \<times> 'r) \<times> 'a result) option"
where
  "runOrderStatus P now rpc orderID st =
     order_process P (executeOrderStatus tm_HasToken (Some (tm_GetAccessToken now)) [] rpc orderID) st"

text \<open>The commands of \<open>main\<close>: the check of the flags comes first.\<close>

definition createCmd ::
  "process \<Rightarrow> time \<Rightarrow> (create_order_request, 'r, create_order_response) rpc \<Rightarrow> string \<Rightarrow> string \<Rightarrow> string \<Rightarrow> string \<Rightarrow>
   bytes option \<times> 'r \<Rightarrow> ((bytes option \<times> 'r) \<times> create_order_response result) option"
where
  "createCmd P now rpc marketID orderType price quantity st =
     (case pre_create marketID orderType price quantity of
        Inl e \<Rightarrow> Some (st, Inl e)
      | Inr _ \<Rightarrow> runCreateOrder P now rpc marketID orderType price quantity st)"

definition statusCmd ::
  "process \<Rightarrow> time \<Rightarrow> (string, 'r, 'a) rpc \<Rightarrow> string \<Rightarrow> bytes option \<times> 'r \<Rightarrow> ((bytes option \<times> 'r) \<times> 'a result) option"
where
  "statusCmd P now rpc orderID st =
     (case pre_status orderID of Inl e \<Rightarrow> Some (st, Inl e) | Inr _ \<Rightarrow> runOrderStatus P now rpc orderID st)"

section \<open>Sessions\<close>

text \<open>A process whose environment works: configuration, connections, files and the codec.\<close>

definition works :: "process \<Rightarrow> bool" where
  "works P \<longleftrightarrow> codec_ok (px_codec P) \<and> (\<exists>c. client_Load (px_env P) = Inr c) \<and> (\<forall>a. px_dial P a = None) \<and>
     px_read P = None \<and> px_write P = None \<and> px_logger P = None \<and> px_remove P"

lemma NewTokenManager_some: "\<exists>tm. NewTokenManager C rd disk = Some tm \<and> tm_mu tm = free_mutex \<and> tm_disk tm = disk"
  by (auto simp: NewTokenManager_def tm_loadFromDisk_def mutex_defs split: option.split sum.split)

lemma account_manager_works:
  assumes "works P"
  obtains tm where "account_manager P disk = Some (Returned (Inr tm))" "tm_mu tm = free_mutex" "tm_disk tm = disk"
    "NewTokenManager (px_codec P) None disk = Some tm"
  using assms NewTokenManager_some[of "px_codec P" None disk]
  by (auto simp: works_def account_manager_def open_manager_def)

lemma order_process_works:
  assumes "works P" and "NewTokenManager (px_codec P) None disk = Some tm"
  shows "order_process P exec (disk, r) = map_option (\<lambda>((tm', r), res). ((tm_disk tm', r), res)) (exec (tm, r))"
  using assms by (auto simp: works_def order_process_def open_manager_def)

text \<open>An order command fails on its own or makes its call with a manager on the file.\<close>

lemma order_process_cases:
  obtains e where "order_process P exec (disk, r) = Some ((disk, r), Inl e)"
  | tm where "NewTokenManager (px_codec P) (px_read P) disk = Some tm" "tm_mu tm = free_mutex" "tm_disk tm = disk"
      "order_process P exec (disk, r) = map_option (\<lambda>((tm', r), res). ((tm_disk tm', r), res)) (exec (tm, r))"
proof (cases "client_Load (px_env P)")
  case (Inl e)
  then show ?thesis using that(1) by (simp add: order_process_def)
next
  case (Inr c)
  obtain tm where tm: "NewTokenManager (px_codec P) (px_read P) disk = Some tm" "tm_mu tm = free_mutex" "tm_disk tm = disk"
    using NewTokenManager_some by blast
  show ?thesis
  proof (cases "px_logger P = None \<and> px_dial P (cc_UserServiceAddr c) = None \<and> px_dial P (cc_OrderServiceAddr c) = None")
    case True
    then show ?thesis using that(2)[OF tm] Inr tm(1) by (simp add: order_process_def open_manager_def)
  next
    case False
    then have "\<exists>e. order_process P exec (disk, r) = Some ((disk, r), Inl e)"
      using Inr tm(1) by (auto simp: order_process_def open_manager_def split: option.split)
    then show ?thesis using that(1) by blast
  qed
qed

text \<open>An accepted log-in or registration returns.\<close>

lemma accept_returns:
  assumes "tm_mu tm = free_mutex"
  obtains tm1 where "tm_accept C wr now (Inr resp) tm = Some (tm1, Inr resp)"
proof -
  obtain tm1 r where run: "tm_accept C wr now (Inr resp) tm = Some (tm1, r)" using tm_methods_return(1)[OF assms] by blast
  then have "r = Inr resp" using assms by (auto simp: tm_accept_def mutex_defs Let_def)
  then show ?thesis using run that by simp
qed

lemma createCmd_bearer:
  assumes "works P" and "pre_create marketID orderType price quantity = Inr ()"
    and "NewTokenManager (px_codec P) None disk = Some tm"
    and "tm_accessToken tm \<noteq> ''''" and "t \<le> tm_expiresAt tm"
  shows "createCmd P t rpc marketID orderType price quantity (disk, r) =
    (case rpc [(''authorization'', ''Bearer '' @ tm_accessToken tm)]
       \<lparr>cor_MarketId = marketID, cor_Type = (if orderType = ''BUY'' then ORDER_TYPE_BUY else ORDER_TYPE_SELL),
        cor_Price = price, cor_Quantity = quantity, cor_IdempotencyKey = ''''\<rparr> r of (r', res) \<Rightarrow> Some ((disk, r'), res))"
proof -
  have tm: "tm_mu tm = free_mutex" "tm_disk tm = disk"
    using NewTokenManager_some[of "px_codec P" None disk] assms(3) by auto
  have "createCmd P t rpc marketID orderType price quantity (disk, r) =
    map_option (\<lambda>((tm', r), res). ((tm_disk tm', r), res))
      (create_order_cmd tm_HasToken (Some (tm_GetAccessToken t)) rpc marketID orderType price quantity (tm, r))"
    using assms(2) by (simp add: createCmd_def runCreateOrder_def order_process_works[OF assms(1,3)] create_order_cmd_def)
  then show ?thesis
    using assms(2,4,5) tm by (simp add: create_order_cmd_exact[OF tm(1)] split: prod.split)
qed

text \<open>C38: A log-in serves the commands of later processes: after a log-in with address and password
  given that the user service accepts, \<open>create-order\<close> with valid flags sends the token of that answer
  as its bearer token until a quarter of an hour has passed (to the second), and leaves the file alone.\<close>

theorem login_serves_later_commands:
  assumes "works P" and "e \<noteq> ''''" and "p \<noteq> ''''" and "login e p u = (u', Inr resp)" and "ar_AccessToken resp \<noteq> ''''"
    and "pre_create marketID orderType price quantity = Inr ()"
  shows "\<exists>disk'. runLogin P now login e p stdin (disk, u) = Some ((disk', u'), Returned (Inr resp)) \<and>
    (\<forall>t \<le> (now + CliAccessTTL) div second * second.
      createCmd P t rpc marketID orderType price quantity (disk', r) =
        (case rpc [(''authorization'', ''Bearer '' @ ar_AccessToken resp)]
          \<lparr>cor_MarketId = marketID, cor_Type = (if orderType = ''BUY'' then ORDER_TYPE_BUY else ORDER_TYPE_SELL),
           cor_Price = price, cor_Quantity = quantity, cor_IdempotencyKey = ''''\<rparr> r of (r', res) \<Rightarrow> Some ((disk', r'), res)))"
proof -
  obtain tm where tm: "account_manager P disk = Some (Returned (Inr tm))" "tm_mu tm = free_mutex"
    by (rule account_manager_works[OF assms(1)])
  obtain tm1 where run: "tm_accept (px_codec P) None now (Inr resp) tm = Some (tm1, Inr resp)"
    by (rule accept_returns[OF tm(2)])
  obtain tm2 where tm2: "NewTokenManager (px_codec P) None (tm_disk tm1) = Some tm2" "tm_accessToken tm2 = ar_AccessToken resp"
    "tm_expiresAt tm2 = (now + CliAccessTTL) div second * second"
    using login_persists[of "px_codec P" tm now resp tm1] assms(1) tm(2) run by (auto simp: works_def tm_Login_def)
  have "runLogin P now login e p stdin (disk, u) = Some ((tm_disk tm1, u'), Returned (Inr resp))"
    using assms(1-4) tm(1) run by (simp add: runLogin_def login_answers_def account_command_def tm_Login_def works_def)
  moreover have "createCmd P t rpc marketID orderType price quantity (tm_disk tm1, r) =
        (case rpc [(''authorization'', ''Bearer '' @ ar_AccessToken resp)]
          \<lparr>cor_MarketId = marketID, cor_Type = (if orderType = ''BUY'' then ORDER_TYPE_BUY else ORDER_TYPE_SELL),
           cor_Price = price, cor_Quantity = quantity, cor_IdempotencyKey = ''''\<rparr> r of (r', res) \<Rightarrow> Some ((tm_disk tm1, r'), res))"
    if "t \<le> (now + CliAccessTTL) div second * second" for t
    using createCmd_bearer[OF assms(1,6) tm2(1), of t rpc r] tm2(2,3) assms(5) that by simp
  ultimately show ?thesis by blast
qed

text \<open>A log-out forgets the token where the file can be removed; a file that stays is not reported, and
  the next command finds the token in it.\<close>

lemma logout_disk:
  assumes "account_manager P disk = Some (Returned (Inr tm))" and "tm_mu tm = free_mutex"
  shows "\<exists>u'. runLogout P rpc (disk, u) = Some ((if px_remove P then None else tm_disk tm, u'), Returned (Inr ()))"
  using assms by (simp add: runLogout_def account_command_def tm_Logout_def mutex_defs)

lemma fresh_manager: "\<exists>tm. NewTokenManager C rd None = Some tm \<and> tm_accessToken tm = ''''"
  by (simp add: NewTokenManager_def tm_loadFromDisk_def)

lemma createCmd_fresh:
  assumes "works P" and "pre_create marketID orderType price quantity = Inr ()"
  shows "createCmd P t rpc marketID orderType price quantity (None, r) =
    Some ((None, r), Inl (Errorf ''not authenticated. Please run 'login' first''))"
proof -
  obtain tm where tm: "NewTokenManager (px_codec P) None None = Some tm" "tm_accessToken tm = ''''" using fresh_manager by blast
  then have "tm_mu tm = free_mutex" "tm_disk tm = None" using NewTokenManager_some[of "px_codec P" None None] by auto
  then show ?thesis using assms tm
    by (simp add: createCmd_def runCreateOrder_def order_process_works[OF assms(1) tm(1)] executeCreateOrder_def tm_HasToken_free)
qed

text \<open>A log-out always reports success. Where the token file can be removed, the next \<open>create-order\<close>
  is refused before any remote call; where it cannot, the file is as it was and the next \<open>create-order\<close> behaves
  as if there had been no log-out.\<close>

lemma logout_needs_removal:
  assumes "works P" and "pre_create marketID orderType price quantity = Inr ()"
  shows "(\<exists>u'. runLogout P logout (disk, u) = Some ((None, u'), Returned (Inr ()))) \<and>
    createCmd P t rpc marketID orderType price quantity (None, r) =
      Some ((None, r), Inl (Errorf ''not authenticated. Please run 'login' first'')) \<and>
    (\<exists>u'. runLogout (P\<lparr>px_remove := False\<rparr>) logout (disk, u) = Some ((disk, u'), Returned (Inr ())))"
proof -
  obtain tm where tm: "account_manager P disk = Some (Returned (Inr tm))" "tm_mu tm = free_mutex" "tm_disk tm = disk"
    by (rule account_manager_works[OF assms(1)])
  let ?Q = "P\<lparr>px_remove := False\<rparr>"
  have "account_manager ?Q disk = Some (Returned (Inr tm))" 
    using tm(1) 
    by (auto simp: account_manager_def open_manager_def split: sum.split sum.split_asm option.split option.split_asm)
  then show ?thesis
    using logout_disk[OF tm(1,2), of logout u] logout_disk[of ?Q disk tm logout u] tm(2,3) createCmd_fresh[OF assms, of t rpc r] assms(1)
    by (simp add: works_def)
qed

section \<open>Prompts\<close>

lemma read_line_newline: "newline \<notin> set l \<Longrightarrow> read_line (l @ newline # rest) = (l @ [newline], rest)"
proof -
  assume n: "newline \<notin> set l"
  then have "dropWhile (\<lambda>c. c \<noteq> newline) (l @ newline # rest) = newline # rest"
    by (induction l) auto
  moreover have "takeWhile (\<lambda>c. c \<noteq> newline) (l @ newline # rest) = l"
    using n by (induction l) auto
  ultimately show ?thesis by (simp add: read_line_def)
qed

lemma read_line_end: "newline \<notin> set l \<Longrightarrow> read_line l = (l, [])"
proof -
  assume "newline \<notin> set l"
  then have "dropWhile (\<lambda>c. c \<noteq> newline) l = []" by (induction l) auto
  then show ?thesis by (simp only: read_line_def list.case)
qed

lemma prompt_newline: "newline \<notin> set l \<Longrightarrow> prompt '''' (l @ newline # rest) = Some (l, rest)"
  by (simp add: prompt_def read_line_newline)

lemma prompt_end: "newline \<notin> set l \<Longrightarrow> prompt '''' l = (if l = '''' then None else Some (butlast l, []))"
  by (simp add: prompt_def read_line_end)

text \<open>What a log-in without flags sends, for an address \<open>e\<close> and a password \<open>p\<close> of at least two bytes
  and no newline: two lines are as good as the flags; without a newline at the end of the text the last
  byte of the password is lost; without a second line the command panics and nothing has happened.\<close>

lemma prompted_login_exact:
  assumes "newline \<notin> set e" and "newline \<notin> set p" and "e \<noteq> ''''" and "2 \<le> length p"
  shows "runLogin P now login '''' '''' (e @ newline # p @ newline # rest) st = runLogin P now login e p stdin st \<and>
    runLogin P now login '''' '''' (e @ newline # p) st = runLogin P now login e (butlast p) stdin st \<and>
    runLogin P now login '''' '''' (e @ [newline]) st = Some (st, Panicked slice_out_of_range) \<and>
    runLogin P now login '''' '''' [] st = Some (st, Panicked slice_out_of_range)"
proof -
  have b: "butlast p \<noteq> ''''" "p \<noteq> ''''" using assms(4) by (auto simp: butlast_conv_take)
  have "login_answers '''' '''' (e @ newline # p @ newline # rest) = Some (e, p, rest)"
    "login_answers '''' '''' (e @ newline # p) = Some (e, butlast p, [])"
    "login_answers '''' '''' (e @ [newline]) = None" "login_answers '''' '''' [] = None"
    using assms(1,2) b(2) prompt_end[of "[]"] by (simp_all add: login_answers_def prompt_newline prompt_end)
  moreover have "login_answers e p stdin = Some (e, p, stdin)" "login_answers e (butlast p) stdin = Some (e, butlast p, stdin)"
    using assms(3) b by (simp_all add: login_answers_def)
  ultimately show ?thesis by (simp add: runLogin_def)
qed

section \<open>An environment\<close>

text \<open>A codec in unary, for the hypotheses above.\<close>

definition unary :: "int \<Rightarrow> string" where
  "unary n = (if n < 0 then CHR ''-'' else CHR ''+'') # replicate (nat (abs n)) (CHR ''1'')"

definition of_unary :: "string \<Rightarrow> int option" where
  "of_unary s = (case s of [] \<Rightarrow> None | c # r \<Rightarrow> Some (if c = CHR ''-'' then - int (length r) else int (length r)))"

definition unary_codec :: codec where
  "unary_codec = \<lparr>
     cd_enc = (\<lambda>s. Inr (replicate (length (sf_access s)) (CHR ''1'') @ CHR '','' # replicate (length (sf_refresh s)) (CHR ''1'') @ CHR '','' #
       sf_access s @ sf_refresh s @ sf_expires s)),
     cd_dec = (\<lambda>b. let one = (\<lambda>c. c = CHR ''1''); n = length (takeWhile one b); b1 = tl (dropWhile one b);
        m = length (takeWhile one b1); b2 = tl (dropWhile one b1)
       in Inr \<lparr>sf_access = take n b2, sf_refresh = take m (drop n b2), sf_expires = drop (n + m) b2\<rparr>),
     cd_fmt = (\<lambda>t. unary (t div second)),
     cd_parse = (\<lambda>s. map_option (\<lambda>n. n * second) (of_unary s))\<rparr>"

lemma of_unary_unary: "of_unary (unary n) = Some n"
  by (simp add: of_unary_def unary_def)

lemma takeWhile_replicate: "x \<noteq> y \<Longrightarrow> takeWhile (\<lambda>c. c = x) (replicate n x @ y # s) = replicate n x"
  and dropWhile_replicate: "x \<noteq> y \<Longrightarrow> dropWhile (\<lambda>c. c = x) (replicate n x @ y # s) = y # s"
  by (induction n) auto

lemma unary_codec_ok: "codec_ok unary_codec"
  by (simp add: codec_ok_def unary_codec_def of_unary_unary takeWhile_replicate dropWhile_replicate Let_def)

definition wit_process :: process where
  "wit_process = \<lparr>px_codec = unary_codec,
     px_env = Inr \<lparr>cc_OrderServiceAddr = ''localhost:50052'', cc_UserServiceAddr = ''localhost:50053'',
       cc_TokenStoragePath = ''tokens.json'', cc_RequestTimeout = 30 * second\<rparr>,
     px_dial = (\<lambda>a. None), px_read = None, px_write = None, px_logger = None, px_remove = True\<rparr>"

lemma wit_process_works: "works wit_process"
  by (simp add: works_def wit_process_def unary_codec_ok client_Load_def client_config_Validate_def second_def)

definition wit_answer :: "unit auth_response" where
  "wit_answer = \<lparr>ar_User = \<lparr>u_UserId = ''u'', u_Email = ''a@b.c'', u_Username = ''a'', u_Role = USER_ROLE_USER, u_IsActive = True,
     u_CreatedAt = None, u_UpdatedAt = None\<rparr>, ar_AccessToken = ''jwt''\<rparr>"

theorem login_serves_later_commands_witness:
  "\<exists>disk'. runLogin wit_process 0 (\<lambda>e p u. (u, Inr wit_answer)) ''a@b.c'' ''pw'' [] (None, ()) = Some ((disk', ()), Returned (Inr wit_answer)) \<and>
    createCmd wit_process 5 (\<lambda>md q r. (md, Inl (StatusErr CodeUnavailable ''down''))) ''m'' ''SELL'' ''1'' ''2'' (disk', []) =
      Some ((disk', [(''authorization'', ''Bearer jwt'')]), Inl (StatusErr CodeUnavailable ''down''))"
proof -
  have p: "pre_create ''m'' ''SELL'' ''1'' ''2'' = Inr ()" by (simp add: pre_create_def)
  have t: "(5::int) \<le> (0 + CliAccessTTL) div second * second" by (simp add: CliAccessTTL_def second_def)
  from login_serves_later_commands[OF wit_process_works, of "''a@b.c''" "''pw''" "\<lambda>e p u. (u, Inr wit_answer)" "()" "()" wit_answer
      "''m''" "''SELL''" "''1''" "''2''" 0 "[]" None "\<lambda>md q r. (md, Inl (StatusErr CodeUnavailable ''down''))" "[]"]
  show ?thesis using p t by (auto simp: wit_answer_def)
qed

lemma logout_needs_removal_witness:
  "\<exists>u'. runLogout (wit_process\<lparr>px_remove := False\<rparr>) (\<lambda>t u. u) (Some ''x'', ()) = Some ((Some ''x'', u'), Returned (Inr ()))"
proof -
  have p: "pre_create ''m'' ''SELL'' ''1'' ''2'' = Inr ()" by (simp add: pre_create_def)
  show ?thesis
    using logout_needs_removal[OF wit_process_works p, of "\<lambda>t u. u" "Some ''x''" "()" 0 "\<lambda>md q r. (r, Inl (Errorf ''x''))" "()"]
    by blast
qed

lemma prompted_login_exact_witness:
  "runLogin wit_process 0 (\<lambda>e p u. ((e, p), Inl (Errorf ''x''))) '''' '''' (''a@b'' @ newline # ''secret'') (None, '''', '''') =
   runLogin wit_process 0 (\<lambda>e p u. ((e, p), Inl (Errorf ''x'' :: err))) ''a@b'' ''secre'' [] (None, '''', '''' :: string)"
proof -
  have n: "newline \<notin> set ''a@b''" "newline \<notin> set ''secret''" by (simp_all add: newline_def)
  have b: "butlast ''secret'' = ''secre''" by simp
  show ?thesis
    using prompted_login_exact[OF n, of wit_process 0 "\<lambda>e p u. ((e, p), Inl (Errorf ''x''))" "[]" "(None, '''', '''')" "[]",
        THEN conjunct2, THEN conjunct1] unfolding b by simp
qed

end
