(* ===== verification/Order_Types.thy ===== *)
theory Order_Types
  imports Order_Runs
begin

text \<open>
  The shape of what \<open>CreateOrder\<close> stores, kept by every step of interleaved calls over any repository that
  meets the contract: each order under its own identifier, for a user and a market whose
  identifiers are well formed, pending and unfilled; and that a stored order is never changed.
\<close>

definition order_typed :: "(string \<Rightarrow> bool) \<Rightarrow> string \<Rightarrow> 'ts order_pb \<Rightarrow> bool" where
  "order_typed parses i ord \<longleftrightarrow>
     o_OrderId ord = i \<and> o_UserId ord \<noteq> '''' \<and> parses (o_UserId ord) \<and> o_MarketId ord \<noteq> '''' \<and> parses (o_MarketId ord) \<and>
     o_Status ord = ORDER_STATUS_PENDING \<and> o_FilledQuantity ord = ''0''"

definition command_typed :: "(string \<Rightarrow> bool) \<Rightarrow> create_command \<Rightarrow> bool" where
  "command_typed parses cmd \<longleftrightarrow>
     cmd_UserID cmd \<noteq> '''' \<and> parses (cmd_UserID cmd) \<and> cmd_MarketID cmd \<noteq> '''' \<and> parses (cmd_MarketID cmd)"

lemma begin_typed: "create_begin parses ops E cmd r = None \<Longrightarrow> command_typed parses cmd"
  by (auto simp: create_begin_def command_typed_def uid_Validate_None split: option.splits)

lemma new_order_typed: "command_typed parses cmd \<Longrightarrow> order_typed parses (ce_orderID E) (new_order E cmd)"
  by (simp add: command_typed_def order_typed_def new_order_def)

context order_repository
begin

definition typed_state :: "(string \<Rightarrow> bool) \<Rightarrow> 'r \<Rightarrow> flights \<Rightarrow> bool" where
  "typed_state parses r F \<longleftrightarrow>
     oinv r \<and> (\<forall>i ord. orders_of r i = Some ord \<longrightarrow> order_typed parses i ord) \<and> (\<forall>(st, E, cmd) \<in># F. command_typed parses cmd)"

lemma saved_orders:
  assumes "oinv r" and "create_save ops E cmd r = (r', res)"
  shows "oinv r' \<and> (orders_of r' = orders_of r \<or> orders_of r' = (orders_of r)(ce_orderID E \<mapsto> new_order E cmd))"
proof -
  have r': "r' = fst (op_Save ops (ce_save E) (new_order E cmd) r)"
    using assms(2) by (auto simp: create_save_def Let_def split: prod.splits sum.splits)
  have id: "o_OrderId (new_order E cmd) = ce_orderID E" by (simp add: new_order_def)
  show ?thesis
  proof (cases "snd (op_Save ops (ce_save E) (new_order E cmd) r)")
    case (Inl e)
    then show ?thesis using save_failed[OF assms(1) Inl] save_inv[OF assms(1)] r' by simp
  next
    case (Inr x)
    then show ?thesis using save_ok[OF assms(1), of "ce_save E" "new_order E cmd"] save_inv[OF assms(1)] r' id by simp
  qed
qed

lemma step_typed:
  assumes "create_step parses ops orders_of client (r, c, F) (r', c', F')" and "typed_state parses r F"
  shows "typed_state parses r' F' \<and> (\<forall>i ord. orders_of r i = Some ord \<longrightarrow> orders_of r' i = Some ord)"
  using assms(1)
proof cases
  case (begun E cmd)
  then show ?thesis using begin_typed[of parses ops E cmd r] assms(2) by (auto simp: typed_state_def)
next
  case (saved E cmd res)
  have t: "command_typed parses cmd" "oinv r" "\<forall>i ord. orders_of r i = Some ord \<longrightarrow> order_typed parses i ord"
    using assms(2) saved(1) by (auto simp: typed_state_def)
  show ?thesis
    using saved_orders[OF t(2) saved(3)] new_order_typed[OF t(1), of E] t(3) saved assms(2)
    by (auto simp: typed_state_def split: if_splits)
qed (use assms(2) in \<open>auto simp: typed_state_def\<close>)

lemma run_typed:
  assumes "(create_step parses ops orders_of client)\<^sup>*\<^sup>* (r0, c0, F0) (r, c, F)" and "typed_state parses r0 F0"
  shows "typed_state parses r F \<and> (\<forall>i ord. orders_of r0 i = Some ord \<longrightarrow> orders_of r i = Some ord)"
  using assms(1)
proof (induction "(r, c, F)" arbitrary: r c F rule: rtranclp_induct)
  case base
  then show ?case using assms(2) by simp
next
  case (step y)
  obtain r1 c1 F1 where y: "y = (r1, c1, F1)" by (cases y)
  show ?case using step step_typed[of parses client r1 c1 F1 r c F] y by blast
qed

end

text \<open>C39: Well-formedness of the order store: from an empty store, however the parts of calls interleave, each
  stored order is under its own identifier, has a user and a market with valid identifiers, is
  pending and has filled quantity 0; and it is the same order in every later state.\<close>

theorem stored_orders_typed:
  assumes "(create_step parses memory_orders gm_get client)\<^sup>*\<^sup>* ([], c0, {#}) (r, c, F)"
    and "(create_step parses memory_orders gm_get client)\<^sup>*\<^sup>* (r, c, F) (r', c', F')"
    and "gm_get r i = Some ord"
  shows "order_typed parses i ord \<and> gm_get r' i = Some ord"
proof -
  have "memory_order_repo.typed_state parses [] {#}"
    by (simp add: memory_order_repo.typed_state_def order_store_ok_Nil)
  then have r: "memory_order_repo.typed_state parses r F" using memory_order_repo.run_typed[OF assms(1)] by blast
  then show ?thesis using memory_order_repo.run_typed[OF assms(2) r] assms(3) by (simp add: memory_order_repo.typed_state_def)
qed

definition wit_typed_env :: create_env where
  "wit_typed_env = \<lparr>ce_poll = None, ce_count = None, ce_seed = 0, ce_check = background, ce_save = None, ce_orderID = ''o''\<rparr>"

definition wit_typed_command :: create_command where
  "wit_typed_command = \<lparr>cmd_OrderID = '''', cmd_UserID = ''u'', cmd_MarketID = ''m'', cmd_Type = ORDER_TYPE_BUY, cmd_Price = ''1'', cmd_Quantity = ''1''\<rparr>"

theorem stored_orders_typed_witness:
  "order_typed (\<lambda>s. True) ''o'' (new_order wit_typed_env wit_typed_command :: unit order_pb)"
proof -
  let ?o = "new_order wit_typed_env wit_typed_command :: unit order_pb"
  have run: "order_CreateOrder (\<lambda>s. True) memory_orders (None :: unit market_client option) wit_typed_env wit_typed_command ([], ()) =
      (([(''o'', ?o)], ()), Inr ?o)"
    by (simp add: order_CreateOrder_def create_begin_def uid_Validate_def IsValid_def order_CountByUser_def MaxOpenOrdersPerUser_def
        create_check_def create_save_def order_Save_def wit_typed_env_def wit_typed_command_def new_order_def gm_put_def Let_def)
  have "(create_step (\<lambda>s. True) memory_orders gm_get (None :: unit market_client option))\<^sup>*\<^sup>* ([], (), {#}) ([(''o'', ?o)], (), {#})"
    by (rule CreateOrder_steps[OF run]) simp
  from stored_orders_typed[OF this rtranclp.rtrancl_refl, of "''o''" ?o] show ?thesis by (simp add: gm_get_def)
qed

end
