(* ===== verification/Postgres_Repo.thy ===== *)
theory Postgres_Repo
  imports Complex_Main Order_Runs
begin

text \<open>
  The PostgreSQL repository of the order service
  (\<open>order-service/internal/adapters/postgres/repository.go\<close>): its SQL statements over two tables, in
  the transaction that stores an order. The input and output formats of the database's types are parameters;
  what may fail outside the statements (connections, the commit) is an argument of each operation.
\<close>

section \<open>Numbers of the database\<close>

text \<open>A \<open>NUMERIC\<close> has three special values; PostgreSQL orders it totally, NaN last.\<close>

datatype numeric = NegInf | Num rat | PosInf | NaN

fun numeric_le :: "numeric \<Rightarrow> numeric \<Rightarrow> bool" where
  "numeric_le NegInf y = True"
| "numeric_le (Num a) y = (case y of NegInf \<Rightarrow> False | Num b \<Rightarrow> a \<le> b | _ \<Rightarrow> True)"
| "numeric_le PosInf y = (y = PosInf \<or> y = NaN)"
| "numeric_le NaN y = (y = NaN)"

instantiation numeric :: linorder
begin

definition less_eq_numeric :: "numeric \<Rightarrow> numeric \<Rightarrow> bool" where
  "less_eq_numeric = numeric_le"

definition less_numeric :: "numeric \<Rightarrow> numeric \<Rightarrow> bool" where
  "less_numeric x y \<longleftrightarrow> numeric_le x y \<and> \<not> numeric_le y x"

instance
proof
  fix x y z :: numeric
  show "(x < y) = (x \<le> y \<and> \<not> y \<le> x)" by (simp add: less_eq_numeric_def less_numeric_def)
  show "x \<le> x" by (cases x) (simp_all add: less_eq_numeric_def)
  show "x \<le> y \<Longrightarrow> y \<le> z \<Longrightarrow> x \<le> z" by (cases x; cases y; cases z) (auto simp: less_eq_numeric_def)
  show "x \<le> y \<Longrightarrow> y \<le> x \<Longrightarrow> x = y" by (cases x; cases y) (auto simp: less_eq_numeric_def)
  show "x \<le> y \<or> y \<le> x" by (cases x; cases y) (auto simp: less_eq_numeric_def)
qed

end

fun numeric_sub :: "numeric \<Rightarrow> numeric \<Rightarrow> numeric" where
  "numeric_sub (Num a) (Num b) = Num (a - b)"
| "numeric_sub NaN y = NaN"
| "numeric_sub x NaN = NaN"
| "numeric_sub PosInf y = (if y = PosInf then NaN else PosInf)"
| "numeric_sub NegInf y = (if y = NegInf then NaN else NegInf)"
| "numeric_sub (Num a) PosInf = NegInf"
| "numeric_sub (Num a) NegInf = PosInf"

lemma Num_le [simp]: "Num a \<le> Num b \<longleftrightarrow> a \<le> b"
  by (simp add: less_eq_numeric_def)

lemma Num_less [simp]: "Num a < Num b \<longleftrightarrow> a < b"
  by (auto simp: less_numeric_def)

section \<open>Tables\<close>

text \<open>
  Reading a number and a UUID (in canonical form), the value a \<open>NUMERIC(20, 8)\<close> column holds for a
  number, the value the balance column holds for one, the resolution of a timestamp, and the text that
  the driver gives for a number: \<open>None\<close> or an error where the database or the driver refuses.
\<close>

record sql =
  sq_numeric :: "string \<Rightarrow> numeric option"
  sq_uuid :: "string \<Rightarrow> string option"
  sq_money :: "numeric \<Rightarrow> numeric option"
  sq_balance :: "numeric \<Rightarrow> numeric option"
  sq_stamp :: "time \<Rightarrow> time"
  sq_text :: "numeric \<Rightarrow> string result"

record order_row =
  row_order_id :: string
  row_user_id :: string
  row_market_id :: string
  row_order_type :: int
  row_status :: int
  row_price :: numeric
  row_quantity :: numeric
  row_filled_quantity :: numeric
  row_created_at :: time
  row_updated_at :: time

text \<open>The migrations of the repository create no table of users: \<open>None\<close>.\<close>

record database =
  db_users :: "(string, numeric) gomap option"
  db_orders :: "order_row list"

definition sql_error :: "string \<Rightarrow> 'a result" where
  "sql_error m = Inl (LibErr m)"

text \<open>\<open>UPDATE users SET balance = balance - $1 WHERE user_id = $2 AND balance >= $1\<close>, with the
  number of rows.\<close>

definition sql_debit :: "sql \<Rightarrow> string \<Rightarrow> string \<Rightarrow> database \<Rightarrow> (database \<times> nat) result" where
  "sql_debit Q price userID db =
     (case db_users db of None \<Rightarrow> sql_error ''relation users does not exist'' | Some users \<Rightarrow>
      (case (sq_numeric Q price, sq_uuid Q userID) of
         (Some p, Some u) \<Rightarrow>
           (case gm_get users u of
              None \<Rightarrow> Inr (db, 0)
            | Some b \<Rightarrow>
                if p \<le> b
                then case sq_balance Q (numeric_sub b p) of
                    None \<Rightarrow> sql_error ''numeric field overflow''
                  | Some b' \<Rightarrow> Inr (db\<lparr>db_users := Some (gm_put u b' users)\<rparr>, 1)
                else Inr (db, 0))
       | _ \<Rightarrow> sql_error ''invalid input syntax''))"

text \<open>\<open>SMALLINT\<close> columns.\<close>

definition smallint :: "int \<Rightarrow> int option" where
  "smallint i = (if - 32768 \<le> i \<and> i \<le> 32767 then Some i else None)"

definition sql_money :: "sql \<Rightarrow> string \<Rightarrow> numeric option" where
  "sql_money Q s = Option.bind (sq_numeric Q s) (sq_money Q)"

definition sql_row :: "sql \<Rightarrow> 'ts order_pb \<Rightarrow> time \<Rightarrow> time \<Rightarrow> order_row option" where
  "sql_row Q ord createdAt updatedAt =
     (case (sq_uuid Q (o_OrderId ord), sq_uuid Q (o_UserId ord), smallint (order_type_number (o_Type ord)),
            smallint (order_status_number (o_Status ord))) of
        (Some i, Some u, Some ty, Some st) \<Rightarrow>
          (case (sql_money Q (o_Price ord), sql_money Q (o_Quantity ord), sql_money Q (o_FilledQuantity ord)) of
             (Some p, Some q, Some f) \<Rightarrow>
               Some \<lparr>row_order_id = i, row_user_id = u, row_market_id = o_MarketId ord, row_order_type = ty,
                 row_status = st, row_price = p, row_quantity = q, row_filled_quantity = f,
                 row_created_at = sq_stamp Q createdAt, row_updated_at = sq_stamp Q updatedAt\<rparr>
           | _ \<Rightarrow> None)
      | _ \<Rightarrow> None)"

text \<open>\<open>INSERT INTO orders\<close>: \<open>order_id\<close> is the primary key.\<close>

definition sql_insert :: "sql \<Rightarrow> 'ts order_pb \<Rightarrow> time \<Rightarrow> time \<Rightarrow> database \<Rightarrow> database result" where
  "sql_insert Q ord createdAt updatedAt db =
     (case sql_row Q ord createdAt updatedAt of
        None \<Rightarrow> sql_error ''invalid value''
      | Some row \<Rightarrow>
          if row_order_id row \<in> set (map row_order_id (db_orders db)) then sql_error ''duplicate key value''
          else Inr (db\<lparr>db_orders := db_orders db @ [row]\<rparr>))"

section \<open>The repository\<close>

text \<open>A failed commit may have taken effect: the flag of \<open>pf_commit\<close>. \<open>pf_rows\<close>: after so many
  rows the connection of a query fails.\<close>

record pg_faults =
  pf_begin :: "err option"
  pf_update :: "err option"
  pf_insert :: "err option"
  pf_commit :: "(err \<times> bool) option"
  pf_query :: "err option"
  pf_rows :: "nat option"
  pf_now1 :: time
  pf_now2 :: time

definition no_faults :: "time \<Rightarrow> time \<Rightarrow> pg_faults" where
  "no_faults t1 t2 = \<lparr>pf_begin = None, pf_update = None, pf_insert = None, pf_commit = None, pf_query = None,
     pf_rows = None, pf_now1 = t1, pf_now2 = t2\<rparr>"

definition faulty :: "err option \<Rightarrow> 'a result \<Rightarrow> 'a result" where
  "faulty f r = (case f of Some e \<Rightarrow> Inl e | None \<Rightarrow> r)"

text \<open>Every return before the commit rolls the transaction back.\<close>

definition pg_Save ::
  "sql \<Rightarrow> ('ts \<Rightarrow> time) \<Rightarrow> pg_faults \<Rightarrow> poll \<Rightarrow> 'ts order_pb \<Rightarrow> database \<Rightarrow> database \<times> unit result"
where
  "pg_Save Q astime F p ord db =
     (case p of Some e \<Rightarrow> (db, Inl (CtxErr e)) | None \<Rightarrow>
      (case pf_begin F of Some e \<Rightarrow> (db, Inl (Wrapf ''begin tx'' e)) | None \<Rightarrow>
       (case faulty (pf_update F) (sql_debit Q (o_Price ord) (o_UserId ord) db) of
          Inl e \<Rightarrow> (db, Inl (Wrapf ''update balance'' e))
        | Inr (tx, rowsAffected) \<Rightarrow>
            if rowsAffected = 0 then (db, Inl (Errorf ''insufficient balance or user not found''))
            else
              let createdAt = (case o_CreatedAt ord of Some t \<Rightarrow> astime t | None \<Rightarrow> pf_now1 F);
                  updatedAt = (case o_UpdatedAt ord of Some t \<Rightarrow> astime t | None \<Rightarrow> pf_now2 F)
              in case faulty (pf_insert F) (sql_insert Q ord createdAt updatedAt tx) of
                Inl e \<Rightarrow> (db, Inl (Wrapf ''insert order'' e))
              | Inr tx' \<Rightarrow>
                  (case pf_commit F of
                     None \<Rightarrow> (tx', Inr ())
                   | Some (e, effect) \<Rightarrow> (if effect then tx' else db, Inl e)))))"

definition pg_scan :: "sql \<Rightarrow> (time \<Rightarrow> 'ts) \<Rightarrow> order_row \<Rightarrow> 'ts order_pb result" where
  "pg_scan Q newts row =
     (case sq_text Q (row_price row) of Inl e \<Rightarrow> Inl e | Inr price \<Rightarrow>
      (case sq_text Q (row_quantity row) of Inl e \<Rightarrow> Inl e | Inr quantity \<Rightarrow>
       (case sq_text Q (row_filled_quantity row) of Inl e \<Rightarrow> Inl e | Inr filled \<Rightarrow>
         Inr \<lparr>o_OrderId = row_order_id row, o_UserId = row_user_id row, o_MarketId = row_market_id row,
           o_Type = order_type_of (row_order_type row), o_Status = order_status_of (row_status row),
           o_Price = price, o_Quantity = quantity, o_FilledQuantity = filled,
           o_CreatedAt = Some (newts (row_created_at row)), o_UpdatedAt = Some (newts (row_updated_at row))\<rparr>)))"

text \<open>\<open>GetByID\<close>: no row is a nil order with a nil error.\<close>

definition pg_GetByID ::
  "sql \<Rightarrow> (time \<Rightarrow> 'ts) \<Rightarrow> pg_faults \<Rightarrow> poll \<Rightarrow> string \<Rightarrow> database \<Rightarrow> 'ts order_pb option result"
where
  "pg_GetByID Q newts F p orderID db =
     polled p
       (case faulty (pf_query F)
          (case sq_uuid Q orderID of
             None \<Rightarrow> sql_error ''invalid input syntax''
           | Some i \<Rightarrow>
               (case filter (\<lambda>row. row_order_id row = i) (db_orders db) of
                  [] \<Rightarrow> Inr None
                | row # _ \<Rightarrow> map_sum id Some (pg_scan Q newts row))) of
          Inl e \<Rightarrow> Inl (Wrapf ''get order'' e)
        | Inr answer \<Rightarrow> Inr answer)"

fun scan_rows :: "sql \<Rightarrow> (time \<Rightarrow> 'ts) \<Rightarrow> order_row list \<Rightarrow> 'ts order_pb list result" where
  "scan_rows Q newts [] = Inr []"
| "scan_rows Q newts (row # rows) =
     (case pg_scan Q newts row of
        Inl e \<Rightarrow> Inl e
      | Inr ord \<Rightarrow> (case scan_rows Q newts rows of Inl e \<Rightarrow> Inl e | Inr orders \<Rightarrow> Inr (ord # orders)))"

text \<open>\<open>ORDER BY created_at DESC\<close>: rows of one time come in any order.\<close>

definition sql_by_user :: "nat \<Rightarrow> string \<Rightarrow> database \<Rightarrow> order_row list" where
  "sql_by_user seed u db =
     sort_key (\<lambda>row. - row_created_at row) (range_order seed (filter (\<lambda>row. row_user_id row = u) (db_orders db)))"

text \<open>\<open>rows.Next()\<close> is false at the last row and when the connection fails: \<open>rows.Err()\<close> is not asked.\<close>

definition pg_ListByUser ::
  "sql \<Rightarrow> (time \<Rightarrow> 'ts) \<Rightarrow> pg_faults \<Rightarrow> poll \<Rightarrow> nat \<Rightarrow> string \<Rightarrow> database \<Rightarrow> 'ts order_pb list result"
where
  "pg_ListByUser Q newts F p seed userID db =
     polled p
       (case faulty (pf_query F)
          (case sq_uuid Q userID of None \<Rightarrow> sql_error ''invalid input syntax'' | Some u \<Rightarrow> Inr (sql_by_user seed u db)) of
          Inl e \<Rightarrow> Inl e
        | Inr rows \<Rightarrow> scan_rows Q newts (case pf_rows F of None \<Rightarrow> rows | Some n \<Rightarrow> take n rows))"

definition pg_CountByUser :: "sql \<Rightarrow> pg_faults \<Rightarrow> poll \<Rightarrow> nat \<Rightarrow> string \<Rightarrow> database \<Rightarrow> int result" where
  "pg_CountByUser Q F p seed userID db =
     polled p (faulty (pf_query F)
       (case sq_uuid Q userID of
          None \<Rightarrow> sql_error ''invalid input syntax''
        | Some u \<Rightarrow> Inr (int (length (filter (\<lambda>row. row_user_id row = u) (db_orders db))))))"

definition pg_orders :: "sql \<Rightarrow> ('ts \<Rightarrow> time) \<Rightarrow> (time \<Rightarrow> 'ts) \<Rightarrow> pg_faults \<Rightarrow> (database, 'ts) order_ops" where
  "pg_orders Q astime newts F =
     \<lparr>op_Save = pg_Save Q astime F, op_GetByID = pg_GetByID Q newts F, op_ListByUser = pg_ListByUser Q newts F,
      op_CountByUser = pg_CountByUser Q F\<rparr>"

lemma pg_orders_simps [simp]:
  "op_Save (pg_orders Q astime newts F) = pg_Save Q astime F"
  "op_GetByID (pg_orders Q astime newts F) = pg_GetByID Q newts F"
  "op_ListByUser (pg_orders Q astime newts F) = pg_ListByUser Q newts F"
  "op_CountByUser (pg_orders Q astime newts F) = pg_CountByUser Q F"
  by (simp_all add: pg_orders_def)

section \<open>What storing an order does\<close>

definition pg_wf :: "database \<Rightarrow> bool" where
  "pg_wf db \<longleftrightarrow> distinct (map row_order_id (db_orders db))"

text \<open>The order is stored and its price has been taken from the user's balance: both or neither.\<close>

definition paid_for :: "sql \<Rightarrow> 'ts order_pb \<Rightarrow> database \<Rightarrow> database \<Rightarrow> bool" where
  "paid_for Q ord db db' \<longleftrightarrow>
     (\<exists>users u b price b' row.
        db_users db = Some users \<and> sq_uuid Q (o_UserId ord) = Some u \<and> gm_get users u = Some b \<and>
        sq_numeric Q (o_Price ord) = Some price \<and> price \<le> b \<and> sq_balance Q (numeric_sub b price) = Some b' \<and>
        sq_uuid Q (o_OrderId ord) = Some (row_order_id row) \<and> row_user_id row = u \<and>
        row_order_id row \<notin> set (map row_order_id (db_orders db)) \<and>
        db' = db\<lparr>db_users := Some (gm_put u b' users), db_orders := db_orders db @ [row]\<rparr>)"

lemma sql_debit_Inr:
  assumes "sql_debit Q price userID db = Inr (tx, n)"
  obtains (nothing) "tx = db" "n = 0"
  | (debited) users u b p b' where "n = 1" "db_users db = Some users" "sq_uuid Q userID = Some u" "gm_get users u = Some b"
      "sq_numeric Q price = Some p" "p \<le> b" "sq_balance Q (numeric_sub b p) = Some b'"
      "tx = db\<lparr>db_users := Some (gm_put u b' users)\<rparr>"
  using assms by (auto simp: sql_debit_def sql_error_def split: option.splits if_splits)

lemma sql_row_Some:
  assumes "sql_row Q ord t1 t2 = Some row"
  shows "sq_uuid Q (o_OrderId ord) = Some (row_order_id row)" and "sq_uuid Q (o_UserId ord) = Some (row_user_id row)"
    and "row_market_id row = o_MarketId ord"
    and "row_order_type row = order_type_number (o_Type ord)" and "row_status row = order_status_number (o_Status ord)"
    and "sql_money Q (o_Price ord) = Some (row_price row)" and "sql_money Q (o_Quantity ord) = Some (row_quantity row)"
    and "sql_money Q (o_FilledQuantity ord) = Some (row_filled_quantity row)"
    and "row_created_at row = sq_stamp Q t1" and "row_updated_at row = sq_stamp Q t2"
  using assms by (auto simp: sql_row_def smallint_def split: option.splits if_splits)

lemma sql_insert_Inr:
  assumes "sql_insert Q ord t1 t2 db = Inr db'"
  obtains row where "sql_row Q ord t1 t2 = Some row" "row_order_id row \<notin> set (map row_order_id (db_orders db))"
    "db' = db\<lparr>db_orders := db_orders db @ [row]\<rparr>"
  using assms by (auto simp: sql_insert_def sql_error_def split: option.splits if_splits)

lemma faulty_Inr: "faulty f r = Inr x \<longleftrightarrow> f = None \<and> r = Inr x"
  by (simp add: faulty_def split: option.split)

text \<open>The two outcomes of \<open>Save\<close>, the second with the row that was stored.\<close>

lemma pg_Save_cases:
  assumes "pg_Save Q astime F p ord db = (db', res)"
  obtains (kept) e where "db' = db" "res = Inl e"
  | (stored) t1 t2 row where "sql_row Q ord t1 t2 = Some row" "paid_for Q ord db db'" "db_orders db' = db_orders db @ [row]"
      "t1 = (case o_CreatedAt ord of Some t \<Rightarrow> astime t | None \<Rightarrow> pf_now1 F)"
      "t2 = (case o_UpdatedAt ord of Some t \<Rightarrow> astime t | None \<Rightarrow> pf_now2 F)"
      "pf_commit F = None \<Longrightarrow> res = Inr ()"
proof (cases "\<exists>e. db' = db \<and> res = Inl e")
  case True
  then show ?thesis using kept by blast
next
  case False
  define t1 where "t1 = (case o_CreatedAt ord of Some t \<Rightarrow> astime t | None \<Rightarrow> pf_now1 F)"
  define t2 where "t2 = (case o_UpdatedAt ord of Some t \<Rightarrow> astime t | None \<Rightarrow> pf_now2 F)"
  obtain tx n where tx: "faulty (pf_update F) (sql_debit Q (o_Price ord) (o_UserId ord) db) = Inr (tx, n)" "n \<noteq> 0"
    and p: "p = None" "pf_begin F = None"
    using assms False by (auto simp: pg_Save_def split: option.splits sum.splits if_splits)
  then obtain tx' where tx': "faulty (pf_insert F) (sql_insert Q ord t1 t2 tx) = Inr tx'"
    using assms False by (auto simp: pg_Save_def t1_def t2_def split: sum.splits)
  then have out: "db' = tx'" "pf_commit F = None \<Longrightarrow> res = Inr ()"
    using assms False tx p by (auto simp: pg_Save_def t1_def t2_def split: option.splits if_splits)
  from tx have "sql_debit Q (o_Price ord) (o_UserId ord) db = Inr (tx, n)" by (simp add: faulty_Inr)
  then show ?thesis
  proof (cases rule: sql_debit_Inr)
    case (debited users u b price b')
    from tx' have "sql_insert Q ord t1 t2 tx = Inr tx'" by (simp add: faulty_Inr)
    then obtain row where row: "sql_row Q ord t1 t2 = Some row" "row_order_id row \<notin> set (map row_order_id (db_orders tx))"
      "tx' = tx\<lparr>db_orders := db_orders tx @ [row]\<rparr>" by (rule sql_insert_Inr)
    then have "paid_for Q ord db db'"
      unfolding paid_for_def using debited out(1) sql_row_Some(1,2)[OF row(1)]
      by (intro exI[of _ users] exI[of _ u] exI[of _ b] exI[of _ price] exI[of _ b'] exI[of _ row]) auto
    then show ?thesis using stored row debited out t1_def t2_def by simp
  qed (use tx(2) in simp)
qed

lemma pg_save_wf: "pg_wf db \<Longrightarrow> pg_wf (fst (pg_Save Q astime F p ord db))"
proof -
  assume wf: "pg_wf db"
  obtain db' res where run: "pg_Save Q astime F p ord db = (db', res)" by fastforce
  from run show ?thesis
  proof (cases rule: pg_Save_cases)
    case (stored t1 t2 row)
    then show ?thesis using wf run by (auto simp: paid_for_def pg_wf_def)
  qed (use wf run in simp)
qed

lemma pg_save_paid: "pg_Save Q astime F p ord db = (db', Inr ()) \<Longrightarrow> paid_for Q ord db db'"
  by (elim pg_Save_cases) simp_all

text \<open>C30: storing an order in PostgreSQL takes the price from the balance and stores the order, or
  changes nothing; it does both when it succeeds, and nothing when it fails, unless it is the commit that failed.
  Order identifiers stay unique.\<close>

theorem pg_save_all_or_nothing:
  assumes "pg_Save Q astime F p ord db = (db', res)"
  shows "(db' = db \<or> paid_for Q ord db db') \<and> (res = Inr () \<longrightarrow> paid_for Q ord db db') \<and>
    (pf_commit F = None \<longrightarrow> res \<noteq> Inr () \<longrightarrow> db' = db) \<and> (pg_wf db \<longrightarrow> pg_wf db')"
  using assms
proof (cases rule: pg_Save_cases)
  case (stored t1 t2 row)
  then show ?thesis using assms pg_save_wf[of db Q astime F p ord] by auto
qed auto

section \<open>Balances\<close>

text \<open>A column that holds every number as it is.\<close>

definition plain_balance :: "sql \<Rightarrow> bool" where
  "plain_balance Q \<longleftrightarrow> (\<forall>a. sq_balance Q (Num a) = Some (Num a))"

text \<open>C13: an order that the service creates over PostgreSQL costs its price, whatever its quantity and
  its type: the order is stored for its user, the balance of the user is the old one less the price, which it covered, and the
  other balances stay. No check on the way asks for the sign, so that a negative price is paid out.\<close>

theorem created_order_costs_its_price:
  assumes "order_CreateOrder parses (pg_orders Q astime newts F) client E cmd (db, c) = ((db', c'), Inr ord)"
    and "plain_balance Q" and "sq_numeric Q (cmd_Price cmd) = Some (Num p)" and "sq_uuid Q (cmd_UserID cmd) = Some u"
    and "db_users db = Some users" and "gm_get users u = Some (Num b)"
  shows "\<exists>users'. db_users db' = Some users' \<and> gm_get users' u = Some (Num (b - p)) \<and> p \<le> b \<and>
    (\<forall>v. v \<noteq> u \<longrightarrow> gm_get users' v = gm_get users v) \<and>
    (\<exists>row. db_orders db' = db_orders db @ [row] \<and> sq_uuid Q (o_OrderId ord) = Some (row_order_id row) \<and> row_user_id row = u)"
proof -
  have "pg_Save Q astime F (ce_save E) ord db = (db', Inr ())" and o: "ord = new_order E cmd"
    using assms(1) by (auto simp: order_CreateOrder_def create_save_def Let_def split: option.splits prod.splits sum.splits)
  then have "paid_for Q ord db db'" using pg_save_paid by blast
  then show ?thesis using assms(2-) o by (auto simp: paid_for_def plain_balance_def new_order_def)
qed

text \<open>A database that reads the numbers -5 and 3 and keeps identifiers and numbers as they are.\<close>

definition wit_print :: "numeric \<Rightarrow> string" where
  "wit_print n = (if n = Num (-5) then ''-5'' else if n = Num 3 then ''3'' else if n = Num 0 then ''0'' else ''NaN'')"

definition wit_sql :: sql where
  "wit_sql = \<lparr>sq_numeric = (\<lambda>s. if s = ''-5'' then Some (Num (-5)) else if s = ''3'' then Some (Num 3) else if s = ''0'' then Some (Num 0) else None),
     sq_uuid = Some, sq_money = Some, sq_balance = Some, sq_stamp = (\<lambda>t. t), sq_text = (\<lambda>n. Inr (wit_print n))\<rparr>"

definition wit_create :: create_env where
  "wit_create = \<lparr>ce_poll = None, ce_count = None, ce_seed = 0, ce_check = background, ce_save = None, ce_orderID = ''o''\<rparr>"

definition wit_command :: create_command where
  "wit_command = \<lparr>cmd_OrderID = ''h'', cmd_UserID = ''u'', cmd_MarketID = ''m'', cmd_Type = ORDER_TYPE_BUY,
     cmd_Price = ''-5'', cmd_Quantity = ''3''\<rparr>"

definition wit_db :: database where
  "wit_db = \<lparr>db_users = Some [(''u'', Num 10)], db_orders = []\<rparr>"

lemma wit_create_runs:
  "\<exists>db' ord. order_CreateOrder (\<lambda>i. True) (pg_orders wit_sql id id (no_faults 0 0) :: (database, time) order_ops)
     (None :: unit market_client option) wit_create wit_command (wit_db, ()) = ((db', ()), Inr ord)"
  by (simp add: order_CreateOrder_def create_begin_def create_check_def create_save_def uid_Validate_def IsValid_def pg_CountByUser_def
      pg_Save_def faulty_def no_faults_def sql_debit_def sql_insert_def sql_row_def sql_money_def smallint_def new_order_def
      wit_sql_def wit_create_def wit_command_def wit_db_def MaxOpenOrdersPerUser_def gm_get_def Let_def)

text \<open>An order to buy 3 for the price of -5, with a balance of 10.\<close>

theorem created_order_costs_its_price_witness:
  "\<exists>db' ord users'. order_CreateOrder (\<lambda>i. True) (pg_orders wit_sql id id (no_faults 0 0) :: (database, time) order_ops)
     (None :: unit market_client option) wit_create wit_command (wit_db, ()) = ((db', ()), Inr ord) \<and>
     db_users db' = Some users' \<and> gm_get users' ''u'' = Some (Num 15) \<and> length (db_orders db') = 1"
proof -
  obtain db' ord where run: "order_CreateOrder (\<lambda>i. True) (pg_orders wit_sql id id (no_faults 0 0) :: (database, time) order_ops)
     (None :: unit market_client option) wit_create wit_command (wit_db, ()) = ((db', ()), Inr ord)" using wit_create_runs by blast
  have "plain_balance wit_sql" "sq_numeric wit_sql (cmd_Price wit_command) = Some (Num (- 5))" "sq_uuid wit_sql (cmd_UserID wit_command) = Some ''u''"
    "db_users wit_db = Some [(''u'', Num 10)]" "gm_get [(''u'', Num 10)] ''u'' = Some (Num 10)"
    by (simp_all add: plain_balance_def wit_sql_def wit_command_def wit_db_def gm_get_def)
  from created_order_costs_its_price[OF run this] run show ?thesis by (auto simp: wit_db_def)
qed

section \<open>The limit on orders\<close>

definition sql_owned :: "string \<Rightarrow> database \<Rightarrow> string set" where
  "sql_owned u db = row_order_id ` {row \<in> set (db_orders db). row_user_id row = u}"

definition sql_canon :: "sql \<Rightarrow> string \<Rightarrow> string" where
  "sql_canon Q s = (case sq_uuid Q s of Some u \<Rightarrow> u | None \<Rightarrow> s)"

lemma finite_sql_owned: "finite (sql_owned u db)"
  by (simp add: sql_owned_def)

lemma card_sql_owned:
  assumes "pg_wf db"
  shows "card (sql_owned u db) = length (filter (\<lambda>row. row_user_id row = u) (db_orders db))"
proof -
  let ?rows = "filter (\<lambda>row. row_user_id row = u) (db_orders db)"
  have "sql_owned u db = set (map row_order_id ?rows)" by (auto simp: sql_owned_def)
  moreover have "distinct (map row_order_id ?rows)" using assms by (simp add: pg_wf_def distinct_map_filter)
  ultimately show ?thesis by (metis distinct_card length_map)
qed

lemma sql_owned_Save:
  "sql_owned u (fst (pg_Save Q astime F p ord db)) \<subseteq>
     (if sql_canon Q (o_UserId ord) = u then insert (sql_canon Q (o_OrderId ord)) (sql_owned u db) else sql_owned u db)"
proof -
  obtain db' res where run: "pg_Save Q astime F p ord db = (db', res)" by fastforce
  from run show ?thesis
  proof (cases rule: pg_Save_cases)
    case (stored t1 t2 row)
    then show ?thesis using sql_row_Some(1,2)[OF stored(1)] run
      by (auto simp: sql_owned_def sql_canon_def)
  qed (use run in auto)
qed

interpretation pg_counter: order_counter "pg_orders Q astime newts F" "sql_canon Q" sql_owned pg_wf
  for Q astime newts F
proof (unfold_locales, goal_cases)
  case (1 r p ord)
  then show ?case by (metis pg_orders_simps(1) pg_save_wf)
next
  case (2 r u p ord)
  then show ?case using sql_owned_Save[of u Q astime F p ord r] by simp
next
  case (3 r p seed uid n)
  then obtain v where "sq_uuid Q uid = Some v" "n = int (length (filter (\<lambda>row. row_user_id row = v) (db_orders r)))"
    by (auto simp: pg_CountByUser_def faulty_Inr sql_error_def split: option.splits)
  then show ?case using card_sql_owned[OF 3(1), of v] by (simp add: sql_canon_def finite_sql_owned)
qed

text \<open>Over PostgreSQL too, under any interleaving a user has at most 499 orders and the calls in
  flight, where identifiers that the database reads as the same UUID are one user.\<close>

lemma pg_order_limit_bound:
  assumes "(\<lambda>x y. create_step parses (pg_orders Q astime newts F) orders_of client x y \<and>
      in_flight_of (sql_canon Q) u (snd (snd y)) \<le> k)\<^sup>*\<^sup>* (db0, c0, {#}) (db, c, Fl)"
    and "db_orders db0 = []"
  shows "pg_wf db \<and> card (sql_owned u db) + in_flight_of (sql_canon Q) u Fl \<le> 499 + k"
proof -
  have "pg_wf db0" "sql_owned u db0 = {}" using assms(2) by (simp_all add: pg_wf_def sql_owned_def)
  then show ?thesis using pg_counter.load_bound[OF assms(1)] by simp
qed

lemma pg_order_limit_bound_witness:
  "card (sql_owned ''u'' wit_db) + in_flight_of (sql_canon wit_sql) ''u'' {#(Counted, wit_create, wit_command)#} \<le> 500"
proof -
  let ?ops = "pg_orders wit_sql id id (no_faults 0 0) :: (database, time) order_ops"
  let ?step = "create_step (\<lambda>i. True) ?ops (\<lambda>_ _. None) (None :: unit market_client option)"
  have "create_begin (\<lambda>i. True) ?ops wit_create wit_command wit_db = None"
    by (simp add: create_begin_def uid_Validate_def IsValid_def pg_CountByUser_def faulty_def no_faults_def MaxOpenOrdersPerUser_def
        wit_sql_def wit_create_def wit_command_def wit_db_def)
  then have "?step (wit_db, (), {#}) (wit_db, (), {#(Counted, wit_create, wit_command)#})" by (rule begun)
  then have "(\<lambda>x y. ?step x y \<and> in_flight_of (sql_canon wit_sql) ''u'' (snd (snd y)) \<le> 1)\<^sup>*\<^sup>*
      (wit_db, (), {#}) (wit_db, (), {#(Counted, wit_create, wit_command)#})" by (intro r_into_rtranclp) simp
  from pg_order_limit_bound[OF this] show ?thesis by (simp add: wit_db_def)
qed

section \<open>Reading\<close>

text \<open>A database whose numbers the driver can print.\<close>

definition printable :: "sql \<Rightarrow> (numeric \<Rightarrow> string) \<Rightarrow> bool" where
  "printable Q str \<longleftrightarrow> (\<forall>n. sq_text Q n = Inr (str n))"

lemma pg_scan_printable:
  "printable Q str \<Longrightarrow> pg_scan Q newts row = Inr
     \<lparr>o_OrderId = row_order_id row, o_UserId = row_user_id row, o_MarketId = row_market_id row,
      o_Type = order_type_of (row_order_type row), o_Status = order_status_of (row_status row),
      o_Price = str (row_price row), o_Quantity = str (row_quantity row), o_FilledQuantity = str (row_filled_quantity row),
      o_CreatedAt = Some (newts (row_created_at row)), o_UpdatedAt = Some (newts (row_updated_at row))\<rparr>"
  by (simp add: pg_scan_def printable_def)

lemma scan_rows_printable:
  "printable Q str \<Longrightarrow> \<exists>xs. scan_rows Q newts rows = Inr xs \<and> map o_OrderId xs = map row_order_id rows \<and>
     map o_CreatedAt xs = map (\<lambda>r. Some (newts (row_created_at r))) rows"
  by (induction rows) (auto simp: pg_scan_printable)

lemma scan_rows_all:
  "printable Q str \<Longrightarrow> \<exists>xs. scan_rows Q newts rows = Inr xs \<and> map Inr xs = map (pg_scan Q newts) rows"
  by (induction rows) (auto simp: pg_scan_printable)

text \<open>C34: an order that was stored is read back under any spelling of its identifier, and it is in the list of its user,
  with each of its values: the identifiers as UUIDs, the same market, type and status, its price, quantity and filled
  quantity as their columns hold them, and the times it was created and updated, those of the call when it had none.\<close>

theorem pg_saved_order_reads_back:
  assumes "pg_Save Q astime F p ord db = (db', Inr ())" and "pg_wf db" and "printable Q str"
    and "sq_uuid Q i = sq_uuid Q (o_OrderId ord)" and "sq_uuid Q user = sq_uuid Q (o_UserId ord)"
    and "pf_query G = None" and "pf_rows G = None"
  shows "\<exists>got orders. pg_GetByID Q newts G None i db' = Inr (Some got) \<and>
    pg_ListByUser Q newts G None seed user db' = Inr orders \<and> got \<in> set orders \<and>
    sq_uuid Q (o_OrderId ord) = Some (o_OrderId got) \<and> sq_uuid Q (o_UserId ord) = Some (o_UserId got) \<and>
    o_MarketId got = o_MarketId ord \<and> o_Type got = o_Type ord \<and> o_Status got = o_Status ord \<and>
    map_option str (sql_money Q (o_Price ord)) = Some (o_Price got) \<and>
    map_option str (sql_money Q (o_Quantity ord)) = Some (o_Quantity got) \<and>
    map_option str (sql_money Q (o_FilledQuantity ord)) = Some (o_FilledQuantity got) \<and>
    o_CreatedAt got = Some (newts (sq_stamp Q (case o_CreatedAt ord of Some t \<Rightarrow> astime t | None \<Rightarrow> pf_now1 F))) \<and>
    o_UpdatedAt got = Some (newts (sq_stamp Q (case o_UpdatedAt ord of Some t \<Rightarrow> astime t | None \<Rightarrow> pf_now2 F)))"
  using assms(1)
proof (cases rule: pg_Save_cases)
  case (stored t1 t2 row)
  note row = sql_row_Some[OF stored(1)]
  have new: "row_order_id row \<notin> set (map row_order_id (db_orders db))"
  proof -
    have "pg_wf db'" using pg_save_wf[OF assms(2), of Q astime F p ord] assms(1) by simp
    then show ?thesis using stored(3) by (simp add: pg_wf_def)
  qed
  then have only: "filter (\<lambda>r. row_order_id r = row_order_id row) (db_orders db') = [row]"
    using stored(3) by (simp add: filter_empty_conv) (metis image_eqI)
  obtain got where got: "pg_scan Q newts row = Inr got" using pg_scan_printable[OF assms(3)] by blast
  have get: "pg_GetByID Q newts G None i db' = Inr (Some got)"
    using row(1) only got assms(4,6) by (simp add: pg_GetByID_def faulty_def)
  obtain orders where orders: "scan_rows Q newts (sql_by_user seed (row_user_id row) db') = Inr orders"
      "map Inr orders = map (pg_scan Q newts) (sql_by_user seed (row_user_id row) db')"
    using scan_rows_all[OF assms(3)] by blast
  have list: "pg_ListByUser Q newts G None seed user db' = Inr orders"
    using row(2) orders(1) assms(5-7) by (simp add: pg_ListByUser_def faulty_def)
  have "mset (sql_by_user seed (row_user_id row) db') = mset (filter (\<lambda>r. row_user_id r = row_user_id row) (db_orders db'))"
    by (simp add: sql_by_user_def)
  from mset_eq_setD[OF this] have "row \<in> set (sql_by_user seed (row_user_id row) db')" using stored(3) by simp
  then have "Inr got \<in> set (map Inr orders :: 'b order_pb result list)" unfolding orders(2) using got by force
  then have mem: "got \<in> set orders" by auto
  show ?thesis
    by (rule exI[of _ got], rule exI[of _ orders]) (use get list mem got row stored(4,5) assms(3) in \<open>auto simp: pg_scan_printable\<close>)
qed simp

text \<open>An order to buy 3 for -5 that is created at 7 and updated at 8.\<close>

theorem pg_saved_order_reads_back_witness:
  "\<exists>got orders. pg_GetByID wit_sql id (no_faults 0 0) None ''o''
      (fst (pg_Save wit_sql id (no_faults 7 8) None (new_order wit_create wit_command) wit_db)) = Inr (Some got) \<and>
    pg_ListByUser wit_sql id (no_faults 0 0) None 0 ''u''
      (fst (pg_Save wit_sql id (no_faults 7 8) None (new_order wit_create wit_command) wit_db)) = Inr orders \<and> got \<in> set orders \<and>
    o_Status got = ORDER_STATUS_PENDING \<and> o_Price got = ''-5'' \<and> o_Quantity got = ''3'' \<and> o_FilledQuantity got = ''0'' \<and>
    o_CreatedAt got = Some 7 \<and> o_UpdatedAt got = Some 8"
proof -
  let ?o = "new_order wit_create wit_command :: time order_pb"
  let ?db = "fst (pg_Save wit_sql id (no_faults 7 8) None ?o wit_db)"
  have save: "pg_Save wit_sql id (no_faults 7 8) None ?o wit_db = (?db, Inr ())"
    by (simp add: pg_Save_def faulty_def no_faults_def sql_debit_def sql_insert_def sql_row_def sql_money_def smallint_def new_order_def
      wit_sql_def wit_create_def wit_command_def wit_db_def gm_get_def Let_def)
  have rest: "pg_wf wit_db" "printable wit_sql wit_print" "sq_uuid wit_sql ''o'' = sq_uuid wit_sql (o_OrderId ?o)"
    "sq_uuid wit_sql ''u'' = sq_uuid wit_sql (o_UserId ?o)" "pf_query (no_faults 0 0) = None" "pf_rows (no_faults 0 0) = None"
    by (simp_all add: pg_wf_def wit_db_def printable_def wit_sql_def no_faults_def wit_create_def wit_command_def new_order_def)
  note all = pg_saved_order_reads_back[OF save rest, of id 0]
  have money: "map_option wit_print (sql_money wit_sql (o_Price ?o)) = Some ''-5''"
    "map_option wit_print (sql_money wit_sql (o_Quantity ?o)) = Some ''3''"
    "map_option wit_print (sql_money wit_sql (o_FilledQuantity ?o)) = Some ''0''"
    by (simp_all add: sql_money_def wit_sql_def wit_print_def wit_command_def new_order_def)
  from all obtain got orders where
    got: "pg_GetByID wit_sql id (no_faults 0 0) None ''o'' ?db = Inr (Some got)"
      "pg_ListByUser wit_sql id (no_faults 0 0) None 0 ''u'' ?db = Inr orders" "got \<in> set orders"
    and vals: "o_Status got = o_Status ?o" "Some ''-5'' = Some (o_Price got)" "Some ''3'' = Some (o_Quantity got)"
      "Some ''0'' = Some (o_FilledQuantity got)"
      "o_CreatedAt got = Some (id (sq_stamp wit_sql (case o_CreatedAt ?o of Some t \<Rightarrow> id t | None \<Rightarrow> pf_now1 (no_faults 7 8))))"
      "o_UpdatedAt got = Some (id (sq_stamp wit_sql (case o_UpdatedAt ?o of Some t \<Rightarrow> id t | None \<Rightarrow> pf_now2 (no_faults 7 8))))"
    unfolding money by blast
  show ?thesis
    by (rule exI[of _ got], rule exI[of _ orders]) (use got vals in \<open>simp add: new_order_def wit_sql_def no_faults_def\<close>)
qed

text \<open>The list of a user's orders comes newest first and holds each order once, and a connection that
  fails after some rows gives a shorter list as a success.\<close>

lemma pg_list_newest_first:
  assumes "pg_wf db" and "printable Q str" and "sq_uuid Q userID = Some u" and "pf_query F = None"
  shows "\<exists>xs rows. pg_ListByUser Q newts F None seed userID db = Inr xs \<and>
    mset rows = mset (filter (\<lambda>row. row_user_id row = u) (db_orders db)) \<and>
    sorted_wrt (\<lambda>r s. row_created_at r \<ge> row_created_at s) rows \<and>
    map o_OrderId xs = map row_order_id (case pf_rows F of None \<Rightarrow> rows | Some n \<Rightarrow> take n rows) \<and>
    distinct (map o_OrderId xs) \<and> set (map o_OrderId xs) \<subseteq> sql_owned u db \<and>
    (pf_rows F = None \<longrightarrow> set (map o_OrderId xs) = sql_owned u db)"
proof -
  let ?mine = "filter (\<lambda>row. row_user_id row = u) (db_orders db)"
  let ?rows = "sql_by_user seed u db"
  let ?cut = "case pf_rows F of None \<Rightarrow> ?rows | Some n \<Rightarrow> take n ?rows"
  have ms: "mset ?rows = mset ?mine" by (simp add: sql_by_user_def)
  have sorted: "sorted_wrt (\<lambda>r s. row_created_at r \<ge> row_created_at s) ?rows"
    using sorted_sort_key[of "\<lambda>row. - row_created_at row" "range_order seed ?mine"] by (simp add: sql_by_user_def sorted_map)
  have set: "set (map row_order_id ?rows) = sql_owned u db"
    using mset_eq_setD[OF ms] by (auto simp: sql_owned_def)
  have "distinct (map row_order_id ?mine)" using assms(1) by (simp add: pg_wf_def distinct_map_filter)
  then have dist: "distinct (map row_order_id ?rows)" using ms by (metis mset_eq_imp_distinct_iff mset_map)
  obtain xs where xs: "scan_rows Q newts ?cut = Inr xs" "map o_OrderId xs = map row_order_id ?cut"
    using scan_rows_printable[OF assms(2)] by blast
  have "pg_ListByUser Q newts F None seed userID db = Inr xs"
    using xs(1) assms(3,4) by (simp add: pg_ListByUser_def faulty_def)
  moreover have "distinct (map row_order_id ?cut)" using dist by (auto simp: take_map[symmetric] split: option.split)
  moreover have "set (map row_order_id ?cut) \<subseteq> sql_owned u db"
    using set by (auto dest: in_set_takeD split: option.split)
  moreover have "pf_rows F = None \<longrightarrow> set (map row_order_id ?cut) = sql_owned u db" using set by simp
  ultimately show ?thesis using ms sorted xs(2) by metis
qed

definition wit_row :: "string \<Rightarrow> time \<Rightarrow> order_row" where
  "wit_row i t = \<lparr>row_order_id = i, row_user_id = ''u'', row_market_id = ''m'', row_order_type = 1, row_status = 2,
     row_price = Num 1, row_quantity = Num 1, row_filled_quantity = Num 0, row_created_at = t, row_updated_at = t\<rparr>"

lemma pg_list_newest_first_witness:
  "\<exists>xs. pg_ListByUser wit_sql id ((no_faults 0 0)\<lparr>pf_rows := Some 1\<rparr>) None 0 ''u''
      \<lparr>db_users = None, db_orders = [wit_row ''o1'' 1, wit_row ''o2'' 2]\<rparr> = Inr xs \<and> length xs = 1"
proof -
  let ?F = "(no_faults 0 0)\<lparr>pf_rows := Some 1\<rparr>"
  let ?db = "\<lparr>db_users = None, db_orders = [wit_row ''o1'' 1, wit_row ''o2'' 2]\<rparr>"
  have "pg_wf ?db" "printable wit_sql wit_print" "sq_uuid wit_sql ''u'' = Some ''u''" "pf_query ?F = None"
    by (simp_all add: pg_wf_def wit_row_def printable_def wit_sql_def no_faults_def)
  from pg_list_newest_first[OF this, of id 0] obtain xs rows where xs: "pg_ListByUser wit_sql id ?F None 0 ''u'' ?db = Inr xs"
    "mset rows = mset (db_orders ?db)" "map o_OrderId xs = map row_order_id (take 1 rows)" by (auto simp: wit_row_def)
  have "length rows = 2" using arg_cong[OF xs(2), of size] by simp
  then have "length xs = 1" using arg_cong[OF xs(3), of length] by simp
  then show ?thesis using xs(1) by blast
qed

theorem pg_save_all_or_nothing_witness:
  "paid_for wit_sql (new_order wit_create wit_command :: time order_pb) wit_db
     (fst (pg_Save wit_sql id (no_faults 7 8) None (new_order wit_create wit_command) wit_db))"
proof -
  let ?o = "new_order wit_create wit_command :: time order_pb"
  have "pg_Save wit_sql id (no_faults 7 8) None ?o wit_db = (fst (pg_Save wit_sql id (no_faults 7 8) None ?o wit_db), Inr ())"
    by (simp add: pg_Save_def faulty_def no_faults_def sql_debit_def sql_insert_def sql_row_def sql_money_def smallint_def new_order_def
      wit_sql_def wit_create_def wit_command_def wit_db_def gm_get_def Let_def)
  from pg_save_all_or_nothing[OF this] show ?thesis by simp
qed

end
