(* ===== verification/Interleaving.thy ===== *)
theory Interleaving
  imports Main
begin

text \<open>
  Calls served at the same time. A call is a program that runs in steps; each step is one operation
  of the shared components, which their own locks make atomic, and steps of different calls
  interleave in any order. \<open>pool_step\<close> is that system: a new call may start at any time, and any
  unfinished one may take its next step. The locale \<open>interleaving\<close> is the proof method: a relation
  \<open>ext\<close> which says how the shared state may develop is both what a program relies on between
  two of its steps and what each of its steps must keep.
\<close>

section \<open>The pool of running calls\<close>

text \<open>\<open>nxt p s\<close> is the next step of the program \<open>p\<close> in the state \<open>s\<close>, \<open>None\<close> when \<open>p\<close> has
  finished; \<open>guard p s\<close> what holds of every step that really happens (that an identifier just drawn
  is unused); \<open>start t\<close> the program of the call \<open>t\<close>.\<close>

inductive pool_step ::
  "('p \<Rightarrow> 's \<Rightarrow> ('s \<times> 'p) option) \<Rightarrow> ('p \<Rightarrow> 's \<Rightarrow> bool) \<Rightarrow> ('t \<Rightarrow> 'p) \<Rightarrow>
   's \<times> ('t \<times> 'p) list \<Rightarrow> 's \<times> ('t \<times> 'p) list \<Rightarrow> bool"
  for nxt guard start where
  spawn: "pool_step nxt guard start (s, ps) (s, ps @ [(t, start t)])"
| advance: "i < length ps \<Longrightarrow> ps ! i = (t, p) \<Longrightarrow> nxt p s = Some (s', p') \<Longrightarrow> guard p s \<Longrightarrow>
    pool_step nxt guard start (s, ps) (s', ps[i := (t, p')])"

abbreviation pool_steps ::
  "('p \<Rightarrow> 's \<Rightarrow> ('s \<times> 'p) option) \<Rightarrow> ('p \<Rightarrow> 's \<Rightarrow> bool) \<Rightarrow> ('t \<Rightarrow> 'p) \<Rightarrow>
   's \<times> ('t \<times> 'p) list \<Rightarrow> 's \<times> ('t \<times> 'p) list \<Rightarrow> bool"
where
  "pool_steps nxt guard start \<equiv> (pool_step nxt guard start)\<^sup>*\<^sup>*"

lemma pool_step_cases:
  assumes "pool_step nxt guard start (s, ps) (s', ps')"
  obtains (spawn) t where "s' = s" and "ps' = ps @ [(t, start t)]"
  | (advance) i t p p' where "i < length ps" and "ps ! i = (t, p)" and "nxt p s = Some (s', p')" and "guard p s"
      and "ps' = ps[i := (t, p')]"
  using assms by cases blast+

text \<open>The calls of a pool keep their places, and later ones are added behind them.\<close>

lemma pool_step_tags:
  assumes "pool_step nxt guard start (s, ps) (s', ps')" and "i < length ps"
  shows "i < length ps' \<and> fst (ps' ! i) = fst (ps ! i)"
  using assms(1)
proof (cases rule: pool_step_cases)
  case (spawn t)
  then show ?thesis using assms(2) by (simp add: nth_append)
next
  case (advance k t p p')
  then show ?thesis using assms(2) by (cases "i = k") simp_all
qed

text \<open>One way to interleave, given as the places of the calls that step, one after the other.\<close>

definition pool_advance ::
  "('p \<Rightarrow> 's \<Rightarrow> ('s \<times> 'p) option) \<Rightarrow> ('p \<Rightarrow> 's \<Rightarrow> bool) \<Rightarrow> nat \<Rightarrow> 's \<times> ('t \<times> 'p) list \<Rightarrow> ('s \<times> ('t \<times> 'p) list) option"
where
  "pool_advance nxt guard i c = (case c of (s, ps) \<Rightarrow>
     if i < length ps \<and> guard (snd (ps ! i)) s
     then map_option (\<lambda>(s', p'). (s', ps[i := (fst (ps ! i), p')])) (nxt (snd (ps ! i)) s) else None)"

fun pool_schedule ::
  "('p \<Rightarrow> 's \<Rightarrow> ('s \<times> 'p) option) \<Rightarrow> ('p \<Rightarrow> 's \<Rightarrow> bool) \<Rightarrow> nat list \<Rightarrow> 's \<times> ('t \<times> 'p) list \<Rightarrow> ('s \<times> ('t \<times> 'p) list) option"
where
  "pool_schedule nxt guard [] c = Some c"
| "pool_schedule nxt guard (i # is) c = Option.bind (pool_advance nxt guard i c) (pool_schedule nxt guard is)"

lemma pool_advance_step: "pool_advance nxt guard i c = Some c' \<Longrightarrow> pool_step nxt guard start c c'"
  by (cases c) (auto simp: pool_advance_def split: if_splits intro!: pool_step.advance)

lemma pool_schedule_steps: "pool_schedule nxt guard is c = Some c' \<Longrightarrow> pool_steps nxt guard start c c'"
proof (induction "is" arbitrary: c)
  case (Cons i "is")
  then obtain d where "pool_advance nxt guard i c = Some d" "pool_schedule nxt guard is d = Some c'"
    by (auto simp: bind_eq_Some_conv)
  then show ?case using Cons.IH pool_advance_step converse_rtranclp_into_rtranclp by metis
qed simp

lemma pool_spawn_two:
  "pool_steps nxt guard start (s, []) (s, [(t, start t), (u, start u)])"
proof -
  have "pool_step nxt guard start (s, []) (s, [] @ [(t, start t)])" by (rule pool_step.spawn)
  moreover have "pool_step nxt guard start (s, [(t, start t)]) (s, [(t, start t)] @ [(u, start u)])" by (rule pool_step.spawn)
  ultimately show ?thesis by simp
qed

section \<open>Programs that are safe under interference\<close>

locale interleaving =
  fixes nxt :: "'p \<Rightarrow> 's \<Rightarrow> ('s \<times> 'p) option"
    and guard :: "'p \<Rightarrow> 's \<Rightarrow> bool"
    and ext :: "'s \<Rightarrow> 's \<Rightarrow> bool"
  assumes ext_trans: "ext a b \<Longrightarrow> ext b c \<Longrightarrow> ext a c"
    and ext_refl: "ext a b \<Longrightarrow> ext b b"
begin

text \<open>\<open>safe Q p s\<close>: started in \<open>s\<close>, and whatever happens between its steps, the program finishes
  after finitely many of them, each of which keeps \<open>ext\<close>, with \<open>Q\<close>.\<close>

inductive safe :: "('p \<Rightarrow> 's \<Rightarrow> bool) \<Rightarrow> 'p \<Rightarrow> 's \<Rightarrow> bool" for Q where
  safeI: "(\<And>a. ext s a \<Longrightarrow> nxt p a = None \<Longrightarrow> Q p a) \<Longrightarrow>
    (\<And>a b q. ext s a \<Longrightarrow> nxt p a = Some (b, q) \<Longrightarrow> guard p a \<Longrightarrow> ext a b) \<Longrightarrow>
    (\<And>a b q. ext s a \<Longrightarrow> nxt p a = Some (b, q) \<Longrightarrow> guard p a \<Longrightarrow> safe Q q b) \<Longrightarrow> safe Q p s"

inductive_cases safeE: "safe Q p s"

lemma safe_finished: "safe Q p s \<Longrightarrow> ext s a \<Longrightarrow> nxt p a = None \<Longrightarrow> Q p a"
  by (erule safeE) blast

lemma safe_step:
  assumes "safe Q p s" and "ext s a" and "nxt p a = Some (b, q)" and "guard p a"
  shows "ext a b" and "safe Q q b"
  using assms by (blast elim: safeE)+

lemma safe_later: "safe Q p s \<Longrightarrow> ext s a \<Longrightarrow> safe Q p a"
proof (rule safeI)
  assume safe: "safe Q p s" and later: "ext s a"
  fix b c q assume "ext a b"
  then have b: "ext s b" using ext_trans later by blast
  show "Q p b" if "nxt p b = None" using safe_finished[OF safe b that] .
  show "ext b c" "safe Q q c" if "nxt p b = Some (c, q)" "guard p b" using safe_step[OF safe b that] by simp_all
qed

lemma safe_weaken:
  assumes "safe Q p s" and "\<And>p a. Q p a \<Longrightarrow> R p a"
  shows "safe R p s"
  using assms(1)
proof (induction rule: safe.induct)
  case (safeI s p)
  show ?case
  proof (rule safe.safeI)
    fix a b q assume a: "ext s a"
    show "R p a" if "nxt p a = None" using safeI(1)[OF a that] assms(2) by blast
    show "ext a b" if "nxt p a = Some (b, q)" "guard p a" using safeI(2)[OF a that] .
    show "safe R q b" if "nxt p a = Some (b, q)" "guard p a" using safeI(4)[OF a that] .
  qed
qed

text \<open>Every running call is safe for what is wanted of it, by its place and its tag.\<close>

definition pool_ok :: "(nat \<Rightarrow> 't \<Rightarrow> 'p \<Rightarrow> 's \<Rightarrow> bool) \<Rightarrow> 's \<times> ('t \<times> 'p) list \<Rightarrow> bool" where
  "pool_ok Q c \<longleftrightarrow> ext (fst c) (fst c) \<and>
     (\<forall>i<length (snd c). safe (Q i (fst (snd c ! i))) (snd (snd c ! i)) (fst c))"

lemma pool_ok_step:
  assumes step: "pool_step nxt guard start (s, ps) (s', ps')" and ok: "pool_ok Q (s, ps)"
    and new: "\<And>t a. ext a a \<Longrightarrow> safe (Q (length ps) t) (start t) a"
  shows "ext s s' \<and> pool_ok Q (s', ps')"
  using step
proof (cases rule: pool_step_cases)
  case (spawn t)
  then show ?thesis using ok new unfolding pool_ok_def by (simp add: nth_append less_Suc_eq)
next
  case (advance i t p p')
  have own: "safe (Q i t) p s" and ext0: "ext s s"
    using ok advance(1,2) unfolding pool_ok_def by auto
  note moved = safe_step[OF own ext0 advance(3,4)]
  have "safe (Q k (fst (ps' ! k))) (snd (ps' ! k)) s'" if "k < length ps'" for k
    using that ok moved advance unfolding pool_ok_def
    by (cases "k = i") (auto intro: safe_later)
  then show ?thesis using moved(1) ext_refl unfolding pool_ok_def by auto
qed

theorem pool_invariant:
  assumes "pool_steps nxt guard start c c'" and "pool_ok Q c"
    and new: "\<And>i t a. length (snd c) \<le> i \<Longrightarrow> ext a a \<Longrightarrow> safe (Q i t) (start t) a"
  shows "ext (fst c) (fst c') \<and> pool_ok Q c' \<and> length (snd c) \<le> length (snd c') \<and>
    (\<forall>i<length (snd c). fst (snd c' ! i) = fst (snd c ! i))"
  using assms(1)
proof (induction rule: rtranclp_induct)
  case base
  then show ?case using assms(2) by (simp add: pool_ok_def)
next
  case (step y z)
  obtain a ps b qs where y: "y = (a, ps)" and z: "z = (b, qs)" by fastforce
  have ok: "pool_ok Q (a, ps)" and len: "length (snd c) \<le> length ps" using step.IH y by simp_all
  have "ext a b \<and> pool_ok Q (b, qs)"
    using pool_ok_step[OF step.hyps(2)[unfolded y z] ok new[OF len]] .
  moreover have "i < length qs \<and> fst (qs ! i) = fst (ps ! i)" if "i < length ps" for i
    using pool_step_tags[OF step.hyps(2)[unfolded y z] that] .
  moreover have "length ps \<le> length qs"
    using step.hyps(2) unfolding y z by (cases rule: pool_step_cases) simp_all
  ultimately show ?case using step.IH ext_trans unfolding y z by fastforce
qed

text \<open>One call of a pool, tracked to its end: what its program guarantees when it is the only one
  looked at holds among all the others.\<close>

corollary pool_track:
  assumes steps: "pool_steps nxt guard start (s, ps) (s', ps')" and ok: "pool_ok (\<lambda>_ _ _ _. True) (s, ps)"
    and start: "\<And>t a. ext a a \<Longrightarrow> safe (\<lambda>_ _. True) (start t) a"
    and k: "k < length ps" "safe Q (snd (ps ! k)) s"
  shows "ext s s' \<and> k < length ps' \<and> fst (ps' ! k) = fst (ps ! k) \<and> safe Q (snd (ps' ! k)) s'"
proof -
  let ?Q = "\<lambda>i t p a. i = k \<longrightarrow> Q p a"
  have "pool_ok ?Q (s, ps)"
    using ok k unfolding pool_ok_def by (auto intro: safe_weaken)
  moreover have "safe (?Q i t) (start t) a" if "length (snd (s, ps)) \<le> i" "ext a a" for i t a
    using start[OF that(2)] k(1) that(1) by (auto intro: safe_weaken)
  ultimately show ?thesis
    using pool_invariant[OF steps, of ?Q] k(1) unfolding pool_ok_def by (auto dest!: spec[of _ k])
qed

end

end
