(* ===== verification/Sql_Transactions.thy ===== *)
theory Sql_Transactions
  imports Postgres_Repo Interleaving
begin

text \<open>
  \<open>Save\<close> of the PostgreSQL repository (\<open>order-service/internal/adapters/postgres/repository.go\<close>) with
  transactions that overlap: a call is a program of its statements, each of which sees what has been
  committed and what its own transaction has written. PostgreSQL documents for the isolation level
  of the code (read committed) that an update of a row waits for the transaction that has written the row and then
  looks at it again, and that an insert waits for the transaction that has inserted the same key; what a transaction
  has written is locked until it ends.
\<close>

section \<open>The statements of a call\<close>

type_synonym 'ts save_call = "pg_faults \<times> poll \<times> 'ts order_pb"

text \<open>Where a transaction is, with what it has written: a balance, and then the row of the order.\<close>

datatype save_phase =
  SaveStart
| SaveOpen
| SaveDebited string "numeric option"
| SaveInserted string "numeric option" order_row
| SaveDone "unit result"

type_synonym 'ts save_prog = "'ts save_call \<times> save_phase"

text \<open>What is committed, the rows of users and the keys of orders that transactions have locked.\<close>

record sql_state =
  ss_db :: database
  ss_users :: "string set"
  ss_keys :: "string set"

definition balance_of :: "string \<Rightarrow> database \<Rightarrow> numeric option" where
  "balance_of u db = Option.bind (db_users db) (\<lambda>users. gm_get users u)"

definition put_balance :: "string \<Rightarrow> numeric option \<Rightarrow> database \<Rightarrow> database" where
  "put_balance u bo db =
     (case (bo, db_users db) of
        (Some b, Some users) \<Rightarrow> db\<lparr>db_users := Some (gm_put u b users)\<rparr>
      | _ \<Rightarrow> db)"

definition add_row :: "order_row \<Rightarrow> database \<Rightarrow> database" where
  "add_row row db = db\<lparr>db_orders := db_orders db @ [row]\<rparr>"

definition created_at :: "('ts \<Rightarrow> time) \<Rightarrow> pg_faults \<Rightarrow> 'ts order_pb \<Rightarrow> time" where
  "created_at astime F ord = (case o_CreatedAt ord of Some t \<Rightarrow> astime t | None \<Rightarrow> pf_now1 F)"

definition updated_at :: "('ts \<Rightarrow> time) \<Rightarrow> pg_faults \<Rightarrow> 'ts order_pb \<Rightarrow> time" where
  "updated_at astime F ord = (case o_UpdatedAt ord of Some t \<Rightarrow> astime t | None \<Rightarrow> pf_now2 F)"

fun save_next :: "sql \<Rightarrow> ('ts \<Rightarrow> time) \<Rightarrow> 'ts save_prog \<Rightarrow> sql_state \<Rightarrow> (sql_state \<times> 'ts save_prog) option" where
  "save_next Q astime ((F, p, ord), SaveStart) s =
     Some (s, (F, p, ord),
       case p of Some e \<Rightarrow> SaveDone (Inl (CtxErr e)) | None \<Rightarrow>
       (case pf_begin F of Some e \<Rightarrow> SaveDone (Inl (Wrapf ''begin tx'' e)) | None \<Rightarrow> SaveOpen))"
| "save_next Q astime ((F, p, ord), SaveOpen) s =
     (case faulty (pf_update F) (sql_debit Q (o_Price ord) (o_UserId ord) (ss_db s)) of
        Inl e \<Rightarrow> Some (s, (F, p, ord), SaveDone (Inl (Wrapf ''update balance'' e)))
      | Inr (tx, rowsAffected) \<Rightarrow>
          if rowsAffected = 0 then Some (s, (F, p, ord), SaveDone (Inl (Errorf ''insufficient balance or user not found'')))
          else let u = sql_canon Q (o_UserId ord)
            in Some (s\<lparr>ss_users := insert u (ss_users s)\<rparr>, (F, p, ord), SaveDebited u (balance_of u tx)))"
| "save_next Q astime ((F, p, ord), SaveDebited u b) s =
     (case faulty (pf_insert F) (sql_insert Q ord (created_at astime F ord) (updated_at astime F ord) (put_balance u b (ss_db s))) of
        Inl e \<Rightarrow> Some (s\<lparr>ss_users := ss_users s - {u}\<rparr>, (F, p, ord), SaveDone (Inl (Wrapf ''insert order'' e)))
      | Inr tx \<Rightarrow> let row = last (db_orders tx)
          in Some (s\<lparr>ss_keys := insert (row_order_id row) (ss_keys s)\<rparr>, (F, p, ord), SaveInserted u b row))"
| "save_next Q astime ((F, p, ord), SaveInserted u b row) s =
     (let db' = add_row row (put_balance u b (ss_db s));
          s' = s\<lparr>ss_users := ss_users s - {u}, ss_keys := ss_keys s - {row_order_id row}\<rparr>
      in case pf_commit F of
        None \<Rightarrow> Some (s'\<lparr>ss_db := db'\<rparr>, (F, p, ord), SaveDone (Inr ()))
      | Some (e, effect) \<Rightarrow> Some (if effect then s'\<lparr>ss_db := db'\<rparr> else s', (F, p, ord), SaveDone (Inl e)))"
| "save_next Q astime (c, SaveDone r) s = None"

text \<open>A statement runs when the locks it wants are free: the row that the update finds, the key of the
  row that is inserted.\<close>

definition found_row :: "sql \<Rightarrow> 'ts order_pb \<Rightarrow> database \<Rightarrow> bool" where
  "found_row Q ord db \<longleftrightarrow>
     (case (sq_numeric Q (o_Price ord), balance_of (sql_canon Q (o_UserId ord)) db) of
        (Some p, Some b) \<Rightarrow> p \<le> b | _ \<Rightarrow> False)"

fun save_guard :: "sql \<Rightarrow> 'ts save_prog \<Rightarrow> sql_state \<Rightarrow> bool" where
  "save_guard Q ((F, p, ord), SaveOpen) s =
     (found_row Q ord (ss_db s) \<longrightarrow> sql_canon Q (o_UserId ord) \<notin> ss_users s)"
| "save_guard Q ((F, p, ord), SaveDebited u b) s = (sql_canon Q (o_OrderId ord) \<notin> ss_keys s)"
| "save_guard Q (c, ph) s = True"

definition save_start :: "'ts save_call \<Rightarrow> 'ts save_prog" where
  "save_start c = (c, SaveStart)"

definition idle :: "database \<Rightarrow> sql_state" where
  "idle db = \<lparr>ss_db = db, ss_users = {}, ss_keys = {}\<rparr>"

abbreviation saves_run ::
  "sql \<Rightarrow> ('ts \<Rightarrow> time) \<Rightarrow> sql_state \<times> ('ts save_call \<times> 'ts save_prog) list \<Rightarrow>
   sql_state \<times> ('ts save_call \<times> 'ts save_prog) list \<Rightarrow> bool"
where
  "saves_run Q astime \<equiv> pool_steps (save_next Q astime) (save_guard Q) save_start"

section \<open>One after the other\<close>

text \<open>Calls with their answers, one at a time, from one state of the database to another.\<close>

fun serial :: "sql \<Rightarrow> ('ts \<Rightarrow> time) \<Rightarrow> ('ts save_call \<times> unit result) list \<Rightarrow> database \<Rightarrow> database \<Rightarrow> bool" where
  "serial Q astime [] a b = (a = b)"
| "serial Q astime (((F, p, ord), r) # h) a b =
     (snd (pg_Save Q astime F p ord a) = r \<and> serial Q astime h (fst (pg_Save Q astime F p ord a)) b)"

lemma serial_append: "serial Q astime (g @ h) a c \<longleftrightarrow> (\<exists>b. serial Q astime g a b \<and> serial Q astime h b c)"
  by (induction g arbitrary: a) auto

fun answer_of :: "'ts save_call \<times> 'ts save_prog \<Rightarrow> ('ts save_call \<times> unit result) option" where
  "answer_of (c, c', SaveDone r) = Some (c, r)"
| "answer_of _ = None"

definition answered :: "('ts save_call \<times> 'ts save_prog) list \<Rightarrow> ('ts save_call \<times> unit result) multiset" where
  "answered ps = mset (List.map_filter answer_of ps)"

lemma answered_simps [simp]:
  "answered [] = {#}"
  "answered (ps @ qs) = answered ps + answered qs"
  "answered (x # ps) = (case answer_of x of None \<Rightarrow> answered ps | Some a \<Rightarrow> add_mset a (answered ps))"
  by (simp_all add: answered_def List.map_filter_def split: option.split)

lemma answered_update:
  assumes "k < length ps" and "answer_of (ps ! k) = None"
  shows "answered (ps[k := x]) = (case answer_of x of None \<Rightarrow> answered ps | Some a \<Rightarrow> add_mset a (answered ps))"
proof -
  have "answered ps = answered (take k ps) + answered (drop (Suc k) ps)"
    using answered_simps(2)[of "take k ps" "ps ! k # drop (Suc k) ps"] assms by (simp add: id_take_nth_drop[symmetric])
  then show ?thesis using assms(1) by (simp add: upd_conv_take_nth_drop split: option.split)
qed

section \<open>What a transaction has written\<close>

definition debits :: "sql \<Rightarrow> pg_faults \<Rightarrow> 'ts order_pb \<Rightarrow> string \<Rightarrow> numeric option \<Rightarrow> database \<Rightarrow> bool" where
  "debits Q F ord u b db \<longleftrightarrow> pf_update F = None \<and> sq_uuid Q (o_UserId ord) = Some u \<and> b \<noteq> None \<and>
     (\<exists>p b0. sq_numeric Q (o_Price ord) = Some p \<and> balance_of u db = Some b0 \<and> p \<le> b0 \<and> sq_balance Q (numeric_sub b0 p) = b)"

definition inserts :: "sql \<Rightarrow> ('ts \<Rightarrow> time) \<Rightarrow> pg_faults \<Rightarrow> 'ts order_pb \<Rightarrow> order_row \<Rightarrow> database \<Rightarrow> bool" where
  "inserts Q astime F ord row db \<longleftrightarrow> pf_insert F = None \<and> row_order_id row = sql_canon Q (o_OrderId ord) \<and>
     sql_row Q ord (created_at astime F ord) (updated_at astime F ord) = Some row \<and>
     row_order_id row \<notin> row_order_id ` set (db_orders db)"

lemma db_orders_put [simp]: "db_orders (put_balance u b db) = db_orders db"
  by (simp add: put_balance_def split: option.split)

lemma balance_of_put [simp]:
  "balance_of v (put_balance u (Some b) db) = (if v = u \<and> db_users db \<noteq> None then Some b else balance_of v db)"
  by (auto simp: balance_of_def put_balance_def split: option.split)

lemma balance_of_row [simp]: "balance_of u (add_row row db) = balance_of u db"
  by (simp add: balance_of_def add_row_def)

lemma db_orders_row [simp]: "db_orders (add_row row db) = db_orders db @ [row]"
  by (simp add: add_row_def)

text \<open>The effect of the update depends on one balance only.\<close>

lemma debitsI:
  assumes "pf_update F = None" and "sql_debit Q (o_Price ord) (o_UserId ord) db = Inr (tx, n)" and "n \<noteq> 0"
  shows "debits Q F ord (sql_canon Q (o_UserId ord)) (balance_of (sql_canon Q (o_UserId ord)) tx) db" and "found_row Q ord db"
proof -
  have "debits Q F ord (sql_canon Q (o_UserId ord)) (balance_of (sql_canon Q (o_UserId ord)) tx) db \<and> found_row Q ord db"
    using assms(2)
  proof (cases rule: sql_debit_Inr)
    case (debited users u b p b')
    then show ?thesis using assms(1,2)
      by (simp add: debits_def found_row_def balance_of_def put_balance_def sql_canon_def)
  qed (use assms(3) in simp)
  then show "debits Q F ord (sql_canon Q (o_UserId ord)) (balance_of (sql_canon Q (o_UserId ord)) tx) db" and "found_row Q ord db"
    by simp_all
qed

lemma debits_stable: "debits Q F ord u b db \<Longrightarrow> balance_of u db' = balance_of u db \<Longrightarrow> debits Q F ord u b db'"
  by (simp add: debits_def)

lemma debits_debit:
  assumes "debits Q F ord u b db"
  shows "faulty (pf_update F) (sql_debit Q (o_Price ord) (o_UserId ord) db) = Inr (put_balance u b db, 1)"
    and "sql_canon Q (o_UserId ord) = u"
  using assms by (auto simp: debits_def faulty_def sql_debit_def balance_of_def put_balance_def sql_canon_def bind_eq_Some_conv)

text \<open>Where a call is, what it has written is still what its statements would write now.\<close>

fun written :: "sql \<Rightarrow> ('ts \<Rightarrow> time) \<Rightarrow> 'ts save_prog \<Rightarrow> database \<Rightarrow> bool" where
  "written Q astime ((F, p, ord), SaveStart) db = True"
| "written Q astime ((F, p, ord), SaveOpen) db = (p = None \<and> pf_begin F = None)"
| "written Q astime ((F, p, ord), SaveDebited u b) db = (p = None \<and> pf_begin F = None \<and> debits Q F ord u b db)"
| "written Q astime ((F, p, ord), SaveInserted u b row) db =
     (p = None \<and> pf_begin F = None \<and> debits Q F ord u b db \<and> inserts Q astime F ord row db)"
| "written Q astime (c, SaveDone r) db = True"

lemma pg_Save_debited:
  assumes "debits Q F ord u b db" and "pf_begin F = None"
  shows "pg_Save Q astime F None ord db =
    (case faulty (pf_insert F) (sql_insert Q ord (created_at astime F ord) (updated_at astime F ord) (put_balance u b db)) of
       Inl e \<Rightarrow> (db, Inl (Wrapf ''insert order'' e))
     | Inr tx \<Rightarrow> (case pf_commit F of None \<Rightarrow> (tx, Inr ()) | Some (e, effect) \<Rightarrow> (if effect then tx else db, Inl e)))"
  using assms(2) debits_debit(1)[OF assms(1)] by (simp add: pg_Save_def created_at_def updated_at_def Let_def)

lemma inserts_insert:
  assumes "inserts Q astime F ord row db"
  shows "faulty (pf_insert F) (sql_insert Q ord (created_at astime F ord) (updated_at astime F ord) (put_balance u b db)) =
    Inr (add_row row (put_balance u b db))"
  using assms by (auto simp: inserts_def sql_insert_def faulty_def add_row_def)

text \<open>A call ends as it would if it ran alone at the end: the answer and the database are those of
  \<open>Save\<close> then.\<close>

lemma ends_serially:
  assumes "save_next Q astime (c, ph) s = Some (s', c', SaveDone r)" and "written Q astime (c, ph) (ss_db s)"
  shows "c' = c \<and> serial Q astime [(c, r)] (ss_db s) (ss_db s')"
proof -
  obtain F p ord where c: "c = (F, p, ord)" by (cases c)
  show ?thesis
  proof (cases ph)
    case SaveStart
    then show ?thesis using assms by (auto simp: c pg_Save_def split: option.splits)
  next
    case SaveOpen
    then show ?thesis using assms
      by (auto simp: c pg_Save_def Let_def split: sum.splits if_splits prod.splits)
  next
    case (SaveDebited u b)
    then show ?thesis using assms by (auto simp: c pg_Save_debited Let_def split: sum.splits)
  next
    case (SaveInserted u b row)
    then show ?thesis using assms
      by (auto simp: c pg_Save_debited inserts_insert Let_def split: option.splits prod.splits if_splits)
  qed (use assms in simp)
qed

section \<open>Locks\<close>

fun row_lock :: "save_phase \<Rightarrow> string option" where
  "row_lock (SaveDebited u b) = Some u"
| "row_lock (SaveInserted u b row) = Some u"
| "row_lock _ = None"

fun key_lock :: "save_phase \<Rightarrow> string option" where
  "key_lock (SaveInserted u b row) = Some (row_order_id row)"
| "key_lock _ = None"

text \<open>A set of locks is what the calls of a pool hold, each by one of them.\<close>

definition holds :: "('p \<Rightarrow> string option) \<Rightarrow> ('t \<times> 'p) list \<Rightarrow> nat \<Rightarrow> string \<Rightarrow> bool" where
  "holds lock ps k x \<longleftrightarrow> k < length ps \<and> lock (snd (ps ! k)) = Some x"

definition locked_by :: "('p \<Rightarrow> string option) \<Rightarrow> string set \<Rightarrow> ('t \<times> 'p) list \<Rightarrow> bool" where
  "locked_by lock L ps \<longleftrightarrow> (\<forall>x. x \<in> L \<longleftrightarrow> (\<exists>k. holds lock ps k x)) \<and>
     (\<forall>j k x. holds lock ps j x \<longrightarrow> holds lock ps k x \<longrightarrow> j = k)"

lemma holds_update [simp]:
  "k < length ps \<Longrightarrow> holds lock (ps[k := x]) j u = (if j = k then lock (snd x) = Some u else holds lock ps j u)"
  by (auto simp: holds_def nth_list_update)

lemma locked_by_spawn:
  assumes "locked_by lock L ps" and "lock (snd x) = None"
  shows "locked_by lock L (ps @ [x])"
proof -
  have "holds lock (ps @ [x]) k = holds lock ps k" for k
    using assms(2) by (auto simp: holds_def fun_eq_iff nth_append less_Suc_eq)
  then show ?thesis using assms(1) by (simp add: locked_by_def)
qed

lemma locked_by_holds:
  assumes "locked_by lock L ps"
  shows "v \<in> L \<longleftrightarrow> (\<exists>j. holds lock ps j v)" and "holds lock ps i v \<Longrightarrow> holds lock ps j v \<Longrightarrow> i = j"
  using assms unfolding locked_by_def by blast+

lemma locked_byI:
  assumes "\<And>v. v \<in> L \<Longrightarrow> \<exists>j. holds lock ps j v" and "\<And>v j. holds lock ps j v \<Longrightarrow> v \<in> L"
    and "\<And>v i j. holds lock ps i v \<Longrightarrow> holds lock ps j v \<Longrightarrow> i = j"
  shows "locked_by lock L ps"
  unfolding locked_by_def using assms by blast

lemma locked_by_same:
  assumes "locked_by lock L ps" and k: "k < length ps" and "lock (snd x) = lock (snd (ps ! k))"
  shows "locked_by lock L (ps[k := x])"
proof -
  have "holds lock (ps[k := x]) j = holds lock ps j" for j
    using assms(3) k by (auto simp: fun_eq_iff) (simp_all add: holds_def)
  then show ?thesis using assms(1) by (simp add: locked_by_def)
qed

lemma locked_by_take:
  assumes locked: "locked_by lock L ps" and k: "k < length ps" and none: "lock (snd (ps ! k)) = None"
    and x: "lock (snd x) = Some u" and u: "u \<notin> L"
  shows "locked_by lock (insert u L) (ps[k := x])"
proof -
  note L = locked_by_holds(1)[OF locked] and one = locked_by_holds(2)[OF locked]
  have free: "\<not> holds lock ps k v" "\<not> holds lock ps j u" for j v
    using none u L by (simp add: holds_def, blast)
  have held: "holds lock (ps[k := x]) j v \<longleftrightarrow> holds lock ps j v \<or> (j = k \<and> v = u)" for j v
    using free(1)[of v] x k by (cases "j = k") (simp_all, blast)
  show ?thesis
  proof (rule locked_byI, unfold held)
    show "\<exists>j. holds lock ps j v \<or> (j = k \<and> v = u)" if "v \<in> insert u L" for v using that L by blast
    show "v \<in> insert u L" if "holds lock ps j v \<or> (j = k \<and> v = u)" for v j using that L by blast
    show "i = j" if "holds lock ps i v \<or> (i = k \<and> v = u)" "holds lock ps j v \<or> (j = k \<and> v = u)" for v i j
      using that free one by blast
  qed
qed

lemma locked_by_free:
  assumes locked: "locked_by lock L ps" and k: "k < length ps" and own: "lock (snd (ps ! k)) = Some u" and x: "lock (snd x) = None"
  shows "locked_by lock (L - {u}) (ps[k := x])"
proof -
  note L = locked_by_holds(1)[OF locked] and one = locked_by_holds(2)[OF locked]
  have own: "holds lock ps k v \<longleftrightarrow> v = u" for v
    using own k by (auto simp: holds_def)
  have held: "holds lock (ps[k := x]) j v \<longleftrightarrow> holds lock ps j v \<and> v \<noteq> u" for j v
  proof (cases "j = k")
    case True
    then show ?thesis using own[of v] x k by simp
  next
    case False
    then have "holds lock ps j v \<Longrightarrow> v \<noteq> u" using one[of j u k] own[of u] by blast
    then show ?thesis using False k by auto
  qed
  show ?thesis
  proof (rule locked_byI, unfold held)
    show "\<exists>j. holds lock ps j v \<and> v \<noteq> u" if "v \<in> L - {u}" for v using that L by blast
    show "v \<in> L - {u}" if "holds lock ps j v \<and> v \<noteq> u" for v j using that L by blast
    show "i = j" if "holds lock ps i v \<and> v \<noteq> u" "holds lock ps j v \<and> v \<noteq> u" for v i j using that one by blast
  qed
qed

lemma locked_by_other:
  assumes "locked_by lock L ps" and "j < length ps" and "k < length ps" and "j \<noteq> k" and "lock (snd (ps ! k)) = Some u"
  shows "lock (snd (ps ! j)) \<noteq> Some u"
  using assms by (auto simp: locked_by_def holds_def)

lemma locked_by_none:
  "locked_by lock L ps \<Longrightarrow> \<forall>k < length ps. lock (snd (ps ! k)) = None \<Longrightarrow> L = {}"
  by (auto simp: locked_by_def holds_def)

section \<open>Transactions that overlap\<close>

definition saves_ok :: "sql \<Rightarrow> ('ts \<Rightarrow> time) \<Rightarrow> sql_state \<times> ('ts save_call \<times> 'ts save_prog) list \<Rightarrow> bool" where
  "saves_ok Q astime c \<longleftrightarrow>
     (\<forall>k < length (snd c). fst (snd (snd c ! k)) = fst (snd c ! k) \<and> written Q astime (snd (snd c ! k)) (ss_db (fst c))) \<and>
     locked_by (row_lock \<circ> snd) (ss_users (fst c)) (snd c) \<and> locked_by (key_lock \<circ> snd) (ss_keys (fst c)) (snd c)"

lemma saves_ok_idle: "saves_ok Q astime (idle db, [])"
  by (simp add: saves_ok_def idle_def locked_by_def holds_def)

lemma saves_ok_spawn: "saves_ok Q astime (s, ps) \<Longrightarrow> saves_ok Q astime (s, ps @ [(call, save_start call)])"
  by (cases call) (auto simp: saves_ok_def save_start_def nth_append less_Suc_eq intro!: locked_by_spawn)

lemma written_commit:
  assumes "written Q astime (c, ph) db" and "row_lock ph \<noteq> Some u" and "key_lock ph \<noteq> Some (row_order_id row)"
  shows "written Q astime (c, ph) (add_row row (put_balance u b db))"
proof -
  obtain F p ord where c: "c = (F, p, ord)" by (cases c)
  have other: "balance_of v (add_row row (put_balance u b db)) = balance_of v db" if "v \<noteq> u" for v
    using that by (cases b) (simp_all, simp add: put_balance_def)
  show ?thesis
    using assms debits_stable[OF _ other] by (cases ph) (auto simp: c inserts_def)
qed

text \<open>A step of the call \<open>k\<close> that changes neither the locks nor what is committed.\<close>

lemma saves_ok_quiet:
  assumes "saves_ok Q astime (s, ps)" and "k < length ps" and "ps ! k = (call, call, ph)"
    and "row_lock ph' = row_lock ph" and "key_lock ph' = key_lock ph" and "written Q astime (call, ph') (ss_db s)"
  shows "saves_ok Q astime (s, ps[k := (call, call, ph')])"
  using assms by (auto simp: saves_ok_def nth_list_update intro!: locked_by_same)

text \<open>What a call does at its next step, by where it is.\<close>

lemma save_next_call: "save_next Q astime (c, ph) s = Some (s', p') \<Longrightarrow> fst p' = c"
  by (cases "(Q, astime, (c, ph), s)" rule: save_next.cases)
    (auto simp: Let_def split: option.splits sum.splits if_splits prod.splits)

lemma save_next_answers:
  assumes "save_next Q astime (c, ph) s = Some (s', c', ph')"
  shows "answer_of (c, c, ph) = None" and "answer_of (c, c', ph') = None \<Longrightarrow> ss_db s' = ss_db s"
  using assms by (cases "(Q, astime, (c, ph), s)" rule: save_next.cases;
    auto simp: Let_def split: option.splits sum.splits if_splits prod.splits)+

lemma save_ends_cases:
  assumes "save_next Q astime ((F, p, ord), ph) s = Some (s', c', ph')"
  obtains (quiet) "s' = s" and "row_lock ph' = row_lock ph" and "key_lock ph' = key_lock ph"
      and "written Q astime ((F, p, ord), ph) (ss_db s) \<Longrightarrow> written Q astime ((F, p, ord), ph') (ss_db s)"
  | (debit) u b where "ph = SaveOpen" and "ph' = SaveDebited u b" and "s' = s\<lparr>ss_users := insert u (ss_users s)\<rparr>"
      and "u = sql_canon Q (o_UserId ord)" and "found_row Q ord (ss_db s)" and "debits Q F ord u b (ss_db s)"
  | (fail) u b r where "ph = SaveDebited u b" and "ph' = SaveDone r" and "s' = s\<lparr>ss_users := ss_users s - {u}\<rparr>"
  | (insert) u b row where "ph = SaveDebited u b" and "ph' = SaveInserted u b row"
      and "s' = s\<lparr>ss_keys := insert (row_order_id row) (ss_keys s)\<rparr>" and "inserts Q astime F ord row (ss_db s)"
  | (leave) u b row r where "ph = SaveInserted u b row" and "ph' = SaveDone r"
      and "ss_users s' = ss_users s - {u}" and "ss_keys s' = ss_keys s - {row_order_id row}"
      and "ss_db s' = ss_db s \<or> ss_db s' = add_row row (put_balance u b (ss_db s))"
proof (cases ph)
  case SaveStart
  then show ?thesis using assms by (intro quiet) (auto split: option.splits)
next
  case SaveOpen
  show ?thesis
  proof (cases "faulty (pf_update F) (sql_debit Q (o_Price ord) (o_UserId ord) (ss_db s))")
    case (Inl e)
    then show ?thesis using assms SaveOpen by (intro quiet) auto
  next
    case (Inr res)
    obtain tx n where res: "res = (tx, n)" by (cases res)
    show ?thesis
    proof (cases "n = 0")
      case True
      then show ?thesis using assms SaveOpen Inr res by (intro quiet) auto
    next
      case False
      note faults = Inr[unfolded res faulty_Inr]
      show ?thesis
        using debitsI[OF conjunct1[OF faults] conjunct2[OF faults] False] assms SaveOpen Inr res False
        by (intro debit) (auto simp: Let_def)
    qed
  qed
next
  case (SaveDebited u b)
  show ?thesis
  proof (cases "faulty (pf_insert F) (sql_insert Q ord (created_at astime F ord) (updated_at astime F ord) (put_balance u b (ss_db s)))")
    case (Inl e)
    then show ?thesis using assms SaveDebited by (intro fail) auto
  next
    case (Inr tx)
    then have faults: "pf_insert F = None"
        "sql_insert Q ord (created_at astime F ord) (updated_at astime F ord) (put_balance u b (ss_db s)) = Inr tx"
      by (simp_all add: faulty_Inr)
    show ?thesis
      using faults(2)
    proof (cases rule: sql_insert_Inr)
      case (1 row)
      then have "inserts Q astime F ord row (ss_db s)"
        using faults(1) sql_row_Some(1)[OF 1(1)] by (simp add: inserts_def sql_canon_def)
      then show ?thesis using assms SaveDebited Inr 1 by (intro insert) (auto simp: Let_def)
    qed
  qed
next
  case (SaveInserted u b row)
  then obtain r where "ph' = SaveDone r"
    using assms by (auto simp: Let_def split: option.splits)
  then show ?thesis using SaveInserted assms
    by (intro leave[of u b row r]) (auto simp: Let_def split: option.splits if_splits prod.splits)
qed (use assms in simp)

text \<open>The locks and the statements of a pool stay in order.\<close>

lemma saves_ok_at:
  assumes "saves_ok Q astime (s, ps)" and "k < length ps"
  shows "fst (snd (ps ! k)) = fst (ps ! k)" and "written Q astime (snd (ps ! k)) (ss_db s)"
    and "locked_by (row_lock \<circ> snd) (ss_users s) ps" and "locked_by (key_lock \<circ> snd) (ss_keys s) ps"
  using assms by (simp_all add: saves_ok_def)

lemma saves_okI:
  assumes "\<And>k. k < length ps \<Longrightarrow> fst (snd (ps ! k)) = fst (ps ! k) \<and> written Q astime (snd (ps ! k)) (ss_db s)"
    and "locked_by (row_lock \<circ> snd) (ss_users s) ps" and "locked_by (key_lock \<circ> snd) (ss_keys s) ps"
  shows "saves_ok Q astime (s, ps)"
  using assms by (simp add: saves_ok_def)

lemma save_step_ok:
  assumes ok: "saves_ok Q astime (s, ps)" and k: "k < length ps" "ps ! k = (call, call, ph)"
    and step: "save_next Q astime (call, ph) s = Some (s', call, ph')" and guard: "save_guard Q (call, ph) s"
  shows "saves_ok Q astime (s', ps[k := (call, call, ph')])"
proof -
  obtain F q ord where call: "call = (F, q, ord)" by (cases call)
  note at = saves_ok_at[OF ok]
  have w: "written Q astime (call, ph) (ss_db s)" using at(2)[OF k(1)] k(2) by simp
  note users = at(3)[OF k(1)] and keys = at(4)[OF k(1)]
  have row: "(row_lock \<circ> snd) (snd (ps ! k)) = row_lock ph" and key: "(key_lock \<circ> snd) (snd (ps ! k)) = key_lock ph"
    using k(2) by simp_all
  have others: "j < length ps \<Longrightarrow> fst (snd (ps[k := (call, call, ph')] ! j)) = fst (ps[k := (call, call, ph')] ! j) \<and>
      written Q astime (snd (ps[k := (call, call, ph')] ! j)) (ss_db s')"
    if "written Q astime (call, ph') (ss_db s')"
      and "\<And>j. j < length ps \<Longrightarrow> j \<noteq> k \<Longrightarrow> written Q astime (snd (ps ! j)) (ss_db s')" for j
    using that at(1) by (cases "j = k") simp_all
  show ?thesis
    using step[unfolded call]
  proof (cases rule: save_ends_cases)
    case quiet
    then show ?thesis using saves_ok_quiet[OF ok k] w call by simp
  next
    case (debit u b)
    then have "u \<notin> ss_users s" using guard call by simp
    then have "locked_by (row_lock \<circ> snd) (ss_users s') (ps[k := (call, call, ph')])"
      using locked_by_take[OF users k(1)] row debit(1-3) by simp
    moreover have "locked_by (key_lock \<circ> snd) (ss_keys s') (ps[k := (call, call, ph')])"
      using locked_by_same[OF keys k(1)] key debit(1-3) by simp
    moreover have "written Q astime (call, ph') (ss_db s')" "ss_db s' = ss_db s"
      using w debit by (simp_all add: call)
    ultimately show ?thesis using others at(2) by (intro saves_okI) simp_all
  next
    case (fail u b r)
    then have "locked_by (row_lock \<circ> snd) (ss_users s') (ps[k := (call, call, ph')])"
      using locked_by_free[OF users k(1)] row by simp
    moreover have "locked_by (key_lock \<circ> snd) (ss_keys s') (ps[k := (call, call, ph')])"
      using locked_by_same[OF keys k(1)] key fail by simp
    moreover have "written Q astime (call, ph') (ss_db s')" "ss_db s' = ss_db s"
      using fail by (simp_all add: call)
    ultimately show ?thesis using others at(2) by (intro saves_okI) simp_all
  next
    case (insert u b row)
    then have "row_order_id row \<notin> ss_keys s" using guard call by (simp add: inserts_def)
    then have "locked_by (key_lock \<circ> snd) (ss_keys s') (ps[k := (call, call, ph')])"
      using locked_by_take[OF keys k(1)] key insert(1-3) by simp
    moreover have "locked_by (row_lock \<circ> snd) (ss_users s') (ps[k := (call, call, ph')])"
      using locked_by_same[OF users k(1)] row insert(1-3) by simp
    moreover have "written Q astime (call, ph') (ss_db s')" "ss_db s' = ss_db s"
      using w insert by (simp_all add: call)
    ultimately show ?thesis using others at(2) by (intro saves_okI) simp_all
  next
    case (leave u b row' r)
    then have "locked_by (row_lock \<circ> snd) (ss_users s') (ps[k := (call, call, ph')])"
      using locked_by_free[OF users k(1)] row by simp
    moreover have "locked_by (key_lock \<circ> snd) (ss_keys s') (ps[k := (call, call, ph')])"
      using locked_by_free[OF keys k(1)] key leave by simp
    moreover have "written Q astime (call, ph') (ss_db s')"
      using leave by (simp add: call)
    moreover have "written Q astime (snd (ps ! j)) (ss_db s')" if j: "j < length ps" "j \<noteq> k" for j
    proof -
      have "row_lock (snd (snd (ps ! j))) \<noteq> Some u"
        using locked_by_other[OF users j(1) k(1) j(2), of u] row leave(1) by simp
      moreover have "key_lock (snd (snd (ps ! j))) \<noteq> Some (row_order_id row')"
        using locked_by_other[OF keys j(1) k(1) j(2), of "row_order_id row'"] key leave(1) by simp
      ultimately show ?thesis
        using leave(5) at(2)[OF j(1)] written_commit[of Q astime "fst (snd (ps ! j))" "snd (snd (ps ! j))"] by auto
    qed
    ultimately show ?thesis using others by (intro saves_okI) simp_all
  qed
qed

text \<open>One step: what it ends is a serial call, and what it leaves is well formed.\<close>

lemma save_step_serial:
  assumes ok: "saves_ok Q astime (s, ps)" and step: "pool_step (save_next Q astime) (save_guard Q) save_start (s, ps) (s', ps')"
  shows "saves_ok Q astime (s', ps') \<and>
    (\<exists>h. serial Q astime h (ss_db s) (ss_db s') \<and> answered ps' = answered ps + mset h)"
  using step
proof (cases rule: pool_step_cases)
  case (spawn t)
  then show ?thesis using saves_ok_spawn[OF ok, of t] by (intro conjI exI[of _ "[]"]) (simp_all add: save_start_def)
next
  case (advance k call p p')
  obtain ph where p: "p = (call, ph)" using saves_ok_at(1)[OF ok advance(1)] advance(2) by (cases p) simp
  obtain ph' where p': "p' = (call, ph')" using save_next_call[of Q astime call ph s s' p'] advance(3) p by (cases p') simp
  note step = advance(3)[unfolded p p'] and at = advance(2)[unfolded p]
  note open_call = save_next_answers[OF step]
  have upd: "answered ps' = (case answer_of (call, call, ph') of None \<Rightarrow> answered ps | Some a \<Rightarrow> add_mset a (answered ps))"
    using answered_update[OF advance(1)] open_call(1) at by (simp only: advance(5) p')
  have "\<exists>h. serial Q astime h (ss_db s) (ss_db s') \<and> answered ps' = answered ps + mset h"
  proof (cases ph')
    case (SaveDone r)
    have "serial Q astime [(call, r)] (ss_db s) (ss_db s')"
      using ends_serially step[unfolded SaveDone] saves_ok_at(2)[OF ok advance(1)] at by fastforce
    moreover have "answered ps' = answered ps + mset [(call, r)]" using upd by (simp add: SaveDone)
    ultimately show ?thesis by blast
  qed (use open_call(2) upd in \<open>auto intro!: exI[of _ "[]"]\<close>)
  then show ?thesis
    using save_step_ok[OF ok advance(1) at step] advance(4,5) by (simp add: p p')
qed

lemma saves_run_serial:
  assumes "saves_run Q astime c c'" and "saves_ok Q astime c"
  shows "saves_ok Q astime c' \<and>
    (\<exists>h. serial Q astime h (ss_db (fst c)) (ss_db (fst c')) \<and> answered (snd c') = answered (snd c) + mset h)"
  using assms(1)
proof (induction rule: rtranclp_induct)
  case base
  then show ?case using assms(2) by (intro conjI exI[of _ "[]"]) simp_all
next
  case (step d e)
  obtain s ps where d: "d = (s, ps)" by (cases d)
  obtain s' ps' where e: "e = (s', ps')" by (cases e)
  obtain g where g: "serial Q astime g (ss_db (fst c)) (ss_db s)" "answered ps = answered (snd c) + mset g"
    using step.IH d by auto
  have ok: "saves_ok Q astime (s, ps)" using step.IH d by simp
  obtain h where h: "serial Q astime h (ss_db s) (ss_db s')" "answered ps' = answered ps + mset h" and ok': "saves_ok Q astime (s', ps')"
    using save_step_serial[OF ok step.hyps(2)[unfolded d e]] by blast
  have "serial Q astime (g @ h) (ss_db (fst c)) (ss_db s')" using g(1) h(1) serial_append by blast
  moreover have "answered ps' = answered (snd c) + mset (g @ h)" using g(2) h(2) by simp
  ultimately show ?case using ok' e by auto
qed

text \<open>C31: orders saved by transactions that overlap in any way are saved as if the calls ran one after the other:
  those which have answered are in some order in which each, alone, gives the answer it gave and
  together the database that is committed; and what answered before a moment comes before what
  answered later.\<close>

theorem concurrent_saves_serial:
  assumes "saves_run Q astime (idle db, []) (s1, ps1)" and "saves_run Q astime (s1, ps1) (s2, ps2)"
  shows "\<exists>h1 h2. serial Q astime h1 db (ss_db s1) \<and> mset h1 = answered ps1 \<and>
    serial Q astime h2 (ss_db s1) (ss_db s2) \<and> mset (h1 @ h2) = answered ps2"
proof -
  note one = saves_run_serial[OF assms(1) saves_ok_idle]
  then obtain h1 where h1: "serial Q astime h1 db (ss_db s1)" "answered ps1 = mset h1" by (auto simp: idle_def)
  obtain h2 where "serial Q astime h2 (ss_db s1) (ss_db s2)" "answered ps2 = answered ps1 + mset h2"
    using saves_run_serial[OF assms(2)] one by auto
  then show ?thesis using h1 by (intro exI[of _ h1] exI[of _ h2]) simp
qed

text \<open>Two orders of one identifier for one user: the second transaction waits for the first at the
  balance, sees what it left, and then finds the key taken.\<close>

abbreviation wit_saves :: "(time save_call \<times> time save_prog) list" where
  "wit_saves \<equiv> [((no_faults 1 2, None, new_order wit_create wit_command), save_start (no_faults 1 2, None, new_order wit_create wit_command)),
     ((no_faults 3 4, None, new_order wit_create wit_command), save_start (no_faults 3 4, None, new_order wit_create wit_command))]"

lemma wit_schedule:
  "\<exists>c e. pool_schedule (save_next wit_sql id) (save_guard wit_sql) [0, 1, 0, 0, 0, 1, 1] (idle wit_db, wit_saves) = Some c \<and>
     answered (snd c) = {#(fst (wit_saves ! 0), Inr ()), (fst (wit_saves ! 1), Inl e)#} \<and> balance_of ''u'' (ss_db (fst c)) = Some (Num 15) \<and>
     map fst (snd c) = map fst wit_saves"
  by (simp add: pool_advance_def save_start_def no_faults_def idle_def new_order_def wit_create_def wit_command_def wit_sql_def wit_db_def
    faulty_def sql_debit_def sql_insert_def sql_row_def sql_money_def smallint_def gm_get_def gm_put_def balance_of_def put_balance_def
    sql_canon_def found_row_def created_at_def updated_at_def add_row_def Let_def sql_error_def)

lemma wit_run:
  "\<exists>c e. saves_run wit_sql id (idle wit_db, wit_saves) c \<and>
     answered (snd c) = {#(fst (wit_saves ! 0), Inr ()), (fst (wit_saves ! 1), Inl e)#} \<and> balance_of ''u'' (ss_db (fst c)) = Some (Num 15) \<and>
     map fst (snd c) = map fst wit_saves"
  using wit_schedule pool_schedule_steps by blast

theorem concurrent_saves_serial_witness:
  "\<exists>s ps h e. saves_run wit_sql id (idle wit_db, wit_saves) (s, ps) \<and> serial wit_sql id h wit_db (ss_db s) \<and>
     mset h = {#(fst (wit_saves ! 0), Inr ()), (fst (wit_saves ! 1), Inl e)#} \<and> balance_of ''u'' (ss_db s) = Some (Num 15)"
proof -
  obtain s ps e where run: "saves_run wit_sql id (idle wit_db, wit_saves) (s, ps)"
    and out: "answered ps = {#(fst (wit_saves ! 0), Inr ()), (fst (wit_saves ! 1), Inl e)#}" "balance_of ''u'' (ss_db s) = Some (Num 15)"
    using wit_run by fastforce
  have "saves_run wit_sql id (idle wit_db, []) (idle wit_db, wit_saves)" by (rule pool_spawn_two)
  from concurrent_saves_serial[OF this run] obtain h1 h2
    where h: "serial wit_sql id h1 wit_db (ss_db (idle wit_db))" "serial wit_sql id h2 (ss_db (idle wit_db)) (ss_db s)" "mset (h1 @ h2) = answered ps"
    by blast
  then have "serial wit_sql id (h1 @ h2) wit_db (ss_db s)" using serial_append by blast
  then show ?thesis using run out h(3) by (intro exI[of _ s] exI[of _ ps] exI[of _ "h1 @ h2"] exI[of _ e]) simp
qed

section \<open>Nothing is spent twice\<close>

text \<open>What a call has taken from the user \<open>u\<close>: the price of the order when it answers that it is saved.\<close>

fun spent :: "sql \<Rightarrow> string \<Rightarrow> 'ts save_call \<times> unit result \<Rightarrow> rat" where
  "spent Q u ((F, p, ord), r) =
     (if r = Inr () \<and> sq_uuid Q (o_UserId ord) = Some u
      then case sq_numeric Q (o_Price ord) of Some (Num a) \<Rightarrow> a | _ \<Rightarrow> 0 else 0)"

text \<open>A call whose commit is answered, and whose price is a number.\<close>

fun certain :: "sql \<Rightarrow> 'ts save_call \<Rightarrow> bool" where
  "certain Q (F, p, ord) \<longleftrightarrow> pf_commit F = None \<and> sq_numeric Q (o_Price ord) \<in> {None} \<union> range (Some \<circ> Num)"

lemma pg_Save_spent:
  assumes "certain Q (F, p, ord)" and "plain_balance Q" and "balance_of u db = Some (Num b)"
  shows "balance_of u (fst (pg_Save Q astime F p ord db)) = Some (Num (b - spent Q u ((F, p, ord), snd (pg_Save Q astime F p ord db)))) \<and>
    (0 \<le> b \<longrightarrow> 0 \<le> b - spent Q u ((F, p, ord), snd (pg_Save Q astime F p ord db)))"
proof -
  obtain db' res where run: "pg_Save Q astime F p ord db = (db', res)" by fastforce
  from run show ?thesis
  proof (cases rule: pg_Save_cases)
    case (stored t1 t2 row)
    then have "res = Inr ()" using assms(1) by simp
    then show ?thesis
      using stored(2) assms run by (auto simp: paid_for_def balance_of_def plain_balance_def)
  qed (use assms(3) run in simp)
qed

lemma serial_spent:
  assumes "serial Q astime h a b" and "\<And>c r. (c, r) \<in> set h \<Longrightarrow> certain Q c" and "plain_balance Q" and "balance_of u a = Some (Num x)"
  shows "balance_of u b = Some (Num (x - sum_list (map (spent Q u) h))) \<and> (0 \<le> x \<longrightarrow> 0 \<le> x - sum_list (map (spent Q u) h))"
  using assms(1,2,4)
proof (induction h arbitrary: a x)
  case (Cons cr h)
  obtain F p ord r where cr: "cr = ((F, p, ord), r)" by (metis prod_cases3 surj_pair)
  have "certain Q (F, p, ord)" using Cons.prems(2)[of "(F, p, ord)" r] by (simp add: cr)
  note one = pg_Save_spent[OF this assms(3) Cons.prems(3), of astime]
  have rest: "certain Q c" if "(c, s) \<in> set h" for c s using Cons.prems(2)[of c s] that by simp
  have ser: "snd (pg_Save Q astime F p ord a) = r" "serial Q astime h (fst (pg_Save Q astime F p ord a)) b"
    using Cons.prems(1) by (simp_all add: cr)
  from Cons.IH[OF ser(2) _ conjunct1[OF one]] rest conjunct2[OF one] show ?case
    by (simp add: cr ser(1) diff_diff_eq)
qed simp

lemma answered_calls: "(c, r) \<in># answered ps \<Longrightarrow> \<exists>p. (c, p) \<in> set ps"
proof (induction ps)
  case (Cons x ps)
  then show ?case by (cases x rule: answer_of.cases) (auto split: option.splits)
qed simp

text \<open>C32: whatever transactions overlap, no price is taken twice and none is lost: the balance that is
  committed is the one at the start less the prices of exactly the orders of the user that have been
  answered as saved, and it never falls below zero.\<close>

theorem concurrent_saves_spend_once:
  assumes "saves_run Q astime (idle db, []) (s, ps)" and "plain_balance Q" and "\<And>c p. (c, p) \<in> set ps \<Longrightarrow> certain Q c"
    and "balance_of u db = Some (Num b)"
  shows "balance_of u (ss_db s) = Some (Num (b - sum_mset (image_mset (spent Q u) (answered ps)))) \<and>
    (0 \<le> b \<longrightarrow> (\<exists>x \<ge> 0. balance_of u (ss_db s) = Some (Num x)))"
proof -
  obtain h where h: "serial Q astime h db (ss_db s)" "mset h = answered ps"
    using saves_run_serial[OF assms(1) saves_ok_idle] by (auto simp: idle_def)
  have "certain Q c" if "(c, r) \<in> set h" for c r
  proof -
    have "(c, r) \<in># answered ps" using that by (simp flip: h(2))
    then show ?thesis using answered_calls assms(3) by blast
  qed
  from serial_spent[OF h(1) this assms(2,4)] show ?thesis
    by (simp add: h(2)[symmetric] sum_mset_sum_list[symmetric])
qed

theorem concurrent_saves_spend_once_witness:
  "\<exists>s ps. saves_run wit_sql id (idle wit_db, []) (s, ps) \<and> size (answered ps) = 2 \<and>
     balance_of ''u'' (ss_db s) = Some (Num (10 - sum_mset (image_mset (spent wit_sql ''u'') (answered ps))))"
proof -
  obtain s ps e where run: "saves_run wit_sql id (idle wit_db, wit_saves) (s, ps)"
    and out: "answered ps = {#(fst (wit_saves ! 0), Inr ()), (fst (wit_saves ! 1), Inl e)#}" "map fst ps = map fst wit_saves"
    using wit_run by fastforce
  have "saves_run wit_sql id (idle wit_db, []) (idle wit_db, wit_saves)" by (rule pool_spawn_two)
  then have all: "saves_run wit_sql id (idle wit_db, []) (s, ps)" using run by simp
  have "certain wit_sql c" if "(c, p) \<in> set ps" for c p
  proof -
    have "c \<in> set (map fst ps)" using that by force
    then have "c \<in> set (map fst wit_saves)" by (simp only: out(2))
    then show ?thesis by (auto simp: no_faults_def new_order_def wit_command_def wit_sql_def)
  qed
  moreover have "plain_balance wit_sql" "balance_of ''u'' wit_db = Some (Num 10)"
    by (simp_all add: plain_balance_def wit_sql_def balance_of_def wit_db_def gm_get_def)
  ultimately have "balance_of ''u'' (ss_db s) = Some (Num (10 - sum_mset (image_mset (spent wit_sql ''u'') (answered ps))))"
    using concurrent_saves_spend_once[OF all, of "''u''" 10] by blast
  then show ?thesis using all out(1) by (intro exI[of _ s] exI[of _ ps]) simp
qed

section \<open>Every call ends\<close>

fun save_rank :: "save_phase \<Rightarrow> nat" where
  "save_rank SaveStart = 4"
| "save_rank SaveOpen = 3"
| "save_rank (SaveDebited u b) = 2"
| "save_rank (SaveInserted u b row) = 1"
| "save_rank (SaveDone r) = 0"

definition ranks :: "('ts save_call \<times> 'ts save_prog) list \<Rightarrow> nat" where
  "ranks ps = sum_list (map (save_rank \<circ> snd \<circ> snd) ps)"

lemma save_next_rank: "save_next Q astime p s = Some (s', p') \<Longrightarrow> save_rank (snd p') < save_rank (snd p)"
  by (cases "(Q, astime, p, s)" rule: save_next.cases)
    (auto simp: Let_def split: option.splits sum.splits if_splits prod.splits)

lemma ranks_advance:
  assumes "pool_advance (save_next Q astime) (save_guard Q) i (s, ps) = Some (s', ps')"
  shows "ranks ps' < ranks ps \<and> length ps' = length ps"
proof -
  obtain p' where i: "i < length ps" and step: "save_next Q astime (snd (ps ! i)) s = Some (s', p')"
    and ps': "ps' = ps[i := (fst (ps ! i), p')]"
    using assms by (auto simp: pool_advance_def split: if_splits)
  have "ranks ps' + save_rank (snd (snd (ps ! i))) = ranks ps + save_rank (snd p')"
    using i sum_list_update[of i "map (save_rank \<circ> snd \<circ> snd) ps" "save_rank (snd p')"]
      member_le_sum_list[of "save_rank (snd (snd (ps ! i)))" "map (save_rank \<circ> snd \<circ> snd) ps"]
    by (simp add: ranks_def ps' map_update)
  then show ?thesis using save_next_rank[OF step] ps' by simp
qed

lemma save_next_runs: "answer_of (c, d, ph) = None \<Longrightarrow> save_next Q astime (d, ph) s \<noteq> None"
  by (cases "(Q, astime, (d, ph), s)" rule: save_next.cases) (auto simp: Let_def split: option.split sum.split)

text \<open>Who waits waits for a transaction that is further on.\<close>

lemma some_save_runs:
  assumes ok: "saves_ok Q astime (s, ps)" and k: "k < length ps" "answer_of (ps ! k) = None"
  shows "\<exists>j < length ps. answer_of (ps ! j) = None \<and> save_guard Q (snd (ps ! j)) s"
proof (cases "\<exists>j < length ps. key_lock (snd (snd (ps ! j))) \<noteq> None")
  case True
  then obtain j where j: "j < length ps" "key_lock (snd (snd (ps ! j))) \<noteq> None" by blast
  obtain c F p ord ph where "ps ! j = (c, (F, p, ord), ph)" by (metis surj_pair)
  then show ?thesis using j by (cases ph) auto
next
  case False
  then have keys: "ss_keys s = {}" using locked_by_none[OF saves_ok_at(4)[OF ok k(1)]] by simp
  show ?thesis
  proof (cases "\<exists>j < length ps. row_lock (snd (snd (ps ! j))) \<noteq> None")
    case True
    then obtain j where j: "j < length ps" "row_lock (snd (snd (ps ! j))) \<noteq> None" by blast
    obtain c F p ord ph where "ps ! j = (c, (F, p, ord), ph)" by (metis surj_pair)
    then show ?thesis using j keys by (cases ph) auto
  next
    case False
    then have users: "ss_users s = {}" using locked_by_none[OF saves_ok_at(3)[OF ok k(1)]] by simp
    obtain c F p ord ph where "ps ! k = (c, (F, p, ord), ph)" by (metis surj_pair)
    then show ?thesis using k keys users by (cases ph) auto
  qed
qed

lemma schedule_ranks:
  "pool_schedule (save_next Q astime) (save_guard Q) is (s, ps) = Some (s', ps') \<Longrightarrow>
   length is + ranks ps' \<le> ranks ps \<and> length ps' = length ps"
proof (induction "is" arbitrary: s ps)
  case (Cons i "is")
  then obtain t qs where step: "pool_advance (save_next Q astime) (save_guard Q) i (s, ps) = Some (t, qs)"
    and rest: "pool_schedule (save_next Q astime) (save_guard Q) is (t, qs) = Some (s', ps')"
    by (auto simp: bind_eq_Some_conv)
  show ?case using Cons.IH[OF rest] ranks_advance[OF step] by simp
qed simp

lemma ranks_bound: "ranks ps \<le> 4 * length ps"
proof (induction ps)
  case (Cons x ps)
  have "save_rank (snd (snd x)) \<le> 4" by (cases "snd (snd x)") simp_all
  then show ?case using Cons by (simp add: ranks_def)
qed (simp add: ranks_def)

lemma answered_all: "\<forall>k < length ps. answer_of (ps ! k) \<noteq> None \<Longrightarrow> size (answered ps) = length ps"
proof (induction ps)
  case (Cons x ps)
  have "answer_of x \<noteq> None" "\<forall>k < length ps. answer_of (ps ! k) \<noteq> None"
    using Cons.prems by fastforce+
  then show ?case using Cons.IH by auto
qed simp

text \<open>C33: transactions that wait for one another all end: whatever calls have been started and however
  far they are, they take at most four steps each, and when none of them can take a step every one of them
  has answered.\<close>

theorem concurrent_saves_finish:
  assumes "saves_run Q astime (idle db, []) (s, ps)"
    and "pool_schedule (save_next Q astime) (save_guard Q) is (s, ps) = Some (s', ps')"
  shows "length is \<le> 4 * length ps \<and>
    ((\<forall>i. pool_advance (save_next Q astime) (save_guard Q) i (s', ps') = None) \<longrightarrow> size (answered ps') = length ps)"
proof -
  have "saves_run Q astime (idle db, []) (s', ps')"
    using assms(1) pool_schedule_steps[OF assms(2)] by (rule rtranclp_trans)
  then have ok: "saves_ok Q astime (s', ps')" using saves_run_serial saves_ok_idle by blast
  have "size (answered ps') = length ps'" if stuck: "\<forall>i. pool_advance (save_next Q astime) (save_guard Q) i (s', ps') = None"
  proof (rule ccontr)
    assume "size (answered ps') \<noteq> length ps'"
    then obtain k where "k < length ps'" "answer_of (ps' ! k) = None" using answered_all by blast
    then obtain j where j: "j < length ps'" "answer_of (ps' ! j) = None" "save_guard Q (snd (ps' ! j)) s'"
      using some_save_runs[OF ok] by blast
    obtain c d ph where "ps' ! j = (c, d, ph)" by (metis surj_pair)
    then show False using stuck[rule_format, of j] j save_next_runs[of c d ph Q astime s'] by (auto simp: pool_advance_def)
  qed
  then show ?thesis using schedule_ranks[OF assms(2)] ranks_bound[of ps] by auto
qed

theorem concurrent_saves_finish_witness:
  "\<exists>c. pool_schedule (save_next wit_sql id) (save_guard wit_sql) [0, 1, 0, 0, 0, 1, 1] (idle wit_db, wit_saves) = Some c \<and>
     (7::nat) \<le> 4 * 2 \<and> size (answered (snd c)) = 2"
proof -
  obtain s ps e where run: "pool_schedule (save_next wit_sql id) (save_guard wit_sql) [0, 1, 0, 0, 0, 1, 1] (idle wit_db, wit_saves) = Some (s, ps)"
    and out: "answered ps = {#(fst (wit_saves ! 0), Inr ()), (fst (wit_saves ! 1), Inl e)#}"
    using wit_schedule by fastforce
  have "saves_run wit_sql id (idle wit_db, []) (idle wit_db, wit_saves)" by (rule pool_spawn_two)
  from concurrent_saves_finish[OF this run] show ?thesis using run out by (intro exI[of _ "(s, ps)"]) simp
qed

end
