(* ===== verification/Shutdown.thy ===== *)
theory Shutdown
  imports Errors
begin

text \<open>
  Graceful shutdown (\<open>shared/shutdown/shutdown.go\<close>): the handler with its \<open>sync.Once\<close>, the closing of
  the registered resources against the clock, and the step relation of the calls that
  other goroutines make. A closer runs in a goroutine of its own: for a while, or for ever.
\<close>

section \<open>The handler\<close>

text \<open>A \<open>sync.Once\<close>: not used, in use by a caller for whom others wait, or over.\<close>

datatype once = Fresh | Busy | Over

text \<open>\<open>cl_takes\<close>: how long \<open>Close\<close> takes, \<open>None\<close> when it never returns. Its error, or panic, is made
  into an error value that is dropped.\<close>

record closer =
  cl_name :: string
  cl_takes :: "duration option"

text \<open>\<open>sd_blocked\<close>: the callers that wait for the once. \<open>sd_closed\<close>: what \<open>doShutdown\<close> started, and when.\<close>

record shutdown_handler =
  sd_cancelled :: bool
  sd_timeout :: duration
  sd_closers :: "closer list"
  sd_shutdown :: bool
  sd_once :: once
  sd_blocked :: nat
  sd_closed :: "(string \<times> time) list option"

definition sd_New :: "duration \<Rightarrow> shutdown_handler" where
  "sd_New timeout =
     \<lparr>sd_cancelled = False, sd_timeout = (if timeout \<le> 0 then 30 * second else timeout), sd_closers = [],
      sd_shutdown = False, sd_once = Fresh, sd_blocked = 0, sd_closed = None\<rparr>"

definition sd_Register :: "closer option \<Rightarrow> shutdown_handler \<Rightarrow> shutdown_handler" where
  "sd_Register c s =
     (case c of None \<Rightarrow> s | Some c \<Rightarrow> if sd_shutdown s then s else s\<lparr>sd_closers := sd_closers s @ [c]\<rparr>)"

definition sd_RegisterFunc :: "closer option \<Rightarrow> shutdown_handler \<Rightarrow> shutdown_handler" where
  "sd_RegisterFunc f s = (case f of None \<Rightarrow> s | Some c \<Rightarrow> sd_Register (Some c) s)"

definition sd_IsShuttingDown :: "shutdown_handler \<Rightarrow> bool" where
  "sd_IsShuttingDown s = sd_shutdown s"

section \<open>Closing\<close>

text \<open>A closer that was started is waited for until its time, the deadline, or its own end.\<close>

definition waited :: "duration \<Rightarrow> time \<Rightarrow> time \<Rightarrow> closer \<Rightarrow> time" where
  "waited per deadline now c =
     (let limit = max now (min (now + per) deadline)
      in case cl_takes c of None \<Rightarrow> limit | Some d \<Rightarrow> min (now + d) limit)"

fun close_each :: "duration \<Rightarrow> time \<Rightarrow> time \<Rightarrow> closer list \<Rightarrow> time \<times> (closer \<times> time) list" where
  "close_each per deadline now [] = (now, [])"
| "close_each per deadline now (c # cs) =
     (case close_each per deadline (waited per deadline now c) cs of (t, starts) \<Rightarrow> (t, (c, now) # starts))"

text \<open>When all goroutines are done, if they ever are.\<close>

fun all_done :: "time \<Rightarrow> (closer \<times> time) list \<Rightarrow> time option" where
  "all_done t [] = Some t"
| "all_done t ((c, start) # rest) =
     (case cl_takes c of None \<Rightarrow> None | Some d \<Rightarrow> all_done (max t (start + d)) rest)"

definition per_resource :: "duration \<Rightarrow> duration" where
  "per_resource timeout = (if timeout div 10 < second then second else timeout div 10)"

text \<open>\<open>tie\<close>: which branch of the last select runs when both are ready at once. The result is the time of the return, what
  was started, and the error.\<close>

definition doShutdown :: "bool \<Rightarrow> time \<Rightarrow> duration \<Rightarrow> closer list \<Rightarrow> time \<times> (string \<times> time) list \<times> err option" where
  "doShutdown tie now timeout closers =
     (let deadline = now + timeout
      in case close_each (per_resource timeout) deadline now (rev closers) of
        (t, starts) \<Rightarrow>
          (case all_done t starts of
             Some d \<Rightarrow>
               if d < deadline \<or> d = deadline \<and> tie then (d, map (apfst cl_name) starts, None)
               else (max t deadline, map (apfst cl_name) starts,
                 Some (Errorf ''shutdown timeout: some goroutines did not finish in time''))
           | None \<Rightarrow> (max t deadline, map (apfst cl_name) starts,
                 Some (Errorf ''shutdown timeout: some goroutines did not finish in time''))))"

section \<open>Calls\<close>

datatype call = Returns "err option" | Waits | Blocks

text \<open>\<open>Run\<close> up to its select: the flag is set before any signal has come.\<close>

definition sd_Run :: "shutdown_handler \<Rightarrow> shutdown_handler \<times> call" where
  "sd_Run s =
     (case sd_once s of
        Fresh \<Rightarrow> (s\<lparr>sd_once := Busy, sd_shutdown := True\<rparr>, Waits)
      | Busy \<Rightarrow> (s\<lparr>sd_blocked := Suc (sd_blocked s)\<rparr>, Blocks)
      | Over \<Rightarrow> (s, Returns None))"

text \<open>\<open>Run\<close> after its select: the callers that waited for the once return.\<close>

definition sd_wake :: "bool \<Rightarrow> time \<Rightarrow> shutdown_handler \<Rightarrow> shutdown_handler \<times> time \<times> err option" where
  "sd_wake tie now s =
     (case doShutdown tie now (sd_timeout s) (sd_closers s) of
        (t, closed, runErr) \<Rightarrow>
          (s\<lparr>sd_cancelled := True, sd_closed := Some closed, sd_once := Over, sd_blocked := 0\<rparr>, t, runErr))"

definition sd_Trigger :: "shutdown_handler \<Rightarrow> shutdown_handler \<times> call" where
  "sd_Trigger s =
     (case sd_once s of
        Fresh \<Rightarrow> (s\<lparr>sd_shutdown := True, sd_cancelled := True, sd_once := Over\<rparr>, Returns None)
      | Busy \<Rightarrow> (s\<lparr>sd_blocked := Suc (sd_blocked s)\<rparr>, Blocks)
      | Over \<Rightarrow> (s, Returns None))"

text \<open>What the goroutines of a process may do, in any order: a signal, or the end of the handler's own
  context, wakes the one that waits in \<open>Run\<close>.\<close>

inductive sd_step :: "shutdown_handler \<Rightarrow> shutdown_handler \<Rightarrow> bool" where
  register: "sd_step s (sd_Register c s)"
| register_func: "sd_step s (sd_RegisterFunc c s)"
| run: "sd_step s (fst (sd_Run s))"
| trigger: "sd_step s (fst (sd_Trigger s))"
| got_signal: "sd_once s = Busy \<Longrightarrow> sd_step s (fst (sd_wake tie now s))"
| ctx_done: "sd_once s = Busy \<Longrightarrow> sd_cancelled s \<Longrightarrow> sd_step s (fst (sd_wake tie now s))"

lemmas sd_defs = sd_Register_def sd_RegisterFunc_def sd_Run_def sd_Trigger_def sd_wake_def

section \<open>Properties\<close>

text \<open>The context of the handler ends only with its once.\<close>

definition sd_inv :: "shutdown_handler \<Rightarrow> bool" where
  "sd_inv s \<longleftrightarrow> sd_timeout s > 0 \<and> (sd_cancelled s \<longleftrightarrow> sd_once s = Over) \<and> (sd_closed s \<noteq> None \<longrightarrow> sd_once s = Over) \<and>
     (sd_shutdown s \<longleftrightarrow> sd_once s \<noteq> Fresh) \<and> (sd_blocked s > 0 \<longrightarrow> sd_once s = Busy)"

lemma sd_inv_New: "sd_inv (sd_New t)"
  by (simp add: sd_inv_def sd_New_def)

lemma sd_inv_step: "sd_step s s' \<Longrightarrow> sd_inv s \<Longrightarrow> sd_inv s'"
  by (induction rule: sd_step.induct) (auto simp: sd_inv_def sd_defs split: option.splits once.splits prod.splits)

lemma sd_inv_steps: "sd_step\<^sup>*\<^sup>* s s' \<Longrightarrow> sd_inv s \<Longrightarrow> sd_inv s'"
  by (induction rule: rtranclp_induct) (simp_all add: sd_inv_step)

text \<open>Once it is over nothing is closed any more, and nothing registered.\<close>

lemma over_stays:
  "sd_step s s' \<Longrightarrow> sd_once s = Over \<Longrightarrow> sd_shutdown s \<Longrightarrow>
   sd_once s' = Over \<and> sd_shutdown s' \<and> sd_closed s' = sd_closed s \<and> sd_closers s' = sd_closers s"
  by (induction rule: sd_step.induct) (auto simp: sd_defs split: option.splits)

lemma over_stays_on:
  assumes "sd_step\<^sup>*\<^sup>* s s'" and "sd_once s = Over" and "sd_shutdown s"
  shows "sd_once s' = Over \<and> sd_shutdown s' \<and> sd_closed s' = sd_closed s \<and> sd_closers s' = sd_closers s"
  using assms by (induction rule: rtranclp_induct) (auto dest: over_stays)

text \<open>\<open>Trigger\<close> never makes the handler close anything. Called first it uses up the once, and no
  later \<open>Run\<close> closes a resource; called while \<open>Run\<close> waits it blocks and leaves the context alone, so that only a signal
  wakes \<open>Run\<close>, whose branch for a cancelled context is dead.\<close>

lemma trigger_never_closes:
  assumes "sd_step\<^sup>*\<^sup>* (sd_New timeout) s"
  shows "(sd_once s = Busy \<longrightarrow> \<not> sd_cancelled s \<and> snd (sd_Trigger s) = Blocks \<and> \<not> sd_cancelled (fst (sd_Trigger s))) \<and>
    (sd_once s = Fresh \<longrightarrow> (\<forall>s'. sd_step\<^sup>*\<^sup>* (fst (sd_Trigger s)) s' \<longrightarrow> sd_closed s' = None \<and> snd (sd_Run s') = Returns None))"
proof -
  have inv: "sd_inv s" by (rule sd_inv_steps[OF assms sd_inv_New])
  show ?thesis
  proof (intro conjI impI allI)
    fix s' assume fresh: "sd_once s = Fresh" and run: "sd_step\<^sup>*\<^sup>* (fst (sd_Trigger s)) s'"
    have "sd_closed s = None" using inv fresh by (auto simp: sd_inv_def)
    then have "sd_once s' = Over" "sd_closed s' = None" using over_stays_on[OF run] fresh by (simp_all add: sd_Trigger_def)
    then show "sd_closed s' = None" "snd (sd_Run s') = Returns None" by (simp_all add: sd_Run_def)
  qed (use inv in \<open>simp_all add: sd_inv_def sd_Trigger_def\<close>)
qed

lemma trigger_never_closes_witness:
  "sd_closed (fst (sd_Run (fst (sd_Trigger (sd_Register (Some \<lparr>cl_name = ''db'', cl_takes = Some 1\<rparr>) (sd_New 0)))))) = None"
proof -
  let ?s = "sd_Register (Some \<lparr>cl_name = ''db'', cl_takes = Some 1\<rparr>) (sd_New 0)"
  have "sd_step\<^sup>*\<^sup>* (sd_New 0) ?s" by (intro r_into_rtranclp sd_step.register)
  note never = trigger_never_closes[OF this, THEN conjunct2]
  have "sd_once ?s = Fresh" by (simp add: sd_Register_def sd_New_def)
  moreover have "sd_step\<^sup>*\<^sup>* (fst (sd_Trigger ?s)) (fst (sd_Run (fst (sd_Trigger ?s))))" by (intro r_into_rtranclp sd_step.run)
  ultimately show ?thesis using never by blast
qed

lemma waited_between: "now \<le> deadline \<Longrightarrow> 0 \<le> per \<Longrightarrow> (\<forall>d. cl_takes c = Some d \<longrightarrow> 0 \<le> d) \<Longrightarrow>
  now \<le> waited per deadline now c \<and> waited per deadline now c \<le> deadline \<and> waited per deadline now c \<le> now + per"
  by (auto simp: waited_def Let_def split: option.split)

lemma close_each_bounds:
  assumes "now \<le> deadline" and "0 \<le> per" and "\<forall>c \<in> set cs. \<forall>d. cl_takes c = Some d \<longrightarrow> 0 \<le> d"
    and "close_each per deadline now cs = (t, starts)"
  shows "now \<le> t \<and> t \<le> deadline \<and> map fst starts = cs \<and>
    (\<forall>k < length starts. now \<le> snd (starts ! k) \<and> snd (starts ! k) \<le> now + int k * per)"
  using assms
proof (induction cs arbitrary: now t starts)
  case (Cons c cs)
  let ?w = "waited per deadline now c"
  obtain rest where rest: "close_each per deadline ?w cs = (t, rest)" "starts = (c, now) # rest"
    using Cons.prems(4) by (auto split: prod.splits)
  have w: "now \<le> ?w" "?w \<le> deadline" "?w \<le> now + per" using waited_between[of now deadline per c] Cons.prems by auto
  have ih: "?w \<le> t \<and> t \<le> deadline \<and> map fst rest = cs \<and>
      (\<forall>k < length rest. ?w \<le> snd (rest ! k) \<and> snd (rest ! k) \<le> ?w + int k * per)"
    using Cons.IH[OF w(2) Cons.prems(2) _ rest(1)] Cons.prems(3) by simp
  have "now \<le> snd (starts ! k) \<and> snd (starts ! k) \<le> now + int k * per" if "k < length starts" for k
  proof (cases k)
    case (Suc j)
    then have "?w \<le> snd (rest ! j)" "snd (rest ! j) \<le> ?w + int j * per" using ih that rest(2) by auto
    then show ?thesis using w Suc rest(2) by (simp add: algebra_simps)
  qed (simp add: rest(2))
  then show ?case using ih w rest(2) by auto
qed simp

text \<open>Whether a closer that was started at a time is done by another.\<close>

definition done_by :: "time \<Rightarrow> closer \<times> time \<Rightarrow> bool" where
  "done_by t e \<longleftrightarrow> (case cl_takes (fst e) of None \<Rightarrow> False | Some d \<Rightarrow> snd e + d \<le> t)"

lemma all_done_le:
  "(\<exists>d. all_done t starts = Some d \<and> d \<le> b) \<longleftrightarrow> t \<le> b \<and> (\<forall>e \<in> set starts. done_by b e)"
  by (induction t starts rule: all_done.induct) (auto simp: done_by_def split: option.splits)

lemma all_done_ge: "all_done t starts = Some d \<Longrightarrow> t \<le> d"
  by (induction t starts rule: all_done.induct) (auto split: option.splits)

lemma doShutdown_result:
  assumes "0 \<le> timeout" and "\<forall>c \<in> set closers. \<forall>d. cl_takes c = Some d \<longrightarrow> 0 \<le> d"
    and "doShutdown tie now timeout closers = (t, closed, e)"
  shows "now \<le> t \<and> t \<le> now + timeout \<and> (\<exists>starts. closed = map (apfst cl_name) starts \<and> map fst starts = rev closers \<and>
    (\<forall>k < length starts. now \<le> snd (starts ! k) \<and> snd (starts ! k) \<le> now + int k * per_resource timeout) \<and>
    (e = None \<longrightarrow> (\<forall>x \<in> set starts. done_by (now + timeout) x)))"
proof -
  let ?deadline = "now + timeout"
  obtain u starts where ce: "close_each (per_resource timeout) ?deadline now (rev closers) = (u, starts)" by fastforce
  have b: "now \<le> u" "u \<le> ?deadline" "map fst starts = rev closers"
    "\<forall>k < length starts. now \<le> snd (starts ! k) \<and> snd (starts ! k) \<le> now + int k * per_resource timeout"
    using close_each_bounds[OF _ _ _ ce] assms(1,2) by (auto simp: per_resource_def second_def)
  let ?ok = "\<exists>d. all_done u starts = Some d \<and> (d < ?deadline \<or> d = ?deadline \<and> tie)"
  have eq: "(t, closed, e) = (case all_done u starts of
      Some d \<Rightarrow> if d < ?deadline \<or> d = ?deadline \<and> tie then (d, map (apfst cl_name) starts, None)
        else (max u ?deadline, map (apfst cl_name) starts, Some (Errorf ''shutdown timeout: some goroutines did not finish in time''))
    | None \<Rightarrow> (max u ?deadline, map (apfst cl_name) starts, Some (Errorf ''shutdown timeout: some goroutines did not finish in time'')))"
    unfolding assms(3)[symmetric] by (simp add: doShutdown_def Let_def ce)
  show ?thesis
  proof (cases ?ok)
    case True
    then obtain d where d: "all_done u starts = Some d" "d < ?deadline \<or> d = ?deadline \<and> tie" by blast
    have r: "t = d" "closed = map (apfst cl_name) starts" "e = None"
      using eq unfolding d(1) option.case if_P[OF d(2)] by simp_all
    have "d \<le> ?deadline" using d(2) by linarith
    then have "\<forall>x \<in> set starts. done_by ?deadline x" using all_done_le[of u starts ?deadline] d(1) by blast
    moreover have "now \<le> t" "t \<le> now + timeout" using all_done_ge[OF d(1)] b(1) r(1) \<open>d \<le> ?deadline\<close> by simp_all
    ultimately show ?thesis using b(3,4) r(2) by blast
  next
    case False
    then have r: "t = max u ?deadline" "closed = map (apfst cl_name) starts" "e \<noteq> None"
      using eq by (auto split: option.splits if_splits simp del: max.absorb1 max.absorb2)
    have "t = ?deadline" using r(1) b(2) by simp
    then have "now \<le> t" "t \<le> now + timeout" using assms(1) by simp_all
    then show ?thesis using b(3,4) r(2,3) by blast
  qed
qed

text \<open>C36: in any process, once a signal has come, \<open>Run\<close> returns by the timeout whatever the closers do, even those
  that never return: every resource registered before \<open>Run\<close> is closed, in the reverse order, the k-th at most
  k resource timeouts after the signal; nobody is left waiting for the once. A result without error means that all were closed in time.\<close>

theorem shutdown_completes:
  assumes "sd_step\<^sup>*\<^sup>* (sd_New timeout) s" and "sd_once s = Busy"
    and "\<forall>c \<in> set (sd_closers s). \<forall>d. cl_takes c = Some d \<longrightarrow> 0 \<le> d"
  shows "\<exists>s' t e starts. sd_wake tie now s = (s', t, e) \<and> now \<le> t \<and> t \<le> now + sd_timeout s \<and>
    sd_once s' = Over \<and> sd_blocked s' = 0 \<and> sd_cancelled s' \<and> sd_closed s' = Some (map (apfst cl_name) starts) \<and>
    map fst starts = rev (sd_closers s) \<and>
    (\<forall>k < length starts. snd (starts ! k) \<le> now + int k * per_resource (sd_timeout s)) \<and>
    (e = None \<longrightarrow> (\<forall>x \<in> set starts. done_by (now + sd_timeout s) x))"
proof -
  have "0 \<le> sd_timeout s" using sd_inv_steps[OF assms(1) sd_inv_New] by (simp add: sd_inv_def)
  moreover obtain t closed e where run: "doShutdown tie now (sd_timeout s) (sd_closers s) = (t, closed, e)" by (cases "doShutdown tie now (sd_timeout s) (sd_closers s)")
  ultimately obtain starts where "now \<le> t" "t \<le> now + sd_timeout s" "closed = map (apfst cl_name) starts" "map fst starts = rev (sd_closers s)"
    "\<forall>k < length starts. snd (starts ! k) \<le> now + int k * per_resource (sd_timeout s)"
    "e = None \<longrightarrow> (\<forall>x \<in> set starts. done_by (now + sd_timeout s) x)"
    using doShutdown_result[OF _ assms(3) run] by blast
  then show ?thesis using run by (intro exI[of _ "fst (sd_wake tie now s)"] exI[of _ t] exI[of _ e] exI[of _ starts]) (simp add: sd_wake_def)
qed

theorem shutdown_completes_witness:
  "\<exists>t e. sd_wake True 5 (fst (sd_Run (sd_Register (Some \<lparr>cl_name = ''stuck'', cl_takes = None\<rparr>) (sd_New 0)))) =
     (fst (sd_wake True 5 (fst (sd_Run (sd_Register (Some \<lparr>cl_name = ''stuck'', cl_takes = None\<rparr>) (sd_New 0))))), t, e) \<and>
     t \<le> 5 + 30 * second"
proof -
  let ?r = "sd_Register (Some \<lparr>cl_name = ''stuck'', cl_takes = None\<rparr>) (sd_New 0)"
  have "sd_step\<^sup>*\<^sup>* (sd_New 0) (fst (sd_Run ?r))"
    by (meson sd_step.register sd_step.run converse_rtranclp_into_rtranclp r_into_rtranclp)
  moreover have "sd_once (fst (sd_Run ?r)) = Busy" "sd_timeout (fst (sd_Run ?r)) = 30 * second"
    "\<forall>c \<in> set (sd_closers (fst (sd_Run ?r))). \<forall>d. cl_takes c = Some d \<longrightarrow> 0 \<le> d"
    by (simp_all add: sd_defs sd_New_def)
  ultimately show ?thesis using shutdown_completes[of 0 "fst (sd_Run ?r)" True 5] by (metis fst_conv)
qed

end
