(* ===== verification/Redis_Cache.thy ===== *)
theory Redis_Cache
  imports Spot_Props Idempotency
begin

text \<open>
  The Redis adapter of the cache port (\<open>shared/adapters/redis_cache.go\<close>), which puts a prefix before every key,
  and the choice of a cache in \<open>spot-service/internal/di/module.go\<close>. The Redis client is a
  parameter; what is relied on of it is the locale \<open>redis_server\<close>, and a keyspace with the
  documented behaviour of GET, SET and DEL interprets it.
\<close>

section \<open>The adapter\<close>

datatype redis_reply = RedisNil | RedisErr err | RedisVal bytes

record 's redis_client =
  rd_Get :: "poll \<Rightarrow> time \<Rightarrow> string \<Rightarrow> 's \<Rightarrow> 's \<times> redis_reply"
  rd_Set :: "poll \<Rightarrow> time \<Rightarrow> string \<Rightarrow> bytes \<Rightarrow> duration \<Rightarrow> 's \<Rightarrow> 's \<times> unit result"
  rd_Del :: "poll \<Rightarrow> string \<Rightarrow> 's \<Rightarrow> 's \<times> unit result"

definition redis_key :: "string \<Rightarrow> string \<Rightarrow> string" where
  "redis_key prefix k = (if prefix = '''' then k else prefix @ '':'' @ k)"

definition redis_Get :: "'s redis_client \<Rightarrow> string \<Rightarrow> poll \<Rightarrow> time \<Rightarrow> string \<Rightarrow> 's \<Rightarrow> 's \<times> bytes option result" where
  "redis_Get R prefix p now key s =
     (case rd_Get R p now (redis_key prefix key) s of
        (s', RedisNil) \<Rightarrow> (s', Inr None)
      | (s', RedisErr e) \<Rightarrow> (s', Inl e)
      | (s', RedisVal val) \<Rightarrow> (s', Inr (Some val)))"

definition redis_Set :: "'s redis_client \<Rightarrow> string \<Rightarrow> poll \<Rightarrow> time \<Rightarrow> string \<Rightarrow> bytes \<Rightarrow> int \<Rightarrow> 's \<Rightarrow> 's \<times> unit result" where
  "redis_Set R prefix p now key value ttlSeconds s =
     rd_Set R p now (redis_key prefix key) value (wrap64 (ttlSeconds * second)) s"

definition redis_Delete :: "'s redis_client \<Rightarrow> string \<Rightarrow> poll \<Rightarrow> string \<Rightarrow> 's \<Rightarrow> 's \<times> unit result" where
  "redis_Delete R prefix p key s = rd_Del R p (redis_key prefix key) s"

definition redis_ops :: "'s redis_client \<Rightarrow> string \<Rightarrow> 's cache_ops" where
  "redis_ops R prefix = \<lparr>c_Get = redis_Get R prefix, c_Set = redis_Set R prefix, c_Delete = redis_Delete R prefix\<rparr>"

lemma redis_ops_simps [simp]:
  "c_Get (redis_ops R prefix) = redis_Get R prefix" "c_Set (redis_ops R prefix) = redis_Set R prefix"
  "c_Delete (redis_ops R prefix) = redis_Delete R prefix"
  by (simp_all add: redis_ops_def)

lemma redis_Get_state [simp]: "fst (redis_Get R prefix p now k s) = fst (rd_Get R p now (redis_key prefix k) s)"
  by (simp add: redis_Get_def split: prod.split redis_reply.split)

section \<open>The server\<close>

text \<open>What a Redis server documents: a read answers what is held, a write that fails may have taken
  effect, and no command gives another key a value. Values may disappear: they expire or are evicted.\<close>

locale redis_server =
  fixes R :: "'s redis_client"
    and held :: "time \<Rightarrow> 's \<Rightarrow> string \<Rightarrow> bytes option"
    and rinv :: "'s \<Rightarrow> bool"
  assumes reply_val: "rinv s \<Longrightarrow> snd (rd_Get R p now k s) = RedisVal v \<Longrightarrow> held now s k = Some v"
    and reply_nil: "rinv s \<Longrightarrow> snd (rd_Get R p now k s) = RedisNil \<Longrightarrow> held now s k = None"
    and get_inv: "rinv s \<Longrightarrow> rinv (fst (rd_Get R p now k s))"
    and set_inv: "rinv s \<Longrightarrow> rinv (fst (rd_Set R p now k v d s))"
    and del_inv: "rinv s \<Longrightarrow> rinv (fst (rd_Del R p k s))"
    and get_held: "rinv s \<Longrightarrow> held t (fst (rd_Get R p now k s)) j = Some w \<Longrightarrow> held t s j = Some w"
    and set_held: "rinv s \<Longrightarrow> held t (fst (rd_Set R p now k v d s)) j = Some w \<Longrightarrow> j = k \<and> w = v \<or> held t s j = Some w"
    and del_held: "rinv s \<Longrightarrow> held t (fst (rd_Del R p k s)) j = Some w \<Longrightarrow> held t s j = Some w"
begin

text \<open>What an adapter sees of the keyspace.\<close>

definition seen :: "string \<Rightarrow> time \<Rightarrow> 's \<Rightarrow> string \<Rightarrow> bytes option" where
  "seen prefix t s k = held t s (redis_key prefix k)"

end

lemma redis_key_inj [simp]: "redis_key prefix j = redis_key prefix k \<longleftrightarrow> j = k"
  by (simp add: redis_key_def)

sublocale redis_server \<subseteq> adapter: cache_port "redis_ops R prefix" "seen prefix" rinv for prefix
proof (unfold_locales, goal_cases)
  case (1 s p now k r)
  then show ?case using reply_val[of s p now "redis_key prefix k"] reply_nil[of s p now "redis_key prefix k"]
    by (auto simp: redis_Get_def seen_def split: prod.splits redis_reply.splits)
next
  case (2 s p now k)
  then show ?case by (simp add: get_inv)
next
  case (3 s p now k v ttl)
  then show ?case by (simp add: redis_Set_def set_inv)
next
  case (4 s p k)
  then show ?case by (simp add: redis_Delete_def del_inv)
next
  case (5 s t p now k j w)
  then show ?case using get_held[of s t p now "redis_key prefix k" "redis_key prefix j" w]
    by (simp add: seen_def)
next
  case (6 s t p now k v ttl j w)
  then show ?case using set_held[of s t p now "redis_key prefix k"] by (fastforce simp: redis_Set_def seen_def)
next
  case (7 s t p k j w)
  then show ?case using del_held[of s t p "redis_key prefix k"] by (simp add: redis_Delete_def seen_def)
qed

section \<open>Prefixes\<close>

definition plain_prefix :: "string \<Rightarrow> bool" where
  "plain_prefix p \<longleftrightarrow> p \<noteq> '''' \<and> CHR '':'' \<notin> set p"

text \<open>Prefixes without a colon are told apart by the first one.\<close>

lemma redis_key_plain:
  assumes "plain_prefix p" and "plain_prefix q"
  shows "redis_key p j = redis_key q k \<longleftrightarrow> p = q \<and> j = k"
proof -
  have "takeWhile (\<lambda>c. c \<noteq> CHR '':'') (redis_key r i) = r" if "plain_prefix r" for r i
    using that by (subst redis_key_def, subst if_not_P, simp add: plain_prefix_def, subst takeWhile_append2) (auto simp: plain_prefix_def)
  then show ?thesis using assms by (metis redis_key_inj)
qed

context redis_server
begin

lemma other_prefix:
  assumes "rinv s" and "plain_prefix p" and "plain_prefix q" and "p \<noteq> q"
  shows "seen q t (fst (redis_Get R p po now k s)) j = Some w \<Longrightarrow> seen q t s j = Some w"
    and "seen q t (fst (redis_Set R p po now k v ttl s)) j = Some w \<Longrightarrow> seen q t s j = Some w"
    and "seen q t (fst (redis_Delete R p po k s)) j = Some w \<Longrightarrow> seen q t s j = Some w"
proof -
  have ne: "redis_key q j \<noteq> redis_key p k" using redis_key_plain[OF assms(3,2)] assms(4) by simp
  show "seen q t (fst (redis_Get R p po now k s)) j = Some w \<Longrightarrow> seen q t s j = Some w"
    using get_held[OF assms(1), of t po now "redis_key p k" "redis_key q j" w]
    by (simp add: seen_def)
  show "seen q t (fst (redis_Set R p po now k v ttl s)) j = Some w \<Longrightarrow> seen q t s j = Some w"
    using set_held[OF assms(1), of t po now "redis_key p k" v _ "redis_key q j" w] ne by (auto simp: redis_Set_def seen_def)
  show "seen q t (fst (redis_Delete R p po k s)) j = Some w \<Longrightarrow> seen q t s j = Some w"
    using del_held[OF assms(1), of t po "redis_key p k" "redis_key q j" w] by (simp add: redis_Delete_def seen_def)
qed

lemma other_prefix_inv:
  assumes "rinv s"
  shows "rinv (fst (redis_Get R p po now k s))" "rinv (fst (redis_Set R p po now k v ttl s))" "rinv (fst (redis_Delete R p po k s))"
  using adapter.get_inv[OF assms, of p po now k] adapter.set_inv[OF assms, of p po now k v ttl] adapter.del_inv[OF assms, of p po k]
  by simp_all

end

section \<open>Several services on one server\<close>

text \<open>What others do to the server through adapters of their own, between the calls of the spot service.\<close>

datatype redis_op =
  ROpGet string poll time string | ROpSet string poll time string bytes int | ROpDel string poll string

fun redis_exec :: "'s redis_client \<Rightarrow> redis_op \<Rightarrow> 's \<Rightarrow> 's" where
  "redis_exec R (ROpGet p po now k) s = fst (redis_Get R p po now k s)"
| "redis_exec R (ROpSet p po now k v ttl) s = fst (redis_Set R p po now k v ttl s)"
| "redis_exec R (ROpDel p po k) s = fst (redis_Delete R p po k s)"

fun rop_prefix :: "redis_op \<Rightarrow> string" where
  "rop_prefix (ROpGet p po now k) = p"
| "rop_prefix (ROpSet p po now k v ttl) = p"
| "rop_prefix (ROpDel p po k) = p"

context redis_server
begin

lemma others_agree:
  assumes "rinv s" and "adapter.agrees q dec S s" and "plain_prefix q" and "plain_prefix (rop_prefix op)" and "rop_prefix op \<noteq> q"
  shows "rinv (redis_exec R op s) \<and> adapter.agrees q dec S (redis_exec R op s)"
proof (cases op)
  case (ROpGet p po now k)
  then show ?thesis using assms other_prefix(1)[OF assms(1)] other_prefix_inv(1)[OF assms(1)]
    unfolding adapter.agrees_def by (simp del: redis_Get_state) metis
next
  case (ROpSet p po now k v ttl)
  then show ?thesis using assms other_prefix(2)[OF assms(1)] other_prefix_inv(2)[OF assms(1)]
    unfolding adapter.agrees_def by simp metis
next
  case (ROpDel p po k)
  then show ?thesis using assms other_prefix(3)[OF assms(1)] other_prefix_inv(3)[OF assms(1)]
    unfolding adapter.agrees_def by simp metis
qed

end

section \<open>A keyspace\<close>

text \<open>The documented commands over one keyspace: a positive expiration sets the end of the key, \<open>KeepTTL\<close>
  (-1) keeps the one it has, any other clears it.\<close>

type_synonym keyspace = "(string, bytes \<times> time option) gomap"

definition ks_held :: "time \<Rightarrow> keyspace \<Rightarrow> string \<Rightarrow> bytes option" where
  "ks_held t ks k =
     (case gm_get ks k of
        None \<Rightarrow> None
      | Some (v, None) \<Rightarrow> Some v
      | Some (v, Some e) \<Rightarrow> if t \<ge> e then None else Some v)"

definition ks_expiry :: "time \<Rightarrow> duration \<Rightarrow> string \<Rightarrow> keyspace \<Rightarrow> time option" where
  "ks_expiry now d k ks =
     (if d > 0 then Some (now + d) else if d = -1 then Option.bind (gm_get ks k) snd else None)"

definition ks_client :: "keyspace redis_client" where
  "ks_client =
     \<lparr>rd_Get = (\<lambda>p now k ks. case p of Some e \<Rightarrow> (ks, RedisErr (CtxErr e)) | None \<Rightarrow>
        (ks, case ks_held now ks k of None \<Rightarrow> RedisNil | Some v \<Rightarrow> RedisVal v)),
      rd_Set = (\<lambda>p now k v d ks. case p of Some e \<Rightarrow> (ks, Inl (CtxErr e)) | None \<Rightarrow> (gm_put k (v, ks_expiry now d k ks) ks, Inr ())),
      rd_Del = (\<lambda>p k ks. case p of Some e \<Rightarrow> (ks, Inl (CtxErr e)) | None \<Rightarrow> (gm_del k ks, Inr ()))\<rparr>"

interpretation keyspace: redis_server ks_client ks_held gm_ok
  by unfold_locales (auto simp: ks_client_def ks_held_def split: option.splits if_splits)

text \<open>With a colon in a prefix two adapters can mean the same key.\<close>

lemma redis_prefix_clash: "redis_key ''a'' ''b:c'' = redis_key ''a:b'' ''c''"
  by (simp add: redis_key_def)

section \<open>The choice of a cache\<close>

text \<open>\<open>getenv\<close> is the environment, \<open>atoi\<close> is \<open>strconv.Atoi\<close>, \<open>ping\<close> whether a server answers. The LRU cache has 1000 entries.\<close>

datatype cache_choice = UseLRU nat | UseRedis string string int string

definition provide_cache ::
  "(string \<Rightarrow> string) \<Rightarrow> (string \<Rightarrow> int option) \<Rightarrow> (string \<Rightarrow> string \<Rightarrow> int \<Rightarrow> bool) \<Rightarrow> cache_choice"
where
  "provide_cache getenv atoi ping =
     (if getenv ''USE_REDIS'' \<noteq> ''true'' then UseLRU 1000
      else
        let redisAddr = (if getenv ''REDIS_ADDR'' = '''' then ''127.0.0.1:6379'' else getenv ''REDIS_ADDR'');
            redisPassword = getenv ''REDIS_PASSWORD'';
            redisDB = (if getenv ''REDIS_DB'' \<noteq> '''' then case atoi (getenv ''REDIS_DB'') of Some db \<Rightarrow> db | None \<Rightarrow> 0 else 0)
        in if ping redisAddr redisPassword redisDB then UseRedis redisAddr redisPassword redisDB ''spot'' else UseLRU 1000)"

text \<open>The service starts whether or not a server answers.\<close>

lemma provide_cache_cases:
  "provide_cache getenv atoi ping = UseLRU 1000 \<or> (\<exists>addr pw db. provide_cache getenv atoi ping = UseRedis addr pw db ''spot'' \<and> ping addr pw db)"
  by (simp add: provide_cache_def Let_def)

text \<open>The idempotency store of the order service (\<open>order-service/internal/di/module.go\<close>): here an unreachable server is an
  error, and the environment is read with defaults. \<open>ping\<close> is the error of connecting.\<close>

definition getEnv :: "(string \<Rightarrow> string) \<Rightarrow> string \<Rightarrow> string \<Rightarrow> string" where
  "getEnv getenv key def = (if getenv key \<noteq> '''' then getenv key else def)"

datatype idem_choice = MemoryStore idem_store | RedisStore string string int string

definition provide_idempotency ::
  "(string \<Rightarrow> string) \<Rightarrow> (string \<Rightarrow> string \<Rightarrow> int \<Rightarrow> err option) \<Rightarrow> duration \<Rightarrow> int \<Rightarrow> idem_choice result"
where
  "provide_idempotency getenv ping ttl maxKeys =
     (if getenv ''USE_REDIS'' = ''true'' then
        let addr = getEnv getenv ''REDIS_ADDR'' ''localhost:6379''; password = getEnv getenv ''REDIS_PASSWORD'' ''''
        in case ping addr password 0 of
          Some e \<Rightarrow> Inl (Wrapf ''redis connection failed'' e)
        | None \<Rightarrow> Inr (RedisStore addr password 0 ''idempotency'')
      else Inr (MemoryStore (NewStore ttl maxKeys)))"

text \<open>The keys of the two adapters on one server never meet.\<close>

lemma services_share_no_key: "redis_key ''spot'' k \<noteq> redis_key ''idempotency'' j"
  by (simp add: redis_key_def)

lemma provide_idempotency_fails:
  "(\<exists>e. provide_idempotency getenv ping ttl n = Inl e) \<longleftrightarrow>
     getenv ''USE_REDIS'' = ''true'' \<and> (\<exists>e. ping (getEnv getenv ''REDIS_ADDR'' ''localhost:6379'') (getEnv getenv ''REDIS_PASSWORD'' '''') 0 = Some e)"
  by (auto simp: provide_idempotency_def Let_def split: option.split)

end
