(* ===== verification/Spot_Programs.thy ===== *)
theory Spot_Programs
  imports Spot_Props Interleaving
begin

text \<open>
  \<open>GetMarketByID\<close> of the spot service (\<open>spot-service/internal/service/service.go\<close>) under concurrent
  calls: a program whose steps are the operations of the shared cache and the read of the
  repository, each atomic under its own lock. Between its look-up and its store other calls may
  evict, delete, expire or overwrite the entry.
\<close>

section \<open>The program\<close>

datatype 'd spot_prog =
  SpotRet "'d market option result"
| SpotGet poll time string "bytes option result \<Rightarrow> 'd spot_prog"
| SpotDelete poll string "unit result \<Rightarrow> 'd spot_prog"
| SpotRead poll string "'d market option result \<Rightarrow> 'd spot_prog"
| SpotSet poll time string bytes int "unit result \<Rightarrow> 'd spot_prog"

fun spot_next ::
  "(poll \<Rightarrow> string \<Rightarrow> 'd market option result) \<Rightarrow> 's cache_ops \<Rightarrow> 'd spot_prog \<Rightarrow> 's \<Rightarrow> ('s \<times> 'd spot_prog) option"
where
  "spot_next getByID c (SpotRet r) s = None"
| "spot_next getByID c (SpotGet p now i k) s = Some (fst (c_Get c p now i s), k (snd (c_Get c p now i s)))"
| "spot_next getByID c (SpotDelete p i k) s = Some (fst (c_Delete c p i s), k (snd (c_Delete c p i s)))"
| "spot_next getByID c (SpotRead p i k) s = Some (s, k (getByID p i))"
| "spot_next getByID c (SpotSet p now i v ttl k) s = Some (fst (c_Set c p now i v ttl s), k (snd (c_Set c p now i v ttl s)))"

primrec spot_run ::
  "(poll \<Rightarrow> string \<Rightarrow> 'd market option result) \<Rightarrow> 's cache_ops \<Rightarrow> 'd spot_prog \<Rightarrow> 's \<Rightarrow> 's \<times> 'd market option result"
where
  "spot_run getByID c (SpotRet r) s = (s, r)"
| "spot_run getByID c (SpotGet p now i k) s = spot_run getByID c (k (snd (c_Get c p now i s))) (fst (c_Get c p now i s))"
| "spot_run getByID c (SpotDelete p i k) s = spot_run getByID c (k (snd (c_Delete c p i s))) (fst (c_Delete c p i s))"
| "spot_run getByID c (SpotRead p i k) s = spot_run getByID c (k (getByID p i)) s"
| "spot_run getByID c (SpotSet p now i v ttl k) s =
     spot_run getByID c (k (snd (c_Set c p now i v ttl s))) (fst (c_Set c p now i v ttl s))"

definition prog_repo :: "('d market \<Rightarrow> bytes option) \<Rightarrow> ctx \<Rightarrow> time \<Rightarrow> string \<Rightarrow> 'd spot_prog" where
  "prog_repo enc cx t2 i = SpotRead (cx 3) i (\<lambda>r. case r of
     Inl e \<Rightarrow> SpotRet (Inl e)
   | Inr None \<Rightarrow> SpotRet (Inr None)
   | Inr (Some m) \<Rightarrow> (case enc m of
       None \<Rightarrow> SpotRet (Inr (Some m))
     | Some data \<Rightarrow> SpotSet (cx 4) t2 i data 300 (\<lambda>_. SpotRet (Inr (Some m)))))"

definition prog_GetMarketByID ::
  "(string \<Rightarrow> bool) \<Rightarrow> ('d market \<Rightarrow> bytes option) \<Rightarrow> (bytes \<Rightarrow> 'd market option) \<Rightarrow>
   ctx \<Rightarrow> time \<Rightarrow> time \<Rightarrow> string \<Rightarrow> 'd spot_prog"
where
  "prog_GetMarketByID parses enc dec cx t1 t2 i =
     (case uid_Validate parses i ''market_id'' of Some e \<Rightarrow> SpotRet (Inl e) | None \<Rightarrow>
      (case cx 0 of Some e \<Rightarrow> SpotRet (Inl (CtxErr e)) | None \<Rightarrow>
       SpotGet (cx 1) t1 i (\<lambda>r. case r of
         Inl e \<Rightarrow> prog_repo enc cx t2 i
       | Inr None \<Rightarrow> prog_repo enc cx t2 i
       | Inr (Some data) \<Rightarrow> (case dec data of
           None \<Rightarrow> SpotDelete (cx 2) i (\<lambda>_. prog_repo enc cx t2 i)
         | Some m \<Rightarrow> SpotRet (Inr (Some m))))))"

lemma spot_next_run: "spot_next getByID c p s = Some (s', q) \<Longrightarrow> spot_run getByID c p s = spot_run getByID c q s'"
  by (cases p) auto

lemma spot_next_finished: "spot_next getByID c p s = None \<longleftrightarrow> (\<exists>r. p = SpotRet r)"
  by (cases p) auto

text \<open>Run alone, it is the function of \<open>Spot_Service\<close> with that cache.\<close>

lemma prog_repo_alone:
  "spot_run getByID c (prog_repo enc cx t2 i) s =
     (case getByID (cx 3) i of Inl e \<Rightarrow> (s, Inl e) | Inr mp \<Rightarrow> (cache_store enc (Some c) cx t2 i mp s, Inr mp))"
  by (simp add: prog_repo_def cache_store_def split: sum.split option.split)

lemma prog_GetMarketByID_alone:
  "spot_run getByID c (prog_GetMarketByID parses enc dec cx t1 t2 i) s =
     spot_GetMarketByID parses enc dec getByID (Some c) cx t1 t2 i s"
  by (simp add: prog_GetMarketByID_def spot_GetMarketByID_def cache_lookup_def prog_repo_alone
      split: sum.split option.split prod.split)

section \<open>Read-through under interference\<close>

locale cached_source = cache_port ops live cinv
  for ops :: "'s cache_ops" and live :: "time \<Rightarrow> 's \<Rightarrow> string \<Rightarrow> bytes option" and cinv :: "'s \<Rightarrow> bool" +
  fixes enc :: "'d market \<Rightarrow> bytes option" and dec :: "bytes \<Rightarrow> 'd market option"
    and getByID :: "poll \<Rightarrow> string \<Rightarrow> 'd market option result" and R :: "string \<Rightarrow> 'd market option" and e0 :: err
  assumes source: "source_of getByID R"
    and reads: "getByID None i = (case R i of Some m \<Rightarrow> Inr (Some m) | None \<Rightarrow> Inl e0)"
begin

text \<open>What calls rely on and keep: the cache is well formed and agrees with the repository.\<close>

definition sound :: "'s \<Rightarrow> bool" where
  "sound s \<longleftrightarrow> cinv s \<and> agrees dec R s"

lemma soundI: "cinv s \<Longrightarrow> agrees dec R s \<Longrightarrow> sound s"
  by (simp add: sound_def)

lemma soundD: "sound s \<Longrightarrow> cinv s" "sound s \<Longrightarrow> agrees dec R s"
  by (simp_all add: sound_def)

definition stays_sound :: "'s \<Rightarrow> 's \<Rightarrow> bool" where
  "stays_sound a b \<longleftrightarrow> sound a \<and> sound b"

lemma stays_sound_simps [simp]: "sound a \<Longrightarrow> stays_sound a b \<longleftrightarrow> sound b"
  by (simp add: stays_sound_def)

end

sublocale cached_source \<subseteq> conc: interleaving "spot_next getByID ops" "\<lambda>_ _. True" stays_sound
  by unfold_locales (simp_all add: stays_sound_def)

context cached_source
begin

lemma safe_step:
  assumes "\<And>a. sound a \<Longrightarrow> spot_next getByID ops p a = Some (f a, k a)"
    and "\<And>a. sound a \<Longrightarrow> sound (f a)" and "\<And>a. sound a \<Longrightarrow> conc.safe Q (k a) (f a)"
  shows "conc.safe Q p s"
  by (rule conc.safeI) (use assms in \<open>auto simp: stays_sound_def\<close>)

lemma safe_SpotRet: "(\<And>a. sound a \<Longrightarrow> Q (SpotRet r) a) \<Longrightarrow> conc.safe Q (SpotRet r) s"
  by (rule conc.safeI) (auto simp: stays_sound_def)

lemma safe_SpotGet:
  "(\<And>a. sound a \<Longrightarrow> conc.safe Q (k (snd (c_Get ops p now i a))) (fst (c_Get ops p now i a))) \<Longrightarrow>
   conc.safe Q (SpotGet p now i k) s"
  by (rule safe_step[where f = "\<lambda>a. fst (c_Get ops p now i a)" and k = "\<lambda>a. k (snd (c_Get ops p now i a))"])
     (auto simp: sound_def get_inv agrees_get)

lemma safe_SpotDelete:
  "(\<And>a. sound a \<Longrightarrow> conc.safe Q (k (snd (c_Delete ops p i a))) (fst (c_Delete ops p i a))) \<Longrightarrow>
   conc.safe Q (SpotDelete p i k) s"
  by (rule safe_step[where f = "\<lambda>a. fst (c_Delete ops p i a)" and k = "\<lambda>a. k (snd (c_Delete ops p i a))"])
     (auto simp: sound_def del_inv agrees_del)

lemma safe_SpotRead: "(\<And>a. conc.safe Q (k (getByID p i)) a) \<Longrightarrow> conc.safe Q (SpotRead p i k) s"
  by (rule safe_step[where f = "\<lambda>a. a" and k = "\<lambda>a. k (getByID p i)"]) auto

lemma safe_SpotSet:
  "(\<And>m. dec v = Some m \<Longrightarrow> R i = Some m) \<Longrightarrow>
   (\<And>a. conc.safe Q (k (snd (c_Set ops p now i v ttl a))) (fst (c_Set ops p now i v ttl a))) \<Longrightarrow>
   conc.safe Q (SpotSet p now i v ttl k) s"
  by (rule safe_step[where f = "\<lambda>a. fst (c_Set ops p now i v ttl a)" and k = "\<lambda>a. k (snd (c_Set ops p now i v ttl a))"])
     (auto simp: sound_def set_inv agrees_set)

text \<open>What a call answers: a market only if it is the repository's; and with a context that is not
  done, exactly what the service answers without a cache.\<close>

definition faithful :: "(string \<Rightarrow> bool) \<Rightarrow> ctx \<Rightarrow> string \<Rightarrow> 'd market option result \<Rightarrow> bool" where
  "faithful parses cx i r \<longleftrightarrow> (\<forall>mp. r = Inr mp \<longrightarrow> mp = R i \<and> mp \<noteq> None) \<and>
     (cx = background \<longrightarrow> r = snd (spot_GetMarketByID parses enc dec getByID None cx 0 0 i ()))"

abbreviation answers :: "(string \<Rightarrow> bool) \<Rightarrow> ctx \<Rightarrow> string \<Rightarrow> 'd spot_prog \<Rightarrow> 's \<Rightarrow> bool" where
  "answers parses cx i p s \<equiv> \<forall>r. p = SpotRet r \<longrightarrow> faithful parses cx i r"

lemma alone_background:
  "snd (spot_GetMarketByID parses enc dec getByID None background 0 0 i ()) =
     (case uid_Validate parses i ''market_id'' of Some e \<Rightarrow> Inl e | None \<Rightarrow> getByID None i)"
  by (simp add: spot_GetMarketByID_def cache_lookup_def split: option.split sum.split)

lemma safe_repo:
  assumes valid: "uid_Validate parses i ''market_id'' = None" and enc_dec: "encodes enc dec"
  shows "conc.safe (answers parses cx i) (prog_repo enc cx t2 i) s"
proof -
  have ans: "faithful parses cx i r" if "getByID (cx 3) i = r" for r
    using that source_ofD[OF source, of "cx 3" i] by (auto simp: faithful_def alone_background valid)
  have set_ok: "dec b = Some n \<Longrightarrow> R i = Some n" if "getByID (cx 3) i = Inr (Some m)" "enc m = Some b" for m b n
    using that enc_dec source_ofD[OF source that(1)] by (auto simp: encodes_def)
  show ?thesis
    unfolding prog_repo_def
    by (rule safe_SpotRead, cases "getByID (cx 3) i")
       (auto split: option.split intro!: safe_SpotRet safe_SpotSet ans dest: set_ok)
qed

lemma safe_GetMarketByID:
  assumes enc_dec: "encodes enc dec"
  shows "conc.safe (answers parses cx i) (prog_GetMarketByID parses enc dec cx t1 t2 i) s"
proof (cases "uid_Validate parses i ''market_id''")
  case (Some e)
  then show ?thesis
    unfolding prog_GetMarketByID_def by (auto simp: faithful_def alone_background intro!: safe_SpotRet)
next
  case valid: None
  show ?thesis
  proof (cases "cx 0")
    case (Some e)
    then show ?thesis
      unfolding prog_GetMarketByID_def using valid by (auto simp: faithful_def intro!: safe_SpotRet)
  next
    case None
    have hit: "faithful parses cx i (Inr (Some m))"
      if "sound a" "snd (c_Get ops (cx 1) t1 i a) = Inr (Some b)" "dec b = Some m" for a b m
    proof -
      have "R i = Some m" using that agrees_hit by (auto simp: sound_def)
      then show ?thesis by (simp add: faithful_def alone_background valid reads)
    qed
    show ?thesis
      unfolding prog_GetMarketByID_def valid None option.case
      by (rule safe_SpotGet)
         (auto split: sum.split option.split intro!: safe_SpotDelete safe_SpotRet safe_repo[OF valid enc_dec] dest: hit)
  qed
qed

end

section \<open>Calls at the same time\<close>

text \<open>A call: its context, clock readings and key.\<close>

type_synonym spot_call = "ctx \<times> time \<times> time \<times> string"

definition call_prog ::
  "(string \<Rightarrow> bool) \<Rightarrow> ('d market \<Rightarrow> bytes option) \<Rightarrow> (bytes \<Rightarrow> 'd market option) \<Rightarrow> spot_call \<Rightarrow> 'd spot_prog"
where
  "call_prog parses enc dec call = (case call of (cx, t1, t2, i) \<Rightarrow> prog_GetMarketByID parses enc dec cx t1 t2 i)"

abbreviation spot_calls_run ::
  "(string \<Rightarrow> bool) \<Rightarrow> ('d market \<Rightarrow> bytes option) \<Rightarrow> (bytes \<Rightarrow> 'd market option) \<Rightarrow>
   (poll \<Rightarrow> string \<Rightarrow> 'd market option result) \<Rightarrow> 's cache_ops \<Rightarrow>
   's \<times> (spot_call \<times> 'd spot_prog) list \<Rightarrow> 's \<times> (spot_call \<times> 'd spot_prog) list \<Rightarrow> bool"
where
  "spot_calls_run parses enc dec getByID ops \<equiv> pool_steps (spot_next getByID ops) (\<lambda>_ _. True) (call_prog parses enc dec)"

context cached_source
begin

lemma calls_sound:
  assumes "spot_calls_run parses enc dec getByID ops (s, []) (s', ps)" and "sound s" and "encodes enc dec"
  shows "sound s'"
  using conc.pool_invariant[OF assms(1), of "\<lambda>n (call :: spot_call). case call of (cx, t1, t2, i) \<Rightarrow> answers parses cx i"]
    safe_GetMarketByID[OF assms(3)] assms(2)
  by (auto simp: conc.pool_ok_def call_prog_def)

lemma calls_faithful:
  assumes "spot_calls_run parses enc dec getByID ops (s, []) (s', ps)" and "sound s"
    and "k < length ps" and "ps ! k = ((cx, t1, t2, i), SpotRet r)" and "encodes enc dec"
  shows "faithful parses cx i r"
proof -
  let ?Q = "\<lambda>(n::nat) (call :: spot_call). case call of (cx, t1, t2, i) \<Rightarrow> answers parses cx i"
  have "stays_sound s s' \<and> conc.pool_ok ?Q (s', ps)"
    using conc.pool_invariant[OF assms(1), of ?Q] safe_GetMarketByID[OF assms(5)] assms(2)
    by (auto simp: conc.pool_ok_def call_prog_def)
  then have "conc.safe (answers parses cx i) (SpotRet r) s'" "stays_sound s' s'"
    using assms(3,4) by (auto simp: conc.pool_ok_def stays_sound_def dest!: spec[of _ k])
  then show ?thesis using conc.safe_finished[of "answers parses cx i" "SpotRet r" s' s'] by (simp add: spot_next_finished)
qed

end

section \<open>The LRU cache before the in-memory repository\<close>

interpretation lru_calls: cached_source lru_ops lru_live lru_wf enc dec "\<lambda>p i. market_GetByID p i store" "gm_get store"
    "Sentinel (SpotMem MemErrMarketNotFound)" for enc dec store
  by unfold_locales (simp_all add: market_source market_GetByID_None)

text \<open>C4: whatever \<open>GetMarketByID\<close> calls run at the same time on a service started with an empty LRU
  cache, and however their look-ups, reads and stores interleave, every call answers a market only
  if the repository holds it under that identifier, and a call whose context is not done answers
  exactly what the repository without a cache answers.\<close>

theorem concurrent_cache_invisible:
  assumes "encodes enc dec"
    and "spot_calls_run parses enc dec (\<lambda>p i. market_GetByID p i store) lru_ops (NewLRUCache n, []) (c, ps)"
    and "k < length ps" and "ps ! k = ((cx, t1, t2, i), SpotRet r)"
  shows "(\<forall>mp. r = Inr mp \<longrightarrow> mp = gm_get store i \<and> mp \<noteq> None) \<and>
    (cx = background \<longrightarrow>
       r = snd (spot_GetMarketByID parses enc dec (\<lambda>p i. market_GetByID p i store) None cx 0 0 i ()))"
proof -
  from lru_calls.calls_faithful[OF assms(2) lru_calls.soundI[OF NewLRUCache_wf lru_agrees_new] assms(3,4,1)]
  show ?thesis unfolding lru_calls.faithful_def .
qed

text \<open>Two calls for one market, both of which miss and store, with the first one's store and the
  second one's look-up swapped.\<close>

definition wit_market :: "unit market" where
  "wit_market = seed_market (\<lambda>_. ()) ''m'' ''ETH_USD'' ''ETH'' True None '''' '''' '''' ''''"

lemma wit_spot_run:
  fixes enc :: "unit market \<Rightarrow> bytes option"
  defines "enc \<equiv> \<lambda>m. if m = wit_market then Some ''x'' else None" and "dec \<equiv> \<lambda>b :: bytes. Some wit_market"
  defines "call \<equiv> \<lambda>t. (background, t, t + 1, ''m'') :: spot_call"
  shows "\<exists>c. spot_calls_run (\<lambda>s. s \<noteq> []) enc dec (\<lambda>p i. market_GetByID p i (gm_put ''m'' wit_market [])) lru_ops (NewLRUCache 1, [])
    (c, [(call 0, SpotRet (Inr (Some wit_market))), (call 1, SpotRet (Inr (Some wit_market)))])"
proof -
  have "\<exists>c. pool_schedule (spot_next (\<lambda>p i. market_GetByID p i (gm_put ''m'' wit_market [])) lru_ops) (\<lambda>_ _. True) [0, 1, 0, 1, 1, 0]
      (NewLRUCache 1, [(call 0, call_prog (\<lambda>s. s \<noteq> []) enc dec (call 0)), (call 1, call_prog (\<lambda>s. s \<noteq> []) enc dec (call 1))]) =
    Some (c, [(call 0, SpotRet (Inr (Some wit_market))), (call 1, SpotRet (Inr (Some wit_market)))])"
    by (simp add: pool_advance_def call_prog_def call_def prog_GetMarketByID_def prog_repo_def uid_Validate_def IsValid_def
        market_GetByID_def enc_def dec_def lru_Get_def NewLRUCache_def)
  then obtain c where "pool_schedule (spot_next (\<lambda>p i. market_GetByID p i (gm_put ''m'' wit_market [])) lru_ops) (\<lambda>_ _. True) [0, 1, 0, 1, 1, 0]
      (NewLRUCache 1, [(call 0, call_prog (\<lambda>s. s \<noteq> []) enc dec (call 0)), (call 1, call_prog (\<lambda>s. s \<noteq> []) enc dec (call 1))]) =
    Some (c, [(call 0, SpotRet (Inr (Some wit_market))), (call 1, SpotRet (Inr (Some wit_market)))])" ..
  from rtranclp_trans[OF pool_spawn_two pool_schedule_steps[OF this]] show ?thesis by blast
qed

theorem concurrent_cache_invisible_witness:
  "snd (spot_GetMarketByID (\<lambda>s. s \<noteq> []) (\<lambda>m. if m = wit_market then Some ''x'' else None) (\<lambda>b :: bytes. Some wit_market)
    (\<lambda>p i. market_GetByID p i (gm_put ''m'' wit_market [])) None background 0 0 ''m'' ()) = Inr (Some wit_market)"
proof -
  have "encodes (\<lambda>m. if m = wit_market then Some ''x'' else None) (\<lambda>b :: bytes. Some wit_market)" by (simp add: encodes_def)
  moreover obtain c where "spot_calls_run (\<lambda>s. s \<noteq> []) (\<lambda>m. if m = wit_market then Some ''x'' else None) (\<lambda>b :: bytes. Some wit_market)
      (\<lambda>p i. market_GetByID p i (gm_put ''m'' wit_market [])) lru_ops (NewLRUCache 1, [])
    (c, [((background, 0, 0 + 1, ''m''), SpotRet (Inr (Some wit_market))), ((background, 1, 1 + 1, ''m''), SpotRet (Inr (Some wit_market)))])"
    using wit_spot_run by blast
  ultimately show ?thesis
    using concurrent_cache_invisible[where k = 1 and cx = background and i = "''m''" and r = "Inr (Some wit_market)"] by fastforce
qed

end
