(* ===== verification/Redis_Calls.thy ===== *)
theory Redis_Calls
  imports Redis_Cache Spot_Programs
begin

text \<open>
  \<open>GetMarketByID\<close> over a Redis server that other services use at the same time: the calls of the spot
  service interleave, operation by operation, with each other and with the commands that others
  send through adapters of their own (\<open>shared/adapters/redis_cache.go\<close>).
\<close>

section \<open>Calls and foreign commands\<close>

text \<open>A program of the spot service, or a command of another service that is still to be sent or done.\<close>

type_synonym 'd shared_prog = "'d spot_prog + redis_op option"

fun shared_next ::
  "'s redis_client \<Rightarrow> string \<Rightarrow> (poll \<Rightarrow> string \<Rightarrow> 'd market option result) \<Rightarrow> 'd shared_prog \<Rightarrow> 's \<Rightarrow> ('s \<times> 'd shared_prog) option"
where
  "shared_next R q getByID (Inl p) s = map_option (map_prod id Inl) (spot_next getByID (redis_ops R q) p s)"
| "shared_next R q getByID (Inr (Some op)) s = Some (redis_exec R op s, Inr None)"
| "shared_next R q getByID (Inr None) s = None"

text \<open>The others keep to their prefixes.\<close>

definition shared_guard :: "string set \<Rightarrow> 'd shared_prog \<Rightarrow> 's \<Rightarrow> bool" where
  "shared_guard others p s = (case p of Inr (Some op) \<Rightarrow> rop_prefix op \<in> others | _ \<Rightarrow> True)"

definition shared_start ::
  "(string \<Rightarrow> bool) \<Rightarrow> ('d market \<Rightarrow> bytes option) \<Rightarrow> (bytes \<Rightarrow> 'd market option) \<Rightarrow> spot_call + redis_op \<Rightarrow> 'd shared_prog"
where
  "shared_start parses enc dec t = (case t of Inl call \<Rightarrow> Inl (call_prog parses enc dec call) | Inr op \<Rightarrow> Inr (Some op))"

abbreviation shared_run ::
  "'s redis_client \<Rightarrow> string \<Rightarrow> string set \<Rightarrow> (string \<Rightarrow> bool) \<Rightarrow> ('d market \<Rightarrow> bytes option) \<Rightarrow> (bytes \<Rightarrow> 'd market option) \<Rightarrow>
   (poll \<Rightarrow> string \<Rightarrow> 'd market option result) \<Rightarrow>
   's \<times> ((spot_call + redis_op) \<times> 'd shared_prog) list \<Rightarrow> 's \<times> ((spot_call + redis_op) \<times> 'd shared_prog) list \<Rightarrow> bool"
where
  "shared_run R q others parses enc dec getByID \<equiv>
     pool_steps (shared_next R q getByID) (shared_guard others) (shared_start parses enc dec)"

section \<open>The spot service among others\<close>

locale shared_redis = redis_server R held rinv
  for R :: "'s redis_client" and held :: "time \<Rightarrow> 's \<Rightarrow> string \<Rightarrow> bytes option" and rinv :: "'s \<Rightarrow> bool" +
  fixes q :: string and others :: "string set" and enc :: "'d market \<Rightarrow> bytes option" and dec :: "bytes \<Rightarrow> 'd market option"
    and getByID :: "poll \<Rightarrow> string \<Rightarrow> 'd market option result" and S :: "string \<Rightarrow> 'd market option" and e0 :: err
  assumes source: "source_of getByID S"
    and reads: "getByID None i = (case S i of Some m \<Rightarrow> Inr (Some m) | None \<Rightarrow> Inl e0)"
    and own: "plain_prefix q" "q \<notin> others" "p \<in> others \<Longrightarrow> plain_prefix p"

sublocale shared_redis \<subseteq> calls: cached_source "redis_ops R q" "seen q" rinv enc dec getByID S e0
  by unfold_locales (rule source, rule reads)

sublocale shared_redis \<subseteq> shared: interleaving "shared_next R q getByID" "shared_guard others" calls.stays_sound
  by unfold_locales (simp_all add: calls.stays_sound_def)

context shared_redis
begin

text \<open>A program that is safe among calls of its own kind is safe among these.\<close>

lemma safe_shared:
  assumes "calls.conc.safe Q p s"
  shows "shared.safe (\<lambda>p a. \<forall>p'. p = Inl p' \<longrightarrow> Q p' a) (Inl p) s"
  using assms
proof (induction rule: calls.conc.safe.induct)
  case (safeI s p)
  show ?case
  proof (rule shared.safe.safeI)
    fix a assume ext: "calls.stays_sound s a"
    show "\<forall>p'. Inl p = Inl p' \<longrightarrow> Q p' a" if "shared_next R q getByID (Inl p) a = None"
    proof -
      have "spot_next getByID (redis_ops R q) p a = None" using that by (simp only: shared_next.simps map_option_is_None)
      then show ?thesis using safeI(1)[OF ext] by simp
    qed
    fix b p1 assume "shared_next R q getByID (Inl p) a = Some (b, p1)"
    then obtain p' where p': "spot_next getByID (redis_ops R q) p a = Some (b, p')" "p1 = Inl p'"
      by (auto simp only: shared_next.simps map_option_eq_Some map_prod_simp id_apply prod.inject split_paired_Ex)
    show "calls.stays_sound a b" by (rule safeI(2)[OF ext p'(1) TrueI])
    show "shared.safe (\<lambda>p a. \<forall>p'. p = Inl p' \<longrightarrow> Q p' a) p1 b" unfolding p'(2) by (rule safeI(4)[OF ext p'(1) TrueI])
  qed
qed

lemma foreign_safe: "shared.safe (\<lambda>p a. \<forall>p'. p = Inl p' \<longrightarrow> Q p' a) (Inr (Some op)) s"
proof (rule shared.safe.safeI)
  fix a b p assume ext: "calls.stays_sound s a" and step: "shared_next R q getByID (Inr (Some op)) a = Some (b, p)"
    and g: "shared_guard others (Inr (Some op) :: 'd shared_prog) a"
  have "calls.sound a" using ext by (simp add: calls.stays_sound_def)
  moreover have "rop_prefix op \<in> others" using g by (simp add: shared_guard_def)
  ultimately have "calls.sound (redis_exec R op a)"
    using others_agree[of a q dec S op] own calls.soundD calls.soundI by blast
  then show "calls.stays_sound a b" using step \<open>calls.sound a\<close> by simp
  show "shared.safe (\<lambda>p a. \<forall>p'. p = Inl p' \<longrightarrow> Q p' a) p b"
  proof -
    have "p = Inr None" using step by simp
    then show ?thesis by (auto intro: shared.safe.safeI)
  qed
qed simp

lemma shared_faithful:
  assumes "shared_run R q others parses enc dec getByID (s, []) (s', ps)" and "calls.sound s" and "encodes enc dec"
    and "k < length ps" and "ps ! k = (Inl (cx, t1, t2, i), Inl (SpotRet r))"
  shows "calls.faithful parses cx i r"
proof -
  let ?Q = "\<lambda>(n::nat) t p a. \<forall>p'. p = Inl p' \<longrightarrow> (\<forall>cx t1 t2 i. t = Inl (cx, t1, t2, i) \<longrightarrow> calls.answers parses cx i p' a)"
  have start: "shared.safe (?Q n t) (shared_start parses enc dec t) a" for n t a
  proof (cases t)
    case (Inl call)
    obtain cx t1 t2 i where "call = (cx, t1, t2, i)" by (cases call)
    then show ?thesis
      using shared.safe_weaken[OF safe_shared[OF calls.safe_GetMarketByID[OF assms(3), of parses cx i t1 t2 a]]] Inl
      by (simp add: shared_start_def call_prog_def)
  next
    case (Inr op)
    show ?thesis unfolding Inr shared_start_def sum.case by (rule foreign_safe)
  qed
  have "calls.stays_sound s s' \<and> shared.pool_ok ?Q (s', ps)"
    using shared.pool_invariant[OF assms(1), of ?Q] start assms(2) by (auto simp: shared.pool_ok_def)
  then have "shared.safe (?Q k (Inl (cx, t1, t2, i))) (Inl (SpotRet r)) s'" "calls.stays_sound s' s'"
    using assms(4,5) by (auto simp: shared.pool_ok_def calls.stays_sound_def dest!: spec[of _ k])
  from shared.safe_finished[OF this] show ?thesis by simp
qed

end

context shared_redis
begin

lemma shared_answers:
  assumes "shared_run R q others parses enc dec getByID (s, []) (s', ps)" and "rinv s" and "\<forall>t k. held t s (redis_key q k) = None"
    and "encodes enc dec" and "k < length ps" and "ps ! k = (Inl (cx, t1, t2, i), Inl (SpotRet r))"
  shows "(\<forall>mp. r = Inr mp \<longrightarrow> mp = S i \<and> mp \<noteq> None) \<and>
    (cx = background \<longrightarrow> r = snd (spot_GetMarketByID parses enc dec getByID None cx 0 0 i ()))"
proof -
  have "calls.sound s" using assms(2,3) by (auto intro!: calls.soundI simp: adapter.agrees_def seen_def)
  from shared_faithful[OF assms(1) this assms(4-6)] show ?thesis unfolding calls.faithful_def .
qed

end

section \<open>The spot service on a Redis server\<close>

lemma spot_shares_redis:
  assumes "redis_server R held rinv"
  shows "shared_redis R held rinv ''spot'' {''idempotency'', ''user'', ''order''} (\<lambda>p i. market_GetByID p i store) (gm_get store)
    (Sentinel (SpotMem MemErrMarketNotFound))"
  by (intro shared_redis.intro shared_redis_axioms.intro assms market_source market_GetByID_None) (auto simp: plain_prefix_def)

interpretation keyspace_calls: shared_redis ks_client ks_held gm_ok "''spot''" "{''idempotency'', ''user'', ''order''}" enc dec
    "\<lambda>p i. market_GetByID p i store" "gm_get store" "Sentinel (SpotMem MemErrMarketNotFound)" for enc dec store
  by (rule spot_shares_redis) unfold_locales

text \<open>C35: on a Redis server that other services use under prefixes of their own, whatever \<open>GetMarketByID\<close>
  calls run at the same time, however their commands interleave with each other and with those of the others, and wherever
  commands fail, every call answers a market only if the repository holds it under that identifier, and a call whose context
  is not done answers exactly what the repository without a cache answers.\<close>

theorem concurrent_redis_invisible:
  assumes "redis_server R held rinv" and "rinv s" and "\<forall>t k. held t s (redis_key ''spot'' k) = None" and "encodes enc dec"
    and "shared_run R ''spot'' {''idempotency'', ''user'', ''order''} parses enc dec (\<lambda>p i. market_GetByID p i store) (s, []) (s', ps)"
    and "k < length ps" and "ps ! k = (Inl (cx, t1, t2, i), Inl (SpotRet r))"
  shows "(\<forall>mp. r = Inr mp \<longrightarrow> mp = gm_get store i \<and> mp \<noteq> None) \<and>
    (cx = background \<longrightarrow>
       r = snd (spot_GetMarketByID parses enc dec (\<lambda>p i. market_GetByID p i store) None cx 0 0 i ()))"
  by (rule shared_redis.shared_answers[OF spot_shares_redis[OF assms(1)] assms(5,2,3,4,6,7)])

text \<open>A call that misses, a key of the idempotency store that is set before the call stores, and the
  call's store.\<close>

abbreviation wit_shared_call :: spot_call where
  "wit_shared_call \<equiv> (background, 0, 1, ''m'')"

abbreviation wit_foreign :: redis_op where
  "wit_foreign \<equiv> ROpSet ''idempotency'' None 0 ''m'' ''1'' 86400"

abbreviation wit_enc :: "unit market \<Rightarrow> bytes option" where
  "wit_enc \<equiv> \<lambda>m. if m = wit_market then Some ''x'' else None"

abbreviation wit_dec :: "bytes \<Rightarrow> unit market option" where
  "wit_dec \<equiv> \<lambda>b. if b = ''x'' then Some wit_market else None"

theorem concurrent_redis_invisible_witness:
  "\<exists>ks. shared_run ks_client ''spot'' {''idempotency'', ''user'', ''order''} (\<lambda>s. s \<noteq> []) wit_enc wit_dec
      (\<lambda>p i. market_GetByID p i (gm_put ''m'' wit_market [])) ([], [])
      (ks, [(Inl wit_shared_call, Inl (SpotRet (Inr (Some wit_market)))), (Inr wit_foreign, Inr None)]) \<and>
    ks_held 1 ks ''spot:m'' = Some ''x'' \<and> ks_held 1 ks ''idempotency:m'' = Some ''1'' \<and>
    snd (spot_GetMarketByID (\<lambda>s. s \<noteq> []) wit_enc wit_dec (\<lambda>p i. market_GetByID p i (gm_put ''m'' wit_market [])) None background 0 0 ''m'' ()) =
      Inr (Some wit_market)"
proof -
  let ?get = "\<lambda>p i. market_GetByID p i (gm_put ''m'' wit_market [])"
  let ?P = "{''idempotency'', ''user'', ''order''}"
  let ?start = "shared_start (\<lambda>s. s \<noteq> []) wit_enc wit_dec"
  have "\<exists>ks. pool_schedule (shared_next ks_client ''spot'' ?get) (shared_guard ?P) [0, 0, 1, 0]
      ([], [(Inl wit_shared_call, ?start (Inl wit_shared_call)), (Inr wit_foreign, ?start (Inr wit_foreign))]) =
    Some (ks, [(Inl wit_shared_call, Inl (SpotRet (Inr (Some wit_market)))), (Inr wit_foreign, Inr None)]) \<and>
    ks_held 1 ks ''spot:m'' = Some ''x'' \<and> ks_held 1 ks ''idempotency:m'' = Some ''1''"
    by (simp add: pool_advance_def shared_start_def shared_guard_def call_prog_def prog_GetMarketByID_def prog_repo_def uid_Validate_def
        IsValid_def market_GetByID_def ks_client_def redis_Get_def redis_Set_def redis_key_def ks_held_def ks_expiry_def wrap64_def second_def)
  then obtain ks where sched: "pool_schedule (shared_next ks_client ''spot'' ?get) (shared_guard ?P) [0, 0, 1, 0]
      ([], [(Inl wit_shared_call, ?start (Inl wit_shared_call)), (Inr wit_foreign, ?start (Inr wit_foreign))]) =
    Some (ks, [(Inl wit_shared_call, Inl (SpotRet (Inr (Some wit_market)))), (Inr wit_foreign, Inr None)])"
    and held: "ks_held 1 ks ''spot:m'' = Some ''x''" "ks_held 1 ks ''idempotency:m'' = Some ''1''" by blast
  have run: "shared_run ks_client ''spot'' ?P (\<lambda>s. s \<noteq> []) wit_enc wit_dec ?get ([], [])
    (ks, [(Inl wit_shared_call, Inl (SpotRet (Inr (Some wit_market)))), (Inr wit_foreign, Inr None)])"
    by (rule rtranclp_trans[OF pool_spawn_two pool_schedule_steps[OF sched]])
  have server: "redis_server ks_client ks_held gm_ok" by unfold_locales
  have "encodes wit_enc wit_dec" by (simp add: encodes_def)
  from concurrent_redis_invisible[OF server _ _ this run, of 0 background 0 1 "''m''" "Inr (Some wit_market)"]
  have "snd (spot_GetMarketByID (\<lambda>s. s \<noteq> []) wit_enc wit_dec ?get None background 0 0 ''m'' ()) = Inr (Some wit_market)"
    by (simp add: ks_held_def)
  then show ?thesis using run held by blast
qed

end
