(* ===== verification/Key_Pair.thy ===== *)
theory Key_Pair
  imports Jwt_Manager Go_Map
begin

text \<open>
  The key pair of the user service on disk (\<open>user-service/internal/jwtmanager/jwt.go\<close>): generating,
  loading and saving it. Keys, their encodings and PEM are the libraries crypto/rsa, crypto/x509 and
  encoding/pem, parameters here; the file system maps paths to contents.
\<close>

type_synonym files = "(string, bytes) gomap"

record ('priv, 'pub) keypair =
  kp_PrivateKey :: 'priv
  kp_PublicKey :: 'pub

text \<open>\<open>ck_parse_pub\<close> answers \<open>None\<close> inside for a public key that is not RSA.\<close>

record ('priv, 'pub) crypto =
  ck_generate :: "nat \<Rightarrow> 'priv result"
  ck_public :: "'priv \<Rightarrow> 'pub"
  ck_marshal_priv :: "'priv \<Rightarrow> bytes"
  ck_parse_priv :: "bytes \<Rightarrow> 'priv result"
  ck_marshal_pub :: "'pub \<Rightarrow> bytes result"
  ck_parse_pub :: "bytes \<Rightarrow> 'pub option result"
  ck_pem_encode :: "string \<Rightarrow> bytes \<Rightarrow> bytes"
  ck_pem_decode :: "bytes \<Rightarrow> bytes option"

definition KeyBits :: nat where
  "KeyBits = 2048"

definition GenerateKeyPair :: "('priv, 'pub) crypto \<Rightarrow> ('priv, 'pub) keypair result" where
  "GenerateKeyPair K =
     (case ck_generate K KeyBits of
        Inl e \<Rightarrow> Inl e
      | Inr privateKey \<Rightarrow> Inr \<lparr>kp_PrivateKey = privateKey, kp_PublicKey = ck_public K privateKey\<rparr>)"

text \<open>\<open>rd\<close>: the error of reading a path that is there, if any.\<close>

definition read_file :: "(string \<Rightarrow> err option) \<Rightarrow> string \<Rightarrow> files \<Rightarrow> bytes result" where
  "read_file rd path fs =
     (case gm_get fs path of
        None \<Rightarrow> Inl (LibErr ''no such file or directory'')
      | Some data \<Rightarrow> (case rd path of Some e \<Rightarrow> Inl e | None \<Rightarrow> Inr data))"

definition LoadKeyPair ::
  "('priv, 'pub) crypto \<Rightarrow> (string \<Rightarrow> err option) \<Rightarrow> string \<Rightarrow> string \<Rightarrow> files \<Rightarrow> ('priv, 'pub) keypair result"
where
  "LoadKeyPair K rd privateKeyPath publicKeyPath fs =
     (case read_file rd privateKeyPath fs of Inl e \<Rightarrow> Inl (Wrapf ''failed to read private key'' e) | Inr privData \<Rightarrow>
      (case ck_pem_decode K privData of None \<Rightarrow> Inl (Errorf ''failed to decode private key'') | Some privBytes \<Rightarrow>
       (case ck_parse_priv K privBytes of Inl e \<Rightarrow> Inl (Wrapf ''failed to parse private key'' e) | Inr privateKey \<Rightarrow>
        (case read_file rd publicKeyPath fs of Inl e \<Rightarrow> Inl (Wrapf ''failed to read public key'' e) | Inr pubData \<Rightarrow>
         (case ck_pem_decode K pubData of None \<Rightarrow> Inl (Errorf ''failed to decode public key'') | Some pubBytes \<Rightarrow>
          (case ck_parse_pub K pubBytes of
             Inl e \<Rightarrow> Inl (Wrapf ''failed to parse public key'' e)
           | Inr None \<Rightarrow> Inl (Errorf ''public key is not RSA'')
           | Inr (Some publicKey) \<Rightarrow> Inr \<lparr>kp_PrivateKey = privateKey, kp_PublicKey = publicKey\<rparr>))))))"

text \<open>\<open>wr\<close>: the error of writing a path, if any, with what it leaves there.\<close>

definition write_file :: "(string \<Rightarrow> (err \<times> bytes option) option) \<Rightarrow> string \<Rightarrow> bytes \<Rightarrow> files \<Rightarrow> files \<times> unit result" where
  "write_file wr path data fs =
     (case wr path of
        None \<Rightarrow> (gm_put path data fs, Inr ())
      | Some (e, None) \<Rightarrow> (gm_del path fs, Inl e)
      | Some (e, Some left) \<Rightarrow> (gm_put path left fs, Inl e))"

definition SaveKeyPair ::
  "('priv, 'pub) crypto \<Rightarrow> (string \<Rightarrow> (err \<times> bytes option) option) \<Rightarrow> ('priv, 'pub) keypair \<Rightarrow> string \<Rightarrow> string \<Rightarrow> files \<Rightarrow>
   files \<times> unit result"
where
  "SaveKeyPair K wr kp privateKeyPath publicKeyPath fs =
     (let privPEM = ck_pem_encode K ''RSA PRIVATE KEY'' (ck_marshal_priv K (kp_PrivateKey kp))
      in case write_file wr privateKeyPath privPEM fs of
        (fs1, Inl e) \<Rightarrow> (fs1, Inl (Wrapf ''failed to write private key'' e))
      | (fs1, Inr _) \<Rightarrow>
          (case ck_marshal_pub K (kp_PublicKey kp) of
             Inl e \<Rightarrow> (fs1, Inl e)
           | Inr pubBytes \<Rightarrow>
               (case write_file wr publicKeyPath (ck_pem_encode K ''PUBLIC KEY'' pubBytes) fs1 of
                  (fs2, Inl e) \<Rightarrow> (fs2, Inl (Wrapf ''failed to write public key'' e))
                | (fs2, Inr _) \<Rightarrow> (fs2, Inr ()))))"

text \<open>What the libraries document: an encoding is read back as what it encodes.\<close>

definition crypto_roundtrip :: "('priv, 'pub) crypto \<Rightarrow> bool" where
  "crypto_roundtrip K \<longleftrightarrow>
     (\<forall>ty b. ck_pem_decode K (ck_pem_encode K ty b) = Some b) \<and>
     (\<forall>k. ck_parse_priv K (ck_marshal_priv K k) = Inr k) \<and>
     (\<forall>k b. ck_marshal_pub K k = Inr b \<longrightarrow> ck_parse_pub K b = Inr (Some k))"

lemma write_file_Inr: "snd (write_file wr path data fs) = Inr () \<Longrightarrow> fst (write_file wr path data fs) = gm_put path data fs"
  by (auto simp: write_file_def split: option.splits prod.splits)

lemma SaveKeyPair_Inr:
  assumes "SaveKeyPair K wr kp p q fs = (fs', Inr ())"
  obtains b where "ck_marshal_pub K (kp_PublicKey kp) = Inr b"
    "fs' = gm_put q (ck_pem_encode K ''PUBLIC KEY'' b)
      (gm_put p (ck_pem_encode K ''RSA PRIVATE KEY'' (ck_marshal_priv K (kp_PrivateKey kp))) fs)"
proof -
  let ?w1 = "write_file wr p (ck_pem_encode K ''RSA PRIVATE KEY'' (ck_marshal_priv K (kp_PrivateKey kp))) fs"
  obtain b where b: "ck_marshal_pub K (kp_PublicKey kp) = Inr b" and w1: "snd ?w1 = Inr ()"
    using assms by (auto simp: SaveKeyPair_def Let_def split: prod.splits sum.splits)
  let ?w2 = "write_file wr q (ck_pem_encode K ''PUBLIC KEY'' b) (fst ?w1)"
  have "snd ?w2 = Inr ()" "fs' = fst ?w2"
    using assms b w1 by (auto simp: SaveKeyPair_def Let_def split: prod.splits sum.splits)
  then show thesis using that[OF b] write_file_Inr[OF w1] write_file_Inr[of wr q _ "fst ?w1"] by simp
qed

text \<open>A key pair that was saved under two different paths is loaded again as it was; under one path the
  private key is lost, and loading gives an error or another key.\<close>

lemma key_pair_roundtrip:
  assumes "crypto_roundtrip K" and "SaveKeyPair K wr kp p q fs = (fs', Inr ())" and "\<forall>path. rd path = None"
  shows "(p \<noteq> q \<longrightarrow> LoadKeyPair K rd p q fs' = Inr kp) \<and>
    (p = q \<longrightarrow> (\<exists>b. ck_marshal_pub K (kp_PublicKey kp) = Inr b \<and> LoadKeyPair K rd p q fs' =
      (case ck_parse_priv K b of
         Inl e \<Rightarrow> Inl (Wrapf ''failed to parse private key'' e)
       | Inr k \<Rightarrow> Inr (kp\<lparr>kp_PrivateKey := k\<rparr>))))"
  using assms(2)
proof (rule SaveKeyPair_Inr)
  fix b assume b: "ck_marshal_pub K (kp_PublicKey kp) = Inr b"
    "fs' = gm_put q (ck_pem_encode K ''PUBLIC KEY'' b)
      (gm_put p (ck_pem_encode K ''RSA PRIVATE KEY'' (ck_marshal_priv K (kp_PrivateKey kp))) fs)"
  show ?thesis using assms(1,3) b
    by (auto simp: LoadKeyPair_def read_file_def crypto_roundtrip_def split: sum.split)
qed

text \<open>Keys that are strings, written as they are.\<close>

definition wit_crypto :: "(string, string) crypto" where
  "wit_crypto = \<lparr>ck_generate = (\<lambda>n. Inr ''key''), ck_public = (\<lambda>k. k), ck_marshal_priv = (\<lambda>k. ''priv'' @ k),
     ck_parse_priv = (\<lambda>b. if take 4 b = ''priv'' then Inr (drop 4 b) else Inl (LibErr ''asn1'')),
     ck_marshal_pub = Inr, ck_parse_pub = (\<lambda>b. Inr (Some b)), ck_pem_encode = (\<lambda>ty b. b), ck_pem_decode = Some\<rparr>"

lemma key_pair_roundtrip_witness:
  "LoadKeyPair wit_crypto (\<lambda>_. None) ''a.pem'' ''b.pem''
     (fst (SaveKeyPair wit_crypto (\<lambda>_. None) \<lparr>kp_PrivateKey = ''k'', kp_PublicKey = ''k''\<rparr> ''a.pem'' ''b.pem'' [])) =
   Inr \<lparr>kp_PrivateKey = ''k'', kp_PublicKey = ''k''\<rparr>"
proof -
  let ?kp = "\<lparr>kp_PrivateKey = ''k'', kp_PublicKey = ''k''\<rparr>"
  have "crypto_roundtrip wit_crypto" by (simp add: crypto_roundtrip_def wit_crypto_def)
  moreover have "SaveKeyPair wit_crypto (\<lambda>_. None) ?kp ''a.pem'' ''b.pem'' [] =
      (fst (SaveKeyPair wit_crypto (\<lambda>_. None) ?kp ''a.pem'' ''b.pem'' []), Inr ())"
    by (simp add: SaveKeyPair_def write_file_def wit_crypto_def Let_def)
  ultimately show ?thesis using key_pair_roundtrip[of wit_crypto "\<lambda>_. None" ?kp "''a.pem''" "''b.pem''" "[]" _ "\<lambda>_. None"] by simp
qed

end
