(* ===== verification/Validate.thy ===== *)
theory Validate
  imports Errors Go_Strings
begin

text \<open>
  The validation helpers (\<open>shared/validate/validate.go\<close>), with the runes of a string as a range loop
  yields them. The Unicode classes, the parser of package net/mail and a caller's pattern are
  parameters. The text of a wrapping error is what stands around the wrapped one.
\<close>

section \<open>Runes\<close>

text \<open>UTF-8 as Go decodes it: a rune and its width in bytes, U+FFFD and one byte where the encoding is invalid.\<close>

definition cont :: "nat \<Rightarrow> bool" where
  "cont b \<longleftrightarrow> 0x80 \<le> b \<and> b \<le> 0xBF"

definition second_ok :: "nat \<Rightarrow> nat \<Rightarrow> bool" where
  "second_ok b0 b1 \<longleftrightarrow>
     (if b0 = 0xE0 then 0xA0 \<le> b1 \<and> b1 \<le> 0xBF else if b0 = 0xED then 0x80 \<le> b1 \<and> b1 \<le> 0x9F
      else if b0 = 0xF0 then 0x90 \<le> b1 \<and> b1 \<le> 0xBF else if b0 = 0xF4 then 0x80 \<le> b1 \<and> b1 \<le> 0x8F
      else cont b1)"

definition decode_rune :: "nat list \<Rightarrow> nat \<times> nat" where
  "decode_rune bs =
     (case bs of
        [] \<Rightarrow> (0xFFFD, 1)
      | b0 # r \<Rightarrow>
          if b0 < 0x80 then (b0, 1)
          else case r of
            b1 # r1 \<Rightarrow>
              if 0xC2 \<le> b0 \<and> b0 \<le> 0xDF then (if cont b1 then ((b0 - 0xC0) * 64 + (b1 - 0x80), 2) else (0xFFFD, 1))
              else (case r1 of
                b2 # r2 \<Rightarrow>
                  if 0xE0 \<le> b0 \<and> b0 \<le> 0xEF
                    then (if second_ok b0 b1 \<and> cont b2 then ((b0 - 0xE0) * 4096 + (b1 - 0x80) * 64 + (b2 - 0x80), 3) else (0xFFFD, 1))
                  else (case r2 of
                    b3 # _ \<Rightarrow>
                      if 0xF0 \<le> b0 \<and> b0 \<le> 0xF4 \<and> second_ok b0 b1 \<and> cont b2 \<and> cont b3
                        then ((b0 - 0xF0) * 262144 + (b1 - 0x80) * 4096 + (b2 - 0x80) * 64 + (b3 - 0x80), 4)
                      else (0xFFFD, 1)
                  | [] \<Rightarrow> (0xFFFD, 1))
              | [] \<Rightarrow> (0xFFFD, 1))
          | [] \<Rightarrow> (0xFFFD, 1))"

lemma decode_rune_width: "0 < snd (decode_rune bs)"
  by (simp add: decode_rune_def split: list.split)

function runes :: "nat list \<Rightarrow> nat list" where
  "runes bs = (if bs = [] then [] else fst (decode_rune bs) # runes (drop (snd (decode_rune bs)) bs))"
  by pat_completeness auto

termination runes
  by (relation "measure length") (simp_all add: decode_rune_width)

declare runes.simps [simp del]

definition string_runes :: "string \<Rightarrow> nat list" where
  "string_runes s = runes (map of_char s)"

lemma runes_ascii: "\<forall>b \<in> set bs. b < 0x80 \<Longrightarrow> runes bs = bs"
proof (induction bs)
  case Nil
  then show ?case by (simp add: runes.simps)
next
  case (Cons b bs)
  then have "decode_rune (b # bs) = (b, 1)" by (simp add: decode_rune_def)
  then show ?case using Cons by (simp add: runes.simps[of "b # bs"])
qed

section \<open>Email\<close>

definition verr :: "validate_error \<Rightarrow> err" where
  "verr e = Sentinel (Validate e)"

definition validate_Email :: "(string \<Rightarrow> bool) \<Rightarrow> string \<Rightarrow> err option" where
  "validate_Email parses email0 =
     (let email = TrimSpace email0
      in if email = '''' then Some (Wrapf ''email: '' (verr VErrEmptyField))
         else if length email > 254 then Some (Wrapf ''email:  (max 254)'' (verr VErrTooLong))
         else if \<not> parses email then Some (Wrapf ''email: '' (verr VErrInvalidEmail))
         else let parts = split_byte CHR ''@'' email
           in if length parts \<noteq> 2 \<or> parts ! 0 = '''' \<or> parts ! 1 = '''' then Some (Wrapf ''email: '' (verr VErrInvalidEmail))
           else None)"

section \<open>Password\<close>

record unicode =
  uc_IsLetter :: "nat \<Rightarrow> bool"
  uc_IsDigit :: "nat \<Rightarrow> bool"
  uc_IsPunct :: "nat \<Rightarrow> bool"
  uc_IsSymbol :: "nat \<Rightarrow> bool"

text \<open>The loop: the flags for a letter, a digit and a special character.\<close>

fun scan_password :: "unicode \<Rightarrow> nat list \<Rightarrow> bool \<times> bool \<times> bool \<Rightarrow> bool \<times> bool \<times> bool" where
  "scan_password U [] flags = flags"
| "scan_password U (r # rs) (hasLetter, hasDigit, hasSpecial) =
     scan_password U rs
       (if uc_IsLetter U r then (True, hasDigit, hasSpecial)
        else if uc_IsDigit U r then (hasLetter, True, hasSpecial)
        else if uc_IsPunct U r \<or> uc_IsSymbol U r then (hasLetter, hasDigit, True)
        else (hasLetter, hasDigit, hasSpecial))"

definition validate_Password :: "unicode \<Rightarrow> (int \<Rightarrow> string) \<Rightarrow> string \<Rightarrow> int \<Rightarrow> int \<Rightarrow> err option" where
  "validate_Password U itoa password minLen maxLen =
     (if password = '''' then Some (Wrapf ''password: '' (verr VErrEmptyField))
      else if int (length password) < minLen
        then Some (Wrapf (''password:  (min '' @ itoa minLen @ '' characters)'') (verr VErrTooShort))
      else if int (length password) > maxLen
        then Some (Wrapf (''password:  (max '' @ itoa maxLen @ '' characters)'') (verr VErrTooLong))
      else case scan_password U (string_runes password) (False, False, False) of
        (hasLetter, hasDigit, hasSpecial) \<Rightarrow>
          if \<not> hasLetter \<or> (\<not> hasDigit \<and> \<not> hasSpecial)
          then Some (Wrapf ''password:  (must contain letters and at least one digit or special character)'' (verr VErrWeakPassword))
          else None)"

section \<open>UUID\<close>

text \<open>The pattern, one class of bytes after the other: it matches the whole text.\<close>

definition hex_lower :: "char \<Rightarrow> bool" where
  "hex_lower c \<longleftrightarrow> c \<in> set ''0123456789abcdef''"

definition uuid_pattern :: "(char \<Rightarrow> bool) list" where
  "uuid_pattern =
     replicate 8 hex_lower @ [\<lambda>c. c = CHR ''-''] @ replicate 4 hex_lower @ [\<lambda>c. c = CHR ''-'', \<lambda>c. c = CHR ''4''] @
     replicate 3 hex_lower @ [\<lambda>c. c = CHR ''-'', \<lambda>c. c \<in> set ''89ab''] @ replicate 3 hex_lower @ [\<lambda>c. c = CHR ''-''] @
     replicate 12 hex_lower"

fun match_classes :: "(char \<Rightarrow> bool) list \<Rightarrow> string \<Rightarrow> bool" where
  "match_classes [] s = (s = [])"
| "match_classes (p # ps) [] = False"
| "match_classes (p # ps) (c # cs) = (p c \<and> match_classes ps cs)"

definition validate_UUID :: "string \<Rightarrow> err option" where
  "validate_UUID uuid =
     (if uuid = '''' then Some (Wrapf ''uuid: '' (verr VErrEmptyField))
      else if \<not> match_classes uuid_pattern (ToLower uuid) then Some (Wrapf ''uuid: '' (verr VErrInvalidUUID))
      else None)"

section \<open>Other fields\<close>

definition validate_String ::
  "(int \<Rightarrow> string) \<Rightarrow> string \<Rightarrow> string \<Rightarrow> int \<Rightarrow> int \<Rightarrow> (string \<Rightarrow> bool) option \<Rightarrow> err option"
where
  "validate_String itoa value fieldName minLen maxLen pattern =
     (if value = '''' then Some (Wrapf (fieldName @ '': '') (verr VErrEmptyField))
      else if int (length value) < minLen
        then Some (Wrapf (fieldName @ '':  (min '' @ itoa minLen @ '' characters)'') (verr VErrTooShort))
      else if int (length value) > maxLen
        then Some (Wrapf (fieldName @ '':  (max '' @ itoa maxLen @ '' characters)'') (verr VErrTooLong))
      else case pattern of
        None \<Rightarrow> None
      | Some m \<Rightarrow> if \<not> m value then Some (Wrapf (fieldName @ '': '') (verr VErrInvalidFormat)) else None)"

text \<open>\<open>lt\<close> is the comparison of floating-point numbers, \<open>show\<close> prints one.\<close>

definition validate_NumberRange :: "('f \<Rightarrow> 'f \<Rightarrow> bool) \<Rightarrow> ('f \<Rightarrow> string) \<Rightarrow> 'f \<Rightarrow> 'f \<Rightarrow> 'f \<Rightarrow> string \<Rightarrow> err option" where
  "validate_NumberRange lt sh value mn mx fieldName =
     (if lt value mn \<or> lt mx value
      then Some (Wrapf (fieldName @ '':  (must be between '' @ sh mn @ '' and '' @ sh mx @ '')'') (verr VErrInvalidRange))
      else None)"

text \<open>A value of any type: a string, nil, or another.\<close>

datatype any = AnyString string | AnyNil | AnyOther

definition validate_NotEmpty :: "any \<Rightarrow> string \<Rightarrow> err option" where
  "validate_NotEmpty value fieldName =
     (case value of
        AnyString v \<Rightarrow> if v = '''' then Some (Wrapf (fieldName @ '': '') (verr VErrEmptyField)) else None
      | AnyNil \<Rightarrow> Some (Wrapf (fieldName @ '': '') (verr VErrEmptyField))
      | AnyOther \<Rightarrow> None)"

section \<open>Properties\<close>

lemma scan_password_flags:
  "scan_password U rs (l, d, s) =
     (l \<or> (\<exists>r \<in> set rs. uc_IsLetter U r),
      d \<or> (\<exists>r \<in> set rs. \<not> uc_IsLetter U r \<and> uc_IsDigit U r),
      s \<or> (\<exists>r \<in> set rs. \<not> uc_IsLetter U r \<and> \<not> uc_IsDigit U r \<and> (uc_IsPunct U r \<or> uc_IsSymbol U r)))"
  by (induction rs arbitrary: l d s) auto

text \<open>The password check accepts exactly the texts of between \<open>minLen\<close> and \<open>maxLen\<close> bytes that have a
  letter and a rune that is not a letter but a digit, a punctuation mark or a symbol. The lengths are
  in bytes, whatever the message says of characters.\<close>

lemma validate_password_exact:
  "validate_Password U itoa pw minLen maxLen = None \<longleftrightarrow>
     pw \<noteq> '''' \<and> minLen \<le> int (length pw) \<and> int (length pw) \<le> maxLen \<and>
     (\<exists>r \<in> set (string_runes pw). uc_IsLetter U r) \<and>
     (\<exists>r \<in> set (string_runes pw). \<not> uc_IsLetter U r \<and> (uc_IsDigit U r \<or> uc_IsPunct U r \<or> uc_IsSymbol U r))"
  by (auto simp: validate_Password_def scan_password_flags)

lemma match_classes_Cons: "match_classes (p # ps) s \<longleftrightarrow> (\<exists>c v. s = c # v \<and> p c \<and> match_classes ps v)"
  by (cases s) auto

definition hex_group :: "nat \<Rightarrow> string \<Rightarrow> bool" where
  "hex_group n s \<longleftrightarrow> length s = n \<and> (\<forall>c \<in> set s. hex_lower c)"

lemma hex_group_simps [simp]: "hex_group 0 s \<longleftrightarrow> s = []" "hex_group (Suc n) (c # s) \<longleftrightarrow> hex_lower c \<and> hex_group n s"
  by (auto simp: hex_group_def)

lemma match_group_intro:
  "hex_group n u \<Longrightarrow> match_classes qs v \<Longrightarrow> match_classes (replicate n hex_lower @ qs) (u @ v)"
proof (induction n arbitrary: u)
  case (Suc n)
  then show ?case by (cases u) (auto simp: hex_group_def)
qed simp

lemma match_group_elim:
  assumes "match_classes (replicate n hex_lower @ qs) s"
  obtains u v where "s = u @ v" "hex_group n u" "match_classes qs v"
  using assms
proof (induction n arbitrary: s thesis)
  case 0
  then show ?case by (metis append_Nil hex_group_simps(1) replicate_0)
next
  case (Suc n)
  then obtain c cs where s: "s = c # cs" "hex_lower c" "match_classes (replicate n hex_lower @ qs) cs"
    by (auto simp: match_classes_Cons)
  obtain u v where "cs = u @ v" "hex_group n u" "match_classes qs v" using Suc.IH[OF _ s(3)] by blast
  then show ?case using Suc.prems(1)[of "c # u" v] s by simp
qed

lemma match_one_elim:
  assumes "match_classes (p # ps) s"
  obtains c v where "s = c # v" "p c" "match_classes ps v"
  using assms by (auto simp: match_classes_Cons)

lemma match_last_group: "match_classes (replicate n hex_lower) s \<longleftrightarrow> hex_group n s"
proof
  assume "match_classes (replicate n hex_lower) s"
  then have "match_classes (replicate n hex_lower @ []) s" by simp
  then show "hex_group n s" by (rule match_group_elim) simp
next
  assume "hex_group n s"
  then show "match_classes (replicate n hex_lower) s" using match_group_intro[of n s "[]" "[]"] by simp
qed

text \<open>The UUID check accepts exactly, whatever the case of the letters, the texts of five groups of hexadecimal digits with the
  hyphens between them whose third group begins with the version 4 and whose fourth with a variant
  digit.\<close>

lemma validate_uuid_exact:
  "validate_UUID s = None \<longleftrightarrow>
     (\<exists>a b c v d e. ToLower s = a @ ''-'' @ b @ ''-4'' @ c @ ''-'' @ v # d @ ''-'' @ e \<and> hex_group 8 a \<and> hex_group 4 b \<and>
        hex_group 3 c \<and> v \<in> set ''89ab'' \<and> hex_group 3 d \<and> hex_group 12 e)"
    (is "_ \<longleftrightarrow> ?uuid (ToLower s)")
proof -
  have "match_classes uuid_pattern t \<longleftrightarrow> ?uuid t" for t
  proof
    assume "match_classes uuid_pattern t"
    note matched = \<open>match_classes uuid_pattern t\<close>[unfolded uuid_pattern_def append.simps]
    show "?uuid t"
      using matched
    proof (elim match_group_elim match_one_elim, unfold match_last_group)
      fix a v1 c1 v2 b v3 c2 v4 c3 v5 c v6 c4 v7 v v8 d v9 c5 e
      assume "t = a @ v1" "hex_group 8 a" "v1 = c1 # v2" "c1 = CHR ''-''" "v2 = b @ v3" "hex_group 4 b" "v3 = c2 # v4" "c2 = CHR ''-''"
        "v4 = c3 # v5" "c3 = CHR ''4''" "v5 = c @ v6" "hex_group 3 c" "v6 = c4 # v7" "c4 = CHR ''-''" "v7 = v # v8" "v \<in> set ''89ab''"
        "v8 = d @ v9" "hex_group 3 d" "v9 = c5 # e" "c5 = CHR ''-''" "hex_group 12 e"
      then show "?uuid t" by (intro exI[of _ a] exI[of _ b] exI[of _ c] exI[of _ v] exI[of _ d] exI[of _ e]) simp
    qed
  next
    assume "?uuid t"
    then obtain a b c v d e where t: "t = a @ ''-'' @ b @ ''-4'' @ c @ ''-'' @ v # d @ ''-'' @ e"
      and groups: "hex_group 8 a" "hex_group 4 b" "hex_group 3 c" "v \<in> set ''89ab''" "hex_group 3 d" "hex_group 12 e" by blast
    show "match_classes uuid_pattern t"
      unfolding t uuid_pattern_def append.simps
      using groups by (simp only: match_classes.simps match_group_intro match_last_group simp_thms)
  qed
  then have "match_classes uuid_pattern (ToLower s) \<longleftrightarrow> ?uuid (ToLower s)" .
  moreover have "s = '''' \<Longrightarrow> \<not> ?uuid (ToLower s)" by simp
  moreover have "validate_UUID s = None \<longleftrightarrow> s \<noteq> '''' \<and> match_classes uuid_pattern (ToLower s)" by (simp add: validate_UUID_def)
  ultimately show ?thesis by blast
qed

end
