(* ===== verification/Health.thy ===== *)
theory Health
  imports Cache_Port Go_Map
begin

text \<open>
  Health over HTTP: the shared handler with its list of checks (\<open>shared/health/health.go\<close>) and the
  handler of the spot service (\<open>spot-service/internal/handler/health.go\<close>). A check is a name and what
  its ping answers for a context; the JSON encoding of the answer is left out.
\<close>

section \<open>The shared handler\<close>

record health_check =
  hk_Name :: string
  hk_Check :: "ctx \<Rightarrow> err option"

record health_status =
  hs_Status :: string
  hs_Timestamp :: time
  hs_Checks :: "(string, string) gomap"
  hs_Version :: string
  hs_Commit :: string

record health_handler =
  hh_checks :: "health_check list"
  hh_version :: string
  hh_commit :: string

definition health_NewHandler :: "string \<Rightarrow> string \<Rightarrow> health_handler" where
  "health_NewHandler version commit = \<lparr>hh_checks = [], hh_version = version, hh_commit = commit\<rparr>"

definition AddCheck :: "health_check \<Rightarrow> health_handler \<Rightarrow> health_handler" where
  "AddCheck c h = h\<lparr>hh_checks := hh_checks h @ [c]\<rparr>"

definition NewDBCheck :: "string \<Rightarrow> (ctx \<Rightarrow> err option) \<Rightarrow> health_check" where
  "NewDBCheck name ping = \<lparr>hk_Name = name, hk_Check = ping\<rparr>"

definition NewRedisCheck :: "string \<Rightarrow> (ctx \<Rightarrow> err option) \<Rightarrow> health_check" where
  "NewRedisCheck name ping = \<lparr>hk_Name = name, hk_Check = ping\<rparr>"

text \<open>The loop of \<open>evaluate\<close>: the results by name, and whether a check failed.\<close>

fun run_checks :: "ctx \<Rightarrow> health_check list \<Rightarrow> (string, string) gomap \<times> bool \<Rightarrow> (string, string) gomap \<times> bool" where
  "run_checks cx [] (m, degraded) = (m, degraded)"
| "run_checks cx (c # cs) (m, degraded) =
     (case hk_Check c cx of
        Some _ \<Rightarrow> run_checks cx cs (gm_put (hk_Name c) ''error'' m, True)
      | None \<Rightarrow> run_checks cx cs (gm_put (hk_Name c) ''ok'' m, degraded))"

definition evaluate :: "ctx \<Rightarrow> time \<Rightarrow> health_handler \<Rightarrow> health_status" where
  "evaluate cx now h =
     (case run_checks cx (hh_checks h) ([], False) of
        (m, degraded) \<Rightarrow>
          \<lparr>hs_Status = if degraded then ''degraded'' else ''ok'', hs_Timestamp = now, hs_Checks = m,
           hs_Version = hh_version h, hs_Commit = hh_commit h\<rparr>)"

definition health_ServeHTTP :: "ctx \<Rightarrow> time \<Rightarrow> health_handler \<Rightarrow> nat \<times> health_status" where
  "health_ServeHTTP cx now h =
     (let st = evaluate cx now h in (if hs_Status st \<noteq> ''ok'' then 503 else 200, st))"

text \<open>\<open>Register\<close>: both paths have the same handler; any other one is not found.\<close>

definition health_mux :: "string \<Rightarrow> ctx \<Rightarrow> time \<Rightarrow> health_handler \<Rightarrow> (nat \<times> health_status) option" where
  "health_mux path cx now h =
     (if path = ''/healthz'' \<or> path = ''/ready'' then Some (health_ServeHTTP cx now h) else None)"

section \<open>What the shared handler answers\<close>

abbreviation verdict :: "ctx \<Rightarrow> health_check \<Rightarrow> string" where
  "verdict cx c \<equiv> (if hk_Check c cx = None then ''ok'' else ''error'')"

abbreviation last_named :: "string \<Rightarrow> health_check list \<Rightarrow> health_check option" where
  "last_named n cs \<equiv> find (\<lambda>c. hk_Name c = n) (rev cs)"

lemma run_checks_degraded: "snd (run_checks cx cs (m, d)) \<longleftrightarrow> d \<or> (\<exists>c\<in>set cs. hk_Check c cx \<noteq> None)"
  by (induction cs arbitrary: m d) (auto split: option.split)

lemma find_append: "find P (xs @ ys) = (case find P xs of Some x \<Rightarrow> Some x | None \<Rightarrow> find P ys)"
  by (induction xs) auto

lemma run_checks_map:
  "gm_get (fst (run_checks cx cs (m, d))) n =
    (case last_named n cs of Some c \<Rightarrow> Some (verdict cx c) | None \<Rightarrow> gm_get m n)"
proof (induction cs arbitrary: m d)
  case (Cons c cs)
  have "gm_get (fst (run_checks cx (c # cs) (m, d))) n =
    (case last_named n cs of Some b \<Rightarrow> Some (verdict cx b) | None \<Rightarrow> gm_get (gm_put (hk_Name c) (verdict cx c) m) n)"
    by (cases "hk_Check c cx") (simp_all add: Cons.IH del: gm_get_put)
  then show ?case by (auto simp: find_append gm_get_put split: option.split)
qed simp

abbreviation registered :: "string \<Rightarrow> string \<Rightarrow> health_check list \<Rightarrow> health_handler" where
  "registered v g cs \<equiv> fold AddCheck cs (health_NewHandler v g)"

lemma registered_checks: "hh_checks (fold AddCheck cs h) = hh_checks h @ cs"
  by (induction cs arbitrary: h) (simp_all add: AddCheck_def)

lemma registered_handler:
  "hh_checks (registered v g cs) = cs" "hh_version (registered v g cs) = v" "hh_commit (registered v g cs) = g"
proof -
  have "hh_version (fold AddCheck cs h) = hh_version h \<and> hh_commit (fold AddCheck cs h) = hh_commit h" for h
    by (induction cs arbitrary: h) (simp_all add: AddCheck_def)
  then show "hh_checks (registered v g cs) = cs" "hh_version (registered v g cs) = v" "hh_commit (registered v g cs) = g"
    by (simp_all add: registered_checks health_NewHandler_def)
qed

text \<open>The health of a service: after any registrations the handler answers status 200 and ok exactly
  when no check fails, 503 and degraded otherwise; the result of a name is that of the check registered
  last under it, so that a failing check can hide behind a later one of the same name, though not from
  the status. Readiness is the same answer.\<close>

lemma health_exact:
  "fst (health_ServeHTTP cx now (registered v g cs)) = (if list_all (\<lambda>c. hk_Check c cx = None) cs then 200 else 503) \<and>
   snd (health_ServeHTTP cx now (registered v g cs)) = evaluate cx now (registered v g cs) \<and>
   hs_Status (evaluate cx now (registered v g cs)) = (if list_all (\<lambda>c. hk_Check c cx = None) cs then ''ok'' else ''degraded'') \<and>
   gm_get (hs_Checks (evaluate cx now (registered v g cs))) n = map_option (verdict cx) (last_named n cs) \<and>
   health_mux ''/ready'' cx now h = health_mux ''/healthz'' cx now h"
proof -
  obtain m d where run: "run_checks cx cs ([], False) = (m, d)" by fastforce
  have d: "d \<longleftrightarrow> \<not> list_all (\<lambda>c. hk_Check c cx = None) cs"
    using run_checks_degraded[of cx cs "[]" False] run by (auto simp: list_all_iff)
  have m: "gm_get m n = map_option (verdict cx) (last_named n cs)"
    using run_checks_map[of cx cs "[]" False n] run by (auto split: option.splits)
  show ?thesis
    using d m by (simp add: health_ServeHTTP_def evaluate_def registered_handler run health_mux_def Let_def)
qed

section \<open>The handler of the spot service\<close>

record spot_health_response =
  sr_Status :: string
  sr_Version :: string
  sr_Checks :: "(string, bool) gomap"

text \<open>A cache that is not there is \<open>None\<close>; the answer says degraded then, as the map has no entry for it.\<close>

definition ping_cache :: "'s cache_ops option \<Rightarrow> string \<Rightarrow> poll \<Rightarrow> time \<Rightarrow> 's \<Rightarrow> 's \<times> (string, bool) gomap" where
  "ping_cache cache key p now s =
     (case cache of
        None \<Rightarrow> (s, [])
      | Some ops \<Rightarrow> (case c_Get ops p now key s of
          (s', Inl e) \<Rightarrow> (s', gm_put ''cache'' False []) | (s', Inr _) \<Rightarrow> (s', gm_put ''cache'' True [])))"

definition spot_ServeHTTP :: "'s cache_ops option \<Rightarrow> poll \<Rightarrow> time \<Rightarrow> 's \<Rightarrow> 's \<times> nat \<times> spot_health_response" where
  "spot_ServeHTTP cache p now s =
     (case ping_cache cache ''health:ping'' p now s of
        (s', checks) \<Rightarrow>
          (s', 200, \<lparr>sr_Status = if gm_get checks ''cache'' = Some True then ''ok'' else ''degraded'', sr_Version = ''1.0.0'', sr_Checks = checks\<rparr>))"

definition spot_ReadyHandler :: "'s cache_ops option \<Rightarrow> poll \<Rightarrow> time \<Rightarrow> 's \<Rightarrow> 's \<times> nat \<times> bool \<times> (string, bool) gomap" where
  "spot_ReadyHandler cache p now s =
     (case ping_cache cache ''ready:ping'' p now s of
        (s', checks) \<Rightarrow>
          let ready = (cache = None \<or> gm_get checks ''cache'' = Some True)
          in (s', if ready then 200 else 503, ready, checks))"

text \<open>With the cache of the service as it is built: fit while the request lives, and a probe leaves
  what the cache holds; a degraded service still answers 200, and without a cache it is degraded and ready.\<close>

lemma spot_health_lru:
  "snd (spot_ServeHTTP (Some lru_ops) p now c) =
    (200, \<lparr>sr_Status = if p = None then ''ok'' else ''degraded'', sr_Version = ''1.0.0'', sr_Checks = [(''cache'', p = None)]\<rparr>)"
  "snd (spot_ReadyHandler (Some lru_ops) p now c) = (if p = None then 200 else 503, p = None, [(''cache'', p = None)])"
  by (cases p; simp add: spot_ServeHTTP_def spot_ReadyHandler_def ping_cache_def lru_Get_def gm_put_def gm_get_def
      split: option.split)+

lemma spot_health_keeps:
  assumes "lru_wf c" and "lru_live t (fst (spot_ServeHTTP (Some lru_ops) p now c)) k = Some v"
  shows "lru_live t c k = Some v"
proof -
  have "fst (spot_ServeHTTP (Some lru_ops) p now c) = fst (lru_Get p now ''health:ping'' c)"
    by (simp add: spot_ServeHTTP_def ping_cache_def split: prod.split sum.split)
  then show ?thesis using assms lru_cache.get_live[of c t p now "''health:ping''" k v] by simp
qed

lemma spot_health_none:
  "snd (spot_ServeHTTP None p now c) = (200, \<lparr>sr_Status = ''degraded'', sr_Version = ''1.0.0'', sr_Checks = []\<rparr>)"
  "snd (spot_ReadyHandler None p now c) = (200, True, [])"
  by (simp_all add: spot_ServeHTTP_def spot_ReadyHandler_def ping_cache_def)

end
