(* ===== verification/Wiring.thy ===== *)
theory Wiring
  imports Errors
begin

text \<open>
  How the processes are put together: the providers of \<open>order-service/internal/di/module.go\<close>,
  \<open>user-service/internal/di/module.go\<close> and \<open>spot-service/internal/di/module.go\<close>, each by the types that it
  needs and the type that it gives, and what each process asks for when it starts. The container is the fx
  library: a parameter with the law that its documentation states, a value of a type is made only by a provider of exactly that
  type from values of the types it needs. Types carry the name of their service where Go's packages differ.
\<close>

section \<open>Providers\<close>

type_synonym gotype = string

record provider =
  pv_needs :: "gotype list"
  pv_gives :: gotype

definition provides :: "gotype list \<Rightarrow> gotype \<Rightarrow> provider" where
  "provides needs gives = \<lparr>pv_needs = needs, pv_gives = gives\<rparr>"

text \<open>What fx itself can hand out.\<close>

definition builtins :: "gotype list" where
  "builtins = [''fx.Lifecycle'', ''fx.Shutdowner'', ''fx.DotGraph'']"

definition OrderModule :: "provider list" where
  "OrderModule =
     [provides [] ''*order/config.Config'',
      provides [''*order/config.Config''] ''*zap.Logger'',
      provides [''*order/config.Config'', ''*zap.Logger''] ''shared/ports.IdempotencyStore'',
      provides [''order/ports.OrderRepository'', ''order/ports.MarketClient'', ''*zap.Logger''] ''*order/service.OrderService'',
      provides [''*order/service.OrderService'', ''*zap.Logger''] ''*order/handler.GRPCHandler'']"

definition order_start :: "gotype list" where
  "order_start = [''fx.Lifecycle'', ''*zap.Logger'', ''*order/config.Config'', ''*order/handler.GRPCHandler'']"

definition UserModule :: "provider list" where
  "UserModule =
     [provides [] ''*user/config.Config'',
      provides [''*user/config.Config''] ''*zap.Logger'',
      provides [] ''*user/repository.UserRepository'',
      provides [] ''*user/repository.TokenRepository'',
      provides [''*user/jwtmanager.KeyPair'', ''time.Duration'', ''time.Duration''] ''*user/jwtmanager.Signer'',
      provides [''*rsa.PublicKey''] ''*user/jwtmanager.Validator'',
      provides [''*shared/jwtvalidator.Validator'', ''*zap.Logger''] ''*user/middleware.AuthMiddleware'',
      provides [''user/ports.UserRepository'', ''user/ports.TokenRepository'', ''*user/jwtmanager.Signer'', ''*zap.Logger'']
        ''*user/service.AuthService'',
      provides [''*user/service.AuthService'', ''*zap.Logger'', ''*user/config.Config''] ''*user/handler.GRPCHandler'']"

definition user_start :: "gotype list" where
  "user_start = [''fx.Lifecycle'', ''*zap.Logger'', ''*user/config.Config'', ''*user/middleware.AuthMiddleware'', ''*user/handler.GRPCHandler'']"

definition SpotModule :: "provider list" where
  "SpotModule =
     [provides [] ''*spot/config.Config'',
      provides [''*spot/config.Config''] ''*zap.Logger'',
      provides [''*spot/config.Config''] ''shared/ports.Cache'',
      provides [] ''spot/ports.MarketRepository'',
      provides [''spot/ports.MarketRepository'', ''shared/ports.Cache'', ''*zap.Logger''] ''*spot/service.SpotService'',
      provides [''*spot/service.SpotService'', ''*zap.Logger''] ''*spot/handler.SpotHandler'']"

definition spot_start :: "gotype list" where
  "spot_start = [''fx.Lifecycle'', ''*zap.Logger'', ''*spot/config.Config'', ''*spot/service.SpotService'', ''*spot/handler.SpotHandler'']"

section \<open>The container\<close>

text \<open>\<open>available ps t\<close>: the container with the providers \<open>ps\<close> can hand out a value of type \<open>t\<close>.\<close>

locale container =
  fixes available :: "provider list \<Rightarrow> gotype \<Rightarrow> bool"
  assumes made: "available ps t \<Longrightarrow> t \<in> set builtins \<or> (\<exists>p \<in> set ps. pv_gives p = t \<and> (\<forall>u \<in> set (pv_needs p). available ps u))"
    and builtin: "t \<in> set builtins \<Longrightarrow> available ps t"
    and make: "p \<in> set ps \<Longrightarrow> \<forall>u \<in> set (pv_needs p). available ps u \<Longrightarrow> available ps (pv_gives p)"
begin

text \<open>A type that no provider gives is not available, and neither is one whose every provider needs such a type.\<close>

lemma missing: "t \<notin> set builtins \<Longrightarrow> t \<notin> pv_gives ` set ps \<Longrightarrow> \<not> available ps t"
  using made by blast

lemma starved:
  "t \<notin> set builtins \<Longrightarrow> u \<in> set needs \<Longrightarrow> \<not> available ps u \<Longrightarrow> \<forall>p \<in> set ps. pv_gives p = t \<longrightarrow> pv_needs p = needs \<Longrightarrow>
   \<not> available ps t"
  using made by metis

lemma supply_all: "provides needs t \<in> set ps \<Longrightarrow> list_all (available ps) needs \<Longrightarrow> available ps t"
  using make[of "provides needs t" ps] by (simp add: provides_def list_all_iff)

end

text \<open>A process starts when the container has everything it asks for, and no constructor fails.\<close>

definition starts :: "(provider list \<Rightarrow> gotype \<Rightarrow> bool) \<Rightarrow> provider list \<Rightarrow> gotype list \<Rightarrow> bool" where
  "starts available ps asked = list_all (available ps) asked"

section \<open>Which processes start\<close>

lemmas module_defs = OrderModule_def UserModule_def SpotModule_def provides_def builtins_def

lemmas in_OrderModule = arg_cong[OF OrderModule_def, of "\<lambda>ps. p \<in> set ps" for p, simplified]
lemmas in_SpotModule = arg_cong[OF SpotModule_def, of "\<lambda>ps. p \<in> set ps" for p, simplified]

lemma order_no_repository: "container available \<Longrightarrow> \<not> available OrderModule ''order/ports.OrderRepository''"
  by (rule container.missing) (simp_all add: module_defs)

lemma user_no_repository: "container available \<Longrightarrow> \<not> available UserModule ''user/ports.UserRepository''"
  by (rule container.missing) (simp_all add: module_defs)

lemma order_no_handler:
  assumes "container available"
  shows "\<not> available OrderModule ''*order/handler.GRPCHandler''"
proof -
  have "\<not> available OrderModule ''*order/service.OrderService''"
    by (rule container.starved[OF assms _ _ order_no_repository[OF assms], of _ "[''order/ports.OrderRepository'', ''order/ports.MarketClient'', ''*zap.Logger'']"])
      (simp_all add: module_defs)
  then show ?thesis
    by (rule container.starved[OF assms, of _ _ "[''*order/service.OrderService'', ''*zap.Logger'']", rotated 2]) (simp_all add: module_defs)
qed

lemma user_no_handler:
  assumes "container available"
  shows "\<not> available UserModule ''*user/handler.GRPCHandler''"
proof -
  have "\<not> available UserModule ''*user/service.AuthService''"
    by (rule container.starved[OF assms _ _ user_no_repository[OF assms],
        of _ "[''user/ports.UserRepository'', ''user/ports.TokenRepository'', ''*user/jwtmanager.Signer'', ''*zap.Logger'']"])
      (simp_all add: module_defs)
  then show ?thesis
    by (rule container.starved[OF assms, of _ _ "[''*user/service.AuthService'', ''*zap.Logger'', ''*user/config.Config'']", rotated 2])
      (simp_all add: module_defs)
qed

lemma spot_all:
  assumes "container available"
  shows "list_all (available SpotModule) spot_start"
proof -
  note s = container.supply_all[OF assms]
  have c: "available SpotModule ''*spot/config.Config''" by (rule s[of "[]"]) (simp_all add: in_SpotModule)
  have l: "available SpotModule ''*zap.Logger''" by (rule s[of "[''*spot/config.Config'']"]) (simp_all add: in_SpotModule c)
  have k: "available SpotModule ''shared/ports.Cache''" by (rule s[of "[''*spot/config.Config'']"]) (simp_all add: in_SpotModule c)
  have r: "available SpotModule ''spot/ports.MarketRepository''" by (rule s[of "[]"]) (simp_all add: in_SpotModule)
  have v: "available SpotModule ''*spot/service.SpotService''"
    by (rule s[of "[''spot/ports.MarketRepository'', ''shared/ports.Cache'', ''*zap.Logger'']"]) (simp_all add: in_SpotModule r k l)
  have "available SpotModule ''*spot/handler.SpotHandler''"
    by (rule s[of "[''*spot/service.SpotService'', ''*zap.Logger'']"]) (simp_all add: in_SpotModule v l)
  moreover have "available SpotModule ''fx.Lifecycle''" by (rule container.builtin[OF assms]) (simp add: builtins_def)
  ultimately show ?thesis using c l v by (simp add: spot_start_def)
qed

text \<open>C40: As they are built, the order service and the user service never start: in any container that makes values from
  the providers of exactly their types, the order service lacks its repository (and the market client), the user service its
  repositories, which are provided as pointers to structures while interfaces are asked for. The spot service starts.\<close>

theorem which_services_start:
  assumes "container available"
  shows "\<not> starts available OrderModule order_start \<and> \<not> starts available UserModule user_start \<and>
    starts available SpotModule spot_start"
  using order_no_handler[OF assms] user_no_handler[OF assms] spot_all[OF assms]
  by (simp add: starts_def order_start_def user_start_def)

text \<open>With the two missing providers, which the repository has constructors for, the order service starts.\<close>

lemma order_repaired:
  assumes "container available"
  shows "starts available (OrderModule @ [provides [] ''order/ports.OrderRepository'',
    provides [''*grpc.ClientConn''] ''order/ports.MarketClient'', provides [] ''*grpc.ClientConn'']) order_start"
    (is "starts available ?ps _")
proof -
  note s = container.supply_all[OF assms]
  have c: "available ?ps ''*order/config.Config''" by (rule s[of "[]"]) (simp_all add: in_OrderModule)
  have l: "available ?ps ''*zap.Logger''" by (rule s[of "[''*order/config.Config'']"]) (simp_all add: in_OrderModule c)
  have r: "available ?ps ''order/ports.OrderRepository''" by (rule s[of "[]"]) simp_all
  have g: "available ?ps ''*grpc.ClientConn''" by (rule s[of "[]"]) simp_all
  have m: "available ?ps ''order/ports.MarketClient''" by (rule s[of "[''*grpc.ClientConn'']"]) (simp_all add: g)
  have v: "available ?ps ''*order/service.OrderService''"
    by (rule s[of "[''order/ports.OrderRepository'', ''order/ports.MarketClient'', ''*zap.Logger'']"]) (simp_all add: in_OrderModule r m l)
  have "available ?ps ''*order/handler.GRPCHandler''"
    by (rule s[of "[''*order/service.OrderService'', ''*zap.Logger'']"]) (simp_all add: in_OrderModule v l)
  moreover have "available ?ps ''fx.Lifecycle''" by (rule container.builtin[OF assms]) (simp add: builtins_def)
  ultimately show ?thesis using c l by (simp add: starts_def order_start_def)
qed

section \<open>The least container\<close>

inductive fx_made :: "provider list \<Rightarrow> gotype \<Rightarrow> bool" for ps where
  fx_builtin: "t \<in> set builtins \<Longrightarrow> fx_made ps t"
| fx_make: "p \<in> set ps \<Longrightarrow> \<forall>u \<in> set (pv_needs p). fx_made ps u \<Longrightarrow> fx_made ps (pv_gives p)"

interpretation fx: container fx_made
  by unfold_locales (auto intro: fx_made.intros elim: fx_made.cases)

theorem which_services_start_witness:
  "\<not> starts fx_made OrderModule order_start \<and> \<not> starts fx_made UserModule user_start \<and> starts fx_made SpotModule spot_start"
  by (rule which_services_start) (rule fx.container_axioms)

end
