(* ===== verification/Auth_Programs.thy ===== *)
theory Auth_Programs
  imports Auth_Props Interleaving
begin

text \<open>
  The authentication service step by step. gRPC serves every call in a goroutine of its own, and
  the service takes no lock: only the operations of the two repositories are atomic, under their
  mutexes. Here each method of \<open>user-service/internal/service/auth.go\<close> is a program whose steps are
  those operations, each with a continuation on its result; run alone it is the function of
  \<open>Auth_Service\<close>.
\<close>

section \<open>Programs over the two ports\<close>

datatype 'a auth_prog =
  Ret 'a
| DoCreate poll time user "user result \<Rightarrow> 'a auth_prog"
| DoGetByID poll string "user result \<Rightarrow> 'a auth_prog"
| DoGetByEmail poll string "user result \<Rightarrow> 'a auth_prog"
| DoUpdate poll time user "user result \<Rightarrow> 'a auth_prog"
| DoStore poll refresh_token "unit result \<Rightarrow> 'a auth_prog"
| DoGet poll time string "refresh_token result \<Rightarrow> 'a auth_prog"
| DoRevoke poll string "unit result \<Rightarrow> 'a auth_prog"
| DoRevokeAll poll string "unit result \<Rightarrow> 'a auth_prog"

fun prog_next ::
  "'u user_ops \<Rightarrow> 't token_ops \<Rightarrow> 'a auth_prog \<Rightarrow> 'u \<times> 't \<Rightarrow> (('u \<times> 't) \<times> 'a auth_prog) option"
where
  "prog_next uo to (Ret x) (us, ts) = None"
| "prog_next uo to (DoCreate p now u k) (us, ts) =
     Some ((fst (ur_Create uo p now u us), ts), k (snd (ur_Create uo p now u us)))"
| "prog_next uo to (DoGetByID p i k) (us, ts) = Some ((us, ts), k (ur_GetByID uo p i us))"
| "prog_next uo to (DoGetByEmail p e k) (us, ts) = Some ((us, ts), k (ur_GetByEmail uo p e us))"
| "prog_next uo to (DoUpdate p now u k) (us, ts) =
     Some ((fst (ur_Update uo p now u us), ts), k (snd (ur_Update uo p now u us)))"
| "prog_next uo to (DoStore p t k) (us, ts) =
     Some ((us, fst (tr_Store to p t ts)), k (snd (tr_Store to p t ts)))"
| "prog_next uo to (DoGet p now tok k) (us, ts) = Some ((us, ts), k (tr_Get to p now tok ts))"
| "prog_next uo to (DoRevoke p tok k) (us, ts) =
     Some ((us, fst (tr_Revoke to p tok ts)), k (snd (tr_Revoke to p tok ts)))"
| "prog_next uo to (DoRevokeAll p i k) (us, ts) =
     Some ((us, fst (tr_RevokeAllByUser to p i ts)), k (snd (tr_RevokeAllByUser to p i ts)))"

text \<open>A program run with nothing in between.\<close>

primrec prog_run :: "'u user_ops \<Rightarrow> 't token_ops \<Rightarrow> 'a auth_prog \<Rightarrow> 'u \<times> 't \<Rightarrow> ('u \<times> 't) \<times> 'a" where
  "prog_run uo to (Ret x) st = (st, x)"
| "prog_run uo to (DoCreate p now u k) st =
     prog_run uo to (k (snd (ur_Create uo p now u (fst st)))) (fst (ur_Create uo p now u (fst st)), snd st)"
| "prog_run uo to (DoGetByID p i k) st = prog_run uo to (k (ur_GetByID uo p i (fst st))) st"
| "prog_run uo to (DoGetByEmail p e k) st = prog_run uo to (k (ur_GetByEmail uo p e (fst st))) st"
| "prog_run uo to (DoUpdate p now u k) st =
     prog_run uo to (k (snd (ur_Update uo p now u (fst st)))) (fst (ur_Update uo p now u (fst st)), snd st)"
| "prog_run uo to (DoStore p t k) st =
     prog_run uo to (k (snd (tr_Store to p t (snd st)))) (fst st, fst (tr_Store to p t (snd st)))"
| "prog_run uo to (DoGet p now tok k) st = prog_run uo to (k (tr_Get to p now tok (snd st))) st"
| "prog_run uo to (DoRevoke p tok k) st =
     prog_run uo to (k (snd (tr_Revoke to p tok (snd st)))) (fst st, fst (tr_Revoke to p tok (snd st)))"
| "prog_run uo to (DoRevokeAll p i k) st =
     prog_run uo to (k (snd (tr_RevokeAllByUser to p i (snd st)))) (fst st, fst (tr_RevokeAllByUser to p i (snd st)))"

text \<open>The new token of a \<open>Store\<close> that takes place is one the store does not hold: \<open>uuid.New()\<close>.\<close>

definition prog_guard :: "('t \<Rightarrow> string \<Rightarrow> refresh_token option) \<Rightarrow> 'a auth_prog \<Rightarrow> 'u \<times> 't \<Rightarrow> bool" where
  "prog_guard tokens_of p st =
     (case p of DoStore poll t k \<Rightarrow> poll = None \<longrightarrow> tokens_of (snd st) (rt_Token t) = None | _ \<Rightarrow> True)"

lemma prog_guard_simps [simp]:
  "prog_guard T (DoStore p t k) st \<longleftrightarrow> (p = None \<longrightarrow> T (snd st) (rt_Token t) = None)"
  "prog_guard T (Ret x) st" "prog_guard T (DoCreate p now u k') st" "prog_guard T (DoGetByID p i k') st"
  "prog_guard T (DoGetByEmail p i k') st" "prog_guard T (DoUpdate p now u k') st"
  "prog_guard T (DoGet p now i l) st" "prog_guard T (DoRevoke p i m) st" "prog_guard T (DoRevokeAll p i m) st"
  by (simp_all add: prog_guard_def)

lemma prog_next_run: "prog_next uo to p st = Some (st', q) \<Longrightarrow> prog_run uo to p st = prog_run uo to q st'"
  by (cases p; cases st) auto

lemma prog_next_finished: "prog_next uo to p st = None \<longleftrightarrow> (\<exists>x. p = Ret x)"
  by (cases p; cases st) auto

text \<open>Every token that a program run alone stores is fresh when it is stored.\<close>

primrec prog_fresh ::
  "'u user_ops \<Rightarrow> 't token_ops \<Rightarrow> ('t \<Rightarrow> string \<Rightarrow> refresh_token option) \<Rightarrow> 'a auth_prog \<Rightarrow> 'u \<times> 't \<Rightarrow> bool"
where
  "prog_fresh uo to T (Ret x) st = True"
| "prog_fresh uo to T (DoCreate p now u k) st =
     prog_fresh uo to T (k (snd (ur_Create uo p now u (fst st)))) (fst (ur_Create uo p now u (fst st)), snd st)"
| "prog_fresh uo to T (DoGetByID p i k) st = prog_fresh uo to T (k (ur_GetByID uo p i (fst st))) st"
| "prog_fresh uo to T (DoGetByEmail p e k) st = prog_fresh uo to T (k (ur_GetByEmail uo p e (fst st))) st"
| "prog_fresh uo to T (DoUpdate p now u k) st =
     prog_fresh uo to T (k (snd (ur_Update uo p now u (fst st)))) (fst (ur_Update uo p now u (fst st)), snd st)"
| "prog_fresh uo to T (DoStore p t k) st = ((p = None \<longrightarrow> T (snd st) (rt_Token t) = None) \<and>
     prog_fresh uo to T (k (snd (tr_Store to p t (snd st)))) (fst st, fst (tr_Store to p t (snd st))))"
| "prog_fresh uo to T (DoGet p now tok k) st = prog_fresh uo to T (k (tr_Get to p now tok (snd st))) st"
| "prog_fresh uo to T (DoRevoke p tok k) st =
     prog_fresh uo to T (k (snd (tr_Revoke to p tok (snd st)))) (fst st, fst (tr_Revoke to p tok (snd st)))"
| "prog_fresh uo to T (DoRevokeAll p i k) st =
     prog_fresh uo to T (k (snd (tr_RevokeAllByUser to p i (snd st)))) (fst st, fst (tr_RevokeAllByUser to p i (snd st)))"

lemma prog_fresh_map: "prog_fresh uo to T (map_auth_prog f p) st = prog_fresh uo to T p st"
  by (induction p arbitrary: st) simp_all

lemma prog_fresh_next:
  "prog_fresh uo to T p st \<Longrightarrow> prog_next uo to p st = Some (st', q) \<Longrightarrow> prog_guard T p st \<and> prog_fresh uo to T q st'"
  by (cases p; cases st) auto

text \<open>In a pool, a call that nothing interrupts runs to its end.\<close>

lemma pool_run_step:
  assumes "prog_fresh uo to T p st" and "i < length ps" and "ps ! i = (t, p)" and "prog_run uo to p st = (st', x)"
    and some: "prog_next uo to p st = Some (st1, q)"
    and rest: "\<And>ps. prog_fresh uo to T q st1 \<Longrightarrow> i < length ps \<Longrightarrow> ps ! i = (t, q) \<Longrightarrow> prog_run uo to q st1 = (st', x) \<Longrightarrow>
      pool_steps (prog_next uo to) (prog_guard T) start (st1, ps) (st', ps[i := (t, Ret x)])"
  shows "pool_steps (prog_next uo to) (prog_guard T) start (st, ps) (st', ps[i := (t, Ret x)])"
proof -
  note g = prog_fresh_next[OF assms(1) some]
  have "pool_step (prog_next uo to) (prog_guard T) start (st, ps) (st1, ps[i := (t, q)])"
    using pool_step.advance[of i ps t p "prog_next uo to" st st1 q "prog_guard T" start] assms(2,3) some g by blast
  moreover have "pool_steps (prog_next uo to) (prog_guard T) start (st1, ps[i := (t, q)]) (st', ps[i := (t, Ret x)])"
    using rest[of "ps[i := (t, q)]"] g assms(2,4) prog_next_run[OF some] by simp
  ultimately show ?thesis by (rule converse_rtranclp_into_rtranclp)
qed

lemma pool_run_alone:
  "prog_fresh uo to T p st \<Longrightarrow> i < length ps \<Longrightarrow> ps ! i = (t, p) \<Longrightarrow> prog_run uo to p st = (st', x) \<Longrightarrow>
   pool_steps (prog_next uo to) (prog_guard T) start (st, ps) (st', ps[i := (t, Ret x)])"
proof (induction p arbitrary: st ps)
  case (Ret y)
  then show ?case using list_update_id[of ps i] by simp
next
  case (DoCreate p now u k)
  obtain st1 r where n: "prog_next uo to (DoCreate p now u k) st = Some (st1, k r)" by (cases st) auto
  show ?case by (rule pool_run_step[OF DoCreate.prems n]) (rule DoCreate.IH[OF rangeI])
next
  case (DoGetByID p j k)
  obtain st1 r where n: "prog_next uo to (DoGetByID p j k) st = Some (st1, k r)" by (cases st) auto
  show ?case by (rule pool_run_step[OF DoGetByID.prems n]) (rule DoGetByID.IH[OF rangeI])
next
  case (DoGetByEmail p e k)
  obtain st1 r where n: "prog_next uo to (DoGetByEmail p e k) st = Some (st1, k r)" by (cases st) auto
  show ?case by (rule pool_run_step[OF DoGetByEmail.prems n]) (rule DoGetByEmail.IH[OF rangeI])
next
  case (DoUpdate p now u k)
  obtain st1 r where n: "prog_next uo to (DoUpdate p now u k) st = Some (st1, k r)" by (cases st) auto
  show ?case by (rule pool_run_step[OF DoUpdate.prems n]) (rule DoUpdate.IH[OF rangeI])
next
  case (DoStore p rt k)
  obtain st1 r where n: "prog_next uo to (DoStore p rt k) st = Some (st1, k r)" by (cases st) auto
  show ?case by (rule pool_run_step[OF DoStore.prems n]) (rule DoStore.IH[OF rangeI])
next
  case (DoGet p now tok k)
  obtain st1 r where n: "prog_next uo to (DoGet p now tok k) st = Some (st1, k r)" by (cases st) auto
  show ?case by (rule pool_run_step[OF DoGet.prems n]) (rule DoGet.IH[OF rangeI])
next
  case (DoRevoke p tok k)
  obtain st1 r where n: "prog_next uo to (DoRevoke p tok k) st = Some (st1, k r)" by (cases st) auto
  show ?case by (rule pool_run_step[OF DoRevoke.prems n]) (rule DoRevoke.IH[OF rangeI])
next
  case (DoRevokeAll p j k)
  obtain st1 r where n: "prog_next uo to (DoRevokeAll p j k) st = Some (st1, k r)" by (cases st) auto
  show ?case by (rule pool_run_step[OF DoRevokeAll.prems n]) (rule DoRevokeAll.IH[OF rangeI])
qed

section \<open>The methods of the service\<close>

definition prog_Register ::
  "'ts auth_lib \<Rightarrow> signer \<Rightarrow> auth_env \<Rightarrow> register_request \<Rightarrow> 'ts auth_response result auth_prog"
where
  "prog_Register L sg E req =
     (if \<not> ValidateEmail (rr_Email req) then Ret (Inl (usvc UErrInvalidEmail))
      else if \<not> ValidatePassword (rr_Password req) then Ret (Inl (usvc UErrInvalidPassword))
      else DoGetByEmail (e_cx E 0) (rr_Email req) (\<lambda>r. case r of
        Inr existing \<Rightarrow> Ret (Inl (usvc UErrUserAlreadyExists))
      | Inl e \<Rightarrow>
          if \<not> errors_is e (UserRepo RErrUserNotFound) then Ret (Inl (Wrapf ''database error'' e))
          else case HashPassword (l_bcrypt L) (rr_Password req) 12 of
            Inl e \<Rightarrow> Ret (Inl (Wrapf ''failed to hash password'' e))
          | Inr hashed \<Rightarrow>
              DoCreate (e_cx E 1) (e_now E) (new_user E req hashed) (\<lambda>r. case r of
                Inl e \<Rightarrow> Ret (Inl (if errors_is e (UserRepo RErrUserAlreadyExists) then usvc UErrUserAlreadyExists
                                   else Wrapf ''failed to create user'' e))
              | Inr user \<Rightarrow>
                  (case GenerateTokens (l_sign L) (l_itoa L) sg (e_now E) (e_ids E)
                          (us_UserID user) (us_Email user) (us_Role user) of
                     Inl e \<Rightarrow> Ret (Inl (Wrapf ''failed to generate tokens'' e))
                   | Inr tp \<Rightarrow> DoStore (e_cx E 2) (tp_RefreshToken tp) (\<lambda>r.
                       Ret (Inr \<lparr>ar_User = user_ToProto (l_newts L) user, ar_AccessToken = tp_AccessToken tp\<rparr>))))))"

definition prog_Login ::
  "'ts auth_lib \<Rightarrow> signer \<Rightarrow> auth_env \<Rightarrow> string \<Rightarrow> string \<Rightarrow> 'ts auth_response result auth_prog"
where
  "prog_Login L sg E email password =
     DoGetByEmail (e_cx E 0) email (\<lambda>r. case r of
       Inl e \<Rightarrow> Ret (Inl (if errors_is e (UserRepo RErrUserNotFound) then usvc UErrInvalidCredentials
                          else Wrapf ''database error'' e))
     | Inr user \<Rightarrow>
         if \<not> CheckPassword (l_compare L) password (us_Password user) then Ret (Inl (usvc UErrInvalidCredentials))
         else if \<not> us_IsActive user then Ret (Inl (usvc UErrUnauthorized))
         else case GenerateTokens (l_sign L) (l_itoa L) sg (e_now E) (e_ids E)
                (us_UserID user) (us_Email user) (us_Role user) of
           Inl e \<Rightarrow> Ret (Inl (Wrapf ''failed to generate tokens'' e))
         | Inr tp \<Rightarrow> DoStore (e_cx E 1) (tp_RefreshToken tp) (\<lambda>r. case r of
             Inl e \<Rightarrow> Ret (Inl (Wrapf ''failed to store refresh token'' e))
           | Inr _ \<Rightarrow> Ret (Inr \<lparr>ar_User = user_ToProto (l_newts L) user, ar_AccessToken = tp_AccessToken tp\<rparr>)))"

definition prog_RefreshToken :: "'ts auth_lib \<Rightarrow> signer \<Rightarrow> auth_env \<Rightarrow> string \<Rightarrow> string result auth_prog" where
  "prog_RefreshToken L sg E token =
     DoGet (e_cx E 0) (e_now E) token (\<lambda>r. case r of
       Inl e \<Rightarrow> Ret (Inl (if errors_is e (UserRepo RErrTokenNotFound) \<or> errors_is e (UserRepo RErrTokenRevoked) \<or>
                             errors_is e (UserRepo RErrTokenExpired)
                          then usvc UErrTokenInvalid else Wrapf ''database error'' e))
     | Inr stored \<Rightarrow> DoGetByID (e_cx E 1) (rt_UserID stored) (\<lambda>r. case r of
         Inl e \<Rightarrow> Ret (Inl (usvc UErrUserNotFound))
       | Inr user \<Rightarrow>
           if \<not> us_IsActive user then Ret (Inl (usvc UErrUnauthorized))
           else DoRevoke (e_cx E 2) token (\<lambda>r.
             case GenerateTokens (l_sign L) (l_itoa L) sg (e_now E) (e_ids E)
                    (us_UserID user) (us_Email user) (us_Role user) of
               Inl e \<Rightarrow> Ret (Inl (Wrapf ''failed to generate tokens'' e))
             | Inr tp \<Rightarrow> DoStore (e_cx E 3) (tp_RefreshToken tp) (\<lambda>r. case r of
                 Inl e \<Rightarrow> Ret (Inl (Wrapf ''failed to store refresh token'' e))
               | Inr _ \<Rightarrow> Ret (Inr (tp_AccessToken tp))))))"

definition prog_Logout :: "poll \<Rightarrow> string \<Rightarrow> unit result auth_prog" where
  "prog_Logout p token = DoRevoke p token (\<lambda>r. case r of
     Inl e \<Rightarrow> Ret (if errors_is e (UserRepo RErrTokenNotFound) then Inr ()
                   else Inl (Wrapf ''failed to revoke token'' e))
   | Inr _ \<Rightarrow> Ret (Inr ()))"

definition prog_LogoutAll :: "poll \<Rightarrow> string \<Rightarrow> unit result auth_prog" where
  "prog_LogoutAll p uid = DoRevokeAll p uid (\<lambda>r. case r of
     Inl e \<Rightarrow> Ret (Inl (Wrapf ''failed to revoke all tokens'' e)) | Inr _ \<Rightarrow> Ret (Inr ()))"

definition prog_UpdateRole ::
  "'ts auth_lib \<Rightarrow> ctx \<Rightarrow> time \<Rightarrow> time \<Rightarrow> string \<Rightarrow> user_role \<Rightarrow> user_role \<Rightarrow> 'ts user_pb result auth_prog"
where
  "prog_UpdateRole L cx t1 t2 uid newRole actorRole =
     (if actorRole \<noteq> USER_ROLE_ADMIN then Ret (Inl (usvc UErrPermissionDenied))
      else DoGetByID (cx 0) uid (\<lambda>r. case r of
        Inl e \<Rightarrow> Ret (Inl (if errors_is e (UserRepo RErrUserNotFound) then usvc UErrUserNotFound
                           else Wrapf ''database error'' e))
      | Inr user \<Rightarrow> DoUpdate (cx 1) t2 (user\<lparr>us_Role := newRole, us_UpdatedAt := t1\<rparr>) (\<lambda>r. case r of
          Inl e \<Rightarrow> Ret (Inl (Wrapf ''failed to update user'' e))
        | Inr user \<Rightarrow> Ret (Inr (user_ToProto (l_newts L) user)))))"

lemmas prog_defs = prog_Register_def prog_Login_def prog_RefreshToken_def prog_Logout_def prog_LogoutAll_def prog_UpdateRole_def

text \<open>What the methods answer, in one type.\<close>

datatype 'ts reply =
  Account "'ts auth_response result"
| Access "string result"
| Done "unit result"
| Profile "'ts user_pb result"

fun op_prog :: "'ts auth_lib \<Rightarrow> signer \<Rightarrow> auth_op \<Rightarrow> 'ts reply auth_prog" where
  "op_prog L sg (OpRegister E req) = map_auth_prog Account (prog_Register L sg E req)"
| "op_prog L sg (OpLogin E email pw) = map_auth_prog Account (prog_Login L sg E email pw)"
| "op_prog L sg (OpRefresh E tok) = map_auth_prog Access (prog_RefreshToken L sg E tok)"
| "op_prog L sg (OpLogout p tok) = map_auth_prog Done (prog_Logout p tok)"
| "op_prog L sg (OpLogoutAll p uid) = map_auth_prog Done (prog_LogoutAll p uid)"
| "op_prog L sg (OpUpdateRole cx t1 t2 uid new actor) = map_auth_prog Profile (prog_UpdateRole L cx t1 t2 uid new actor)"

fun auth_answer :: "'ts auth_lib \<Rightarrow> ('u, 't) auth_service \<Rightarrow> auth_op \<Rightarrow> 'u \<times> 't \<Rightarrow> 'ts reply" where
  "auth_answer L A (OpRegister E req) st = Account (snd (auth_Register L A E req st))"
| "auth_answer L A (OpLogin E email pw) st = Account (snd (auth_Login L A E email pw st))"
| "auth_answer L A (OpRefresh E tok) st = Access (snd (auth_RefreshToken L A E tok st))"
| "auth_answer L A (OpLogout p tok) st = Done (snd (auth_Logout A p tok st))"
| "auth_answer L A (OpLogoutAll p uid) st = Done (snd (auth_LogoutAll A p uid st))"
| "auth_answer L A (OpUpdateRole cx t1 t2 uid new actor) st = Profile (snd (auth_UpdateRole L A cx t1 t2 uid new actor st))"

lemma prog_run_map: "prog_run uo to (map_auth_prog f p) st = apsnd f (prog_run uo to p st)"
  by (induction p arbitrary: st) simp_all

lemma prog_Register_alone:
  "prog_run (as_userRepo A) (as_tokenRepo A) (prog_Register L (as_signer A) E req) st = auth_Register L A E req st"
  by (cases st) (simp add: prog_Register_def auth_Register_def Let_def split: sum.split prod.split)

lemma prog_Login_alone:
  "prog_run (as_userRepo A) (as_tokenRepo A) (prog_Login L (as_signer A) E email pw) st = auth_Login L A E email pw st"
  by (cases st) (simp add: prog_Login_def auth_Login_def split: sum.split prod.split)

lemma prog_RefreshToken_alone:
  "prog_run (as_userRepo A) (as_tokenRepo A) (prog_RefreshToken L (as_signer A) E tok) st = auth_RefreshToken L A E tok st"
  by (cases st) (simp add: prog_RefreshToken_def auth_RefreshToken_def Let_def split: sum.split prod.split)

lemma prog_Logout_alone: "prog_run (as_userRepo A) (as_tokenRepo A) (prog_Logout p tok) st = auth_Logout A p tok st"
  by (cases st) (simp add: prog_Logout_def auth_Logout_def split: sum.split prod.split)

lemma prog_LogoutAll_alone: "prog_run (as_userRepo A) (as_tokenRepo A) (prog_LogoutAll p uid) st = auth_LogoutAll A p uid st"
  by (cases st) (simp add: prog_LogoutAll_def auth_LogoutAll_def split: sum.split prod.split)

lemma prog_UpdateRole_alone:
  "prog_run (as_userRepo A) (as_tokenRepo A) (prog_UpdateRole L cx t1 t2 uid new actor) st =
   auth_UpdateRole L A cx t1 t2 uid new actor st"
  by (cases st) (simp add: prog_UpdateRole_def auth_UpdateRole_def split: sum.split prod.split)

lemmas progs_alone = prog_Register_alone prog_Login_alone prog_RefreshToken_alone prog_Logout_alone
  prog_LogoutAll_alone prog_UpdateRole_alone

text \<open>A method run alone, its repository operations one after the other with nothing in between,
  is the method's function: same stores, same answer, for any repositories behind the ports.\<close>

lemma calls_alone:
  "prog_run (as_userRepo A) (as_tokenRepo A) (op_prog L (as_signer A) call) st =
     (auth_exec L A call st, auth_answer L A call st)"
  by (cases call) (simp_all add: prog_run_map progs_alone apsnd_def map_prod_def split: prod.split)

end
