(* ===== verification/Auth_Concurrent.thy ===== *)
theory Auth_Concurrent
  imports Auth_Programs
begin

text \<open>
  The authentication service under concurrent calls: pools of the programs of \<open>Auth_Programs\<close> over
  one pair of stores. First what every interleaving keeps: the stores stay consistent, an address
  is registered once, a refresh that has completed spends its token. What refreshes that overlap break, since
  a token is checked and revoked in two steps, is in \<open>Auth_Races\<close>.
\<close>

section \<open>What the calls rely on and guarantee\<close>

context auth_ports
begin

definition stores_inv :: "'u \<times> 't \<Rightarrow> bool" where
  "stores_inv st \<longleftrightarrow> uinv (fst st) \<and> tinv (snd st) \<and>
     (\<forall>t rt. tokens_of (snd st) t = Some rt \<longrightarrow> users_of (fst st) (rt_UserID rt) \<noteq> None) \<and>
     (\<forall>i u. users_of (fst st) i = Some u \<longrightarrow> ValidateEmail (us_Email u))"

definition auth_ext :: "'u \<times> 't \<Rightarrow> 'u \<times> 't \<Rightarrow> bool" where
  "auth_ext a b \<longleftrightarrow> stores_inv a \<and> stores_inv b \<and> keeps_users (users_of (fst a)) (users_of (fst b)) \<and>
     keeps_tokens (tokens_of (snd a)) (tokens_of (snd b))"

lemma stores_inv_parts: "stores_inv (us, ts) \<Longrightarrow> uinv us" "stores_inv (us, ts) \<Longrightarrow> tinv ts"
  by (simp_all add: stores_inv_def)

lemma stores_inv_owner:
  "stores_inv (us, ts) \<Longrightarrow> tokens_of ts t = Some rt \<Longrightarrow> \<exists>u. users_of us (rt_UserID rt) = Some u"
  unfolding stores_inv_def by simp

lemma stores_inv_email: "stores_inv (us, ts) \<Longrightarrow> users_of us i = Some u \<Longrightarrow> ValidateEmail (us_Email u)"
  unfolding stores_inv_def by simp

lemma auth_ext_inv: "auth_ext a a \<longleftrightarrow> stores_inv a"
  by (simp add: auth_ext_def)

lemma auth_ext_keeps:
  "auth_ext a b \<Longrightarrow> keeps_users (users_of (fst a)) (users_of (fst b))"
  "auth_ext a b \<Longrightarrow> keeps_tokens (tokens_of (snd a)) (tokens_of (snd b))"
  "auth_ext a b \<Longrightarrow> stores_inv b"
  by (simp_all add: auth_ext_def)

lemma auth_ext_users:
  assumes inv: "stores_inv (us, ts)" and "uinv us'" "keeps_users (users_of us) (users_of us')"
    and valid: "\<And>i u. users_of us' i = Some u \<Longrightarrow> ValidateEmail (us_Email u)"
  shows "auth_ext (us, ts) (us', ts)"
proof -
  have "users_of us' (rt_UserID rt) \<noteq> None" if rt: "tokens_of ts t = Some rt" for t rt
  proof -
    obtain u where "users_of us (rt_UserID rt) = Some u" using stores_inv_owner[OF inv rt] by blast
    then show ?thesis using assms(3) unfolding keeps_users_def by auto
  qed
  then show ?thesis using assms unfolding auth_ext_def stores_inv_def by simp
qed

lemma auth_ext_tokens:
  assumes inv: "stores_inv (us, ts)" and "tinv ts'" and step: "token_step (users_of us) (tokens_of ts) (tokens_of ts')"
  shows "auth_ext (us, ts) (us, ts')"
proof -
  have "users_of us (rt_UserID rt) \<noteq> None" if "tokens_of ts' t = Some rt" for t rt
  proof -
    have "(\<exists>r. tokens_of ts t = Some r \<and> rt_UserID r = rt_UserID rt) \<or> users_of us (rt_UserID rt) \<noteq> None"
      using step that unfolding token_step_def by blast
    then show ?thesis using stores_inv_owner[OF inv] by fastforce
  qed
  then show ?thesis using assms unfolding auth_ext_def stores_inv_def token_step_def by simp
qed

end

text \<open>The calls of one service: its libraries and its signer are the same for all of them.\<close>

locale auth_calls = auth_ports uops users_of uinv tops tokens_of tinv
  for uops :: "'u user_ops" and users_of :: "'u \<Rightarrow> string \<Rightarrow> user option" and uinv :: "'u \<Rightarrow> bool"
    and tops :: "'t token_ops" and tokens_of :: "'t \<Rightarrow> string \<Rightarrow> refresh_token option" and tinv :: "'t \<Rightarrow> bool" +
  fixes L :: "'ts auth_lib" and sg :: signer

sublocale auth_calls \<subseteq> conc: interleaving "prog_next uops tops :: 'ts reply auth_prog \<Rightarrow> 'u \<times> 't \<Rightarrow> _"
  "prog_guard tokens_of" auth_ext
proof unfold_locales
  show "auth_ext a b \<Longrightarrow> auth_ext b c \<Longrightarrow> auth_ext a c" for a b c
    unfolding auth_ext_def using keeps_users_trans keeps_tokens_trans by blast
  show "auth_ext a b \<Longrightarrow> auth_ext b b" for a b by (simp add: auth_ext_def)
qed

section \<open>One rule per step\<close>

context auth_calls
begin

lemma safe_Ret: "(\<And>b. auth_ext a b \<Longrightarrow> Q (Ret (f x)) b) \<Longrightarrow> conc.safe Q (map_auth_prog f (Ret x)) a"
  by (rule conc.safeI) auto

text \<open>A step that only reads: whatever it reads, the rest is safe.\<close>

lemma safe_reads:
  assumes "\<And>us ts. auth_ext a (us, ts) \<Longrightarrow> prog_next uops tops p (us, ts) = Some ((us, ts), k us ts)"
    and "\<And>us ts. auth_ext a (us, ts) \<Longrightarrow> conc.safe Q (k us ts) (us, ts)"
  shows "conc.safe Q p a"
proof (rule conc.safeI)
  fix b c q assume b: "auth_ext a b"
  obtain us ts where eq: "b = (us, ts)" by fastforce
  note n = assms(1)[OF b[unfolded eq]] and s = assms(2)[OF b[unfolded eq]]
  show "Q p b" if "prog_next uops tops p b = None" using that n eq by simp
  assume "prog_next uops tops p b = Some (c, q)"
  then have "c = b" "q = k us ts" using n eq by simp_all
  then show "auth_ext b c" "conc.safe Q q c" using s b eq by (auto simp: auth_ext_def)
qed

lemma safe_DoGetByEmail:
  "(\<And>us ts. auth_ext a (us, ts) \<Longrightarrow> conc.safe Q (map_auth_prog f (k (ur_GetByEmail uops p e us))) (us, ts)) \<Longrightarrow>
   conc.safe Q (map_auth_prog f (DoGetByEmail p e k)) a"
  by (rule safe_reads[where k = "\<lambda>us ts. map_auth_prog f (k (ur_GetByEmail uops p e us))"]) simp_all

lemma safe_DoGetByID:
  "(\<And>us ts. auth_ext a (us, ts) \<Longrightarrow> conc.safe Q (map_auth_prog f (k (ur_GetByID uops p i us))) (us, ts)) \<Longrightarrow>
   conc.safe Q (map_auth_prog f (DoGetByID p i k)) a"
  by (rule safe_reads[where k = "\<lambda>us ts. map_auth_prog f (k (ur_GetByID uops p i us))"]) simp_all

lemma safe_DoGet:
  "(\<And>us ts. auth_ext a (us, ts) \<Longrightarrow> conc.safe Q (map_auth_prog f (k (tr_Get tops p now tok ts))) (us, ts)) \<Longrightarrow>
   conc.safe Q (map_auth_prog f (DoGet p now tok k)) a"
  by (rule safe_reads[where k = "\<lambda>us ts. map_auth_prog f (k (tr_Get tops p now tok ts))"]) simp_all

text \<open>A step that writes keeps \<open>auth_ext\<close>, and the rest is safe from where it leaves the stores.\<close>

lemma safe_writes:
  assumes next_is: "\<And>us ts. prog_next uops tops p (us, ts) = Some (f (us, ts), k (us, ts))"
    and keeps: "\<And>b. auth_ext a b \<Longrightarrow> prog_guard tokens_of p b \<Longrightarrow> auth_ext b (f b)"
    and rest: "\<And>b. auth_ext a b \<Longrightarrow> prog_guard tokens_of p b \<Longrightarrow> conc.safe Q (k b) (f b)"
  shows "conc.safe Q p a"
proof (rule conc.safeI)
  fix b c q assume b: "auth_ext a b"
  have n: "prog_next uops tops p b = Some (f b, k b)" using next_is by (cases b) simp
  show "Q p b" if "prog_next uops tops p b = None" using that n by simp
  assume "prog_next uops tops p b = Some (c, q)" and g: "prog_guard tokens_of p b"
  then have "c = f b" "q = k b" using n by simp_all
  then show "auth_ext b c" "conc.safe Q q c" using keeps[OF b g] rest[OF b g] by simp_all
qed

lemma safe_DoRevoke:
  "(\<And>us ts. auth_ext a (us, ts) \<Longrightarrow>
     conc.safe Q (map_auth_prog f (k (snd (tr_Revoke tops p tok ts)))) (us, fst (tr_Revoke tops p tok ts))) \<Longrightarrow>
   conc.safe Q (map_auth_prog f (DoRevoke p tok k)) a"
  by (rule safe_writes[where f = "\<lambda>(us, ts). (us, fst (tr_Revoke tops p tok ts))"
        and k = "\<lambda>(us, ts). map_auth_prog f (k (snd (tr_Revoke tops p tok ts)))"])
     (auto intro!: auth_ext_tokens revoke_inv revoke_step dest: auth_ext_keeps(3) stores_inv_parts)

lemma safe_DoRevokeAll:
  "(\<And>us ts. auth_ext a (us, ts) \<Longrightarrow>
     conc.safe Q (map_auth_prog f (k (snd (tr_RevokeAllByUser tops p i ts)))) (us, fst (tr_RevokeAllByUser tops p i ts))) \<Longrightarrow>
   conc.safe Q (map_auth_prog f (DoRevokeAll p i k)) a"
  by (rule safe_writes[where f = "\<lambda>(us, ts). (us, fst (tr_RevokeAllByUser tops p i ts))"
        and k = "\<lambda>(us, ts). map_auth_prog f (k (snd (tr_RevokeAllByUser tops p i ts)))"])
     (auto intro!: auth_ext_tokens revoke_all_inv revoke_all_step dest: auth_ext_keeps(3) stores_inv_parts)

lemma safe_DoStore:
  assumes owner: "\<And>us ts. auth_ext a (us, ts) \<Longrightarrow> users_of us (rt_UserID t) \<noteq> None"
    and rest: "\<And>us ts. auth_ext a (us, ts) \<Longrightarrow> auth_ext (us, ts) (us, fst (tr_Store tops p t ts)) \<Longrightarrow>
      conc.safe Q (map_auth_prog f (k (snd (tr_Store tops p t ts)))) (us, fst (tr_Store tops p t ts))"
  shows "conc.safe Q (map_auth_prog f (DoStore p t k)) a"
proof (rule safe_writes[where f = "\<lambda>(us, ts). (us, fst (tr_Store tops p t ts))"
      and k = "\<lambda>(us, ts). map_auth_prog f (k (snd (tr_Store tops p t ts)))"])
  fix b assume b: "auth_ext a b" and g: "prog_guard tokens_of (map_auth_prog f (DoStore p t k)) b"
  obtain us ts where eq: "b = (us, ts)" by fastforce
  have inv: "stores_inv (us, ts)" using b eq auth_ext_keeps(3) by blast
  have keep: "auth_ext (us, ts) (us, fst (tr_Store tops p t ts))"
  proof (cases p)
    case None
    then have "tokens_of ts (rt_Token t) = None" using g eq by simp
    then show ?thesis
      using owner[OF b[unfolded eq]] inv stores_inv_parts(2) by (intro auth_ext_tokens store_inv store_step) auto
  qed (simp add: store_done auth_ext_inv inv)
  then show "auth_ext b (case b of (us, ts) \<Rightarrow> (us, fst (tr_Store tops p t ts)))" using eq by simp
  show "conc.safe Q (case b of (us, ts) \<Rightarrow> map_auth_prog f (k (snd (tr_Store tops p t ts))))
    (case b of (us, ts) \<Rightarrow> (us, fst (tr_Store tops p t ts)))"
    using rest[OF b[unfolded eq] keep] eq by simp
qed simp

lemma create_ext:
  assumes inv: "stores_inv (us, ts)" and valid: "ValidateEmail (us_Email u)"
  shows "auth_ext (us, ts) (fst (ur_Create uops p now u us), ts)"
proof (rule auth_ext_users[OF inv])
  note uinv = stores_inv_parts(1)[OF inv]
  show "uinv (fst (ur_Create uops p now u us))" "keeps_users (users_of us) (users_of (fst (ur_Create uops p now u us)))"
    using uinv by (simp_all add: create_inv create_keeps)
  show "ValidateEmail (us_Email v)" if "users_of (fst (ur_Create uops p now u us)) i = Some v" for i v
  proof (cases "snd (ur_Create uops p now u us)")
    case (Inl e)
    then show ?thesis using create_failed[OF uinv Inl] that stores_inv_email[OF inv] by simp
  next
    case (Inr w)
    then show ?thesis
      using create_result(2,3)[OF uinv Inr] that stores_inv_email[OF inv] valid by (auto split: if_splits)
  qed
qed

lemma safe_DoCreate:
  assumes valid: "ValidateEmail (us_Email u)"
    and rest: "\<And>us ts. auth_ext a (us, ts) \<Longrightarrow>
      conc.safe Q (map_auth_prog f (k (snd (ur_Create uops p now u us)))) (fst (ur_Create uops p now u us), ts)"
  shows "conc.safe Q (map_auth_prog f (DoCreate p now u k)) a"
  by (rule safe_writes[where f = "\<lambda>(us, ts). (fst (ur_Create uops p now u us), ts)"
        and k = "\<lambda>(us, ts). map_auth_prog f (k (snd (ur_Create uops p now u us)))"])
     (auto intro: create_ext[OF _ valid] rest dest: auth_ext_keeps(3))

text \<open>An update writes a whole user: it must be one of the stored account.\<close>

lemma update_ext:
  assumes inv: "stores_inv (us, ts)" and v: "users_of us (us_UserID u) = Some v" and same: "same_account v u"
  shows "auth_ext (us, ts) (fst (ur_Update uops p now u us), ts)"
proof (rule auth_ext_users[OF inv])
  have em: "us_Email v = us_Email u" using same by (simp add: same_account_def)
  note st = update_state[OF stores_inv_parts(1)[OF inv] v em, of p now]
  show "uinv (fst (ur_Update uops p now u us))" by (rule st)
  show "keeps_users (users_of us) (users_of (fst (ur_Update uops p now u us)))"
    using v same by (simp add: st keeps_users_same same_account_def split: option.split)
  show "ValidateEmail (us_Email w)" if "users_of (fst (ur_Update uops p now u us)) i = Some w" for i w
    using that em stores_inv_email[OF inv v] stores_inv_email[OF inv, of i w]
    by (auto simp: st split: option.splits if_splits)
qed

lemma safe_DoUpdate:
  assumes own: "\<And>us ts. auth_ext a (us, ts) \<Longrightarrow> \<exists>v. users_of us (us_UserID u) = Some v \<and> same_account v u"
    and rest: "\<And>us ts. auth_ext a (us, ts) \<Longrightarrow>
      conc.safe Q (map_auth_prog f (k (snd (ur_Update uops p now u us)))) (fst (ur_Update uops p now u us), ts)"
  shows "conc.safe Q (map_auth_prog f (DoUpdate p now u k)) a"
proof (rule safe_writes[where f = "\<lambda>(us, ts). (fst (ur_Update uops p now u us), ts)"
      and k = "\<lambda>(us, ts). map_auth_prog f (k (snd (ur_Update uops p now u us)))"])
  fix b assume b: "auth_ext a b"
  obtain us ts where eq: "b = (us, ts)" by fastforce
  obtain v where "users_of us (us_UserID u) = Some v" "same_account v u" using own b eq by blast
  then have "auth_ext (us, ts) (fst (ur_Update uops p now u us), ts)"
    using update_ext b eq auth_ext_keeps(3) by blast
  then show "auth_ext b (case b of (us, ts) \<Rightarrow> (fst (ur_Update uops p now u us), ts))" using eq by simp
  show "conc.safe Q (case b of (us, ts) \<Rightarrow> map_auth_prog f (k (snd (ur_Update uops p now u us))))
    (case b of (us, ts) \<Rightarrow> (fst (ur_Update uops p now u us), ts))" using rest b eq by simp
qed simp

text \<open>The branches of a program.\<close>

lemma safe_if:
  "(c \<Longrightarrow> conc.safe Q (map_auth_prog f p) a) \<Longrightarrow> (\<not> c \<Longrightarrow> conc.safe Q (map_auth_prog f q) a) \<Longrightarrow>
   conc.safe Q (map_auth_prog f (if c then p else q)) a"
  by simp

lemma safe_case:
  "(\<And>e. r = Inl e \<Longrightarrow> conc.safe Q (map_auth_prog f (p e)) a) \<Longrightarrow>
   (\<And>x. r = Inr x \<Longrightarrow> conc.safe Q (map_auth_prog f (q x)) a) \<Longrightarrow>
   conc.safe Q (map_auth_prog f (case r of Inl e \<Rightarrow> p e | Inr x \<Rightarrow> q x)) a"
  by (simp split: sum.split)

section \<open>Every call is safe\<close>

text \<open>What an accepted call has achieved, and no later step undoes.\<close>

definition registered :: "auth_env \<Rightarrow> register_request \<Rightarrow> 'u \<Rightarrow> bool" where
  "registered E req us \<longleftrightarrow> (\<exists>u. users_of us (e_userID E) = Some u \<and> us_Email u = rr_Email req)"

definition spent :: "string \<Rightarrow> 't \<Rightarrow> bool" where
  "spent tok ts \<longleftrightarrow> (\<exists>rt. tokens_of ts tok = Some rt \<and> rt_Revoked rt)"

lemma registered_kept: "registered E req us \<Longrightarrow> auth_ext (us, ts) (us', ts') \<Longrightarrow> registered E req us'"
  unfolding registered_def auth_ext_def keeps_users_def same_account_def by fastforce

lemma spent_kept: "spent tok ts \<Longrightarrow> auth_ext (us, ts) (us', ts') \<Longrightarrow> spent tok ts'"
  unfolding spent_def auth_ext_def using keeps_tokens_revoked by (metis snd_conv)

fun achieved :: "auth_op \<Rightarrow> 'ts reply auth_prog \<Rightarrow> 'u \<times> 't \<Rightarrow> bool" where
  "achieved (OpRegister E req) p st \<longleftrightarrow> (\<exists>r. p = Ret (Account (Inr r))) \<longrightarrow> registered E req (fst st)"
| "achieved (OpRefresh E tok) p st \<longleftrightarrow> (\<exists>r. p = Ret (Access (Inr r))) \<longrightarrow> ctx_sticky (e_cx E) \<longrightarrow> spent tok (snd st)"
| "achieved _ p st \<longleftrightarrow> True"

lemmas safe_branches = safe_if safe_case

lemma create_registered:
  assumes "stores_inv (us, ts)" and "snd (ur_Create uops p now (new_user E req h) us) = Inr u"
  shows "registered E req (fst (ur_Create uops p now (new_user E req h) us))"
    and "users_of (fst (ur_Create uops p now (new_user E req h) us)) (us_UserID u) \<noteq> None"
  using create_result(2,3)[OF stores_inv_parts(1)[OF assms(1)] assms(2)] by (simp_all add: registered_def)

lemma users_kept: "users_of us i \<noteq> None \<Longrightarrow> auth_ext (us, ts) (us', ts') \<Longrightarrow> users_of us' i \<noteq> None"
  unfolding auth_ext_def keeps_users_def by fastforce

text \<open>The last step of a call that stores a token of a known user and then answers.\<close>

lemma safe_store_last:
  assumes user: "users_of us (us_UserID u) \<noteq> None"
    and gen: "GenerateTokens (l_sign L) (l_itoa L) sg (e_now E) (e_ids E) (us_UserID u) (us_Email u) (us_Role u) = Inr tp"
    and ends: "\<And>b ts'. auth_ext (us, ts) b \<Longrightarrow>
      \<exists>x. k (snd (tr_Store tops p (tp_RefreshToken tp) ts')) = Ret x \<and> Q (Ret (f x)) b"
  shows "conc.safe Q (map_auth_prog f (DoStore p (tp_RefreshToken tp) k)) (us, ts)"
proof (rule safe_DoStore)
  fix us' ts' assume later: "auth_ext (us, ts) (us', ts')"
  show "users_of us' (rt_UserID (tp_RefreshToken tp)) \<noteq> None"
    using users_kept[OF user later] GenerateTokens_refresh_simps(2)[OF gen] by simp
  assume "auth_ext (us', ts') (us', fst (tr_Store tops p (tp_RefreshToken tp) ts'))"
  then have after: "auth_ext (us, ts) (us', fst (tr_Store tops p (tp_RefreshToken tp) ts'))"
    using later conc.ext_trans by blast
  obtain x where x: "k (snd (tr_Store tops p (tp_RefreshToken tp) ts')) = Ret x" using ends[OF after] by blast
  show "conc.safe Q (map_auth_prog f (k (snd (tr_Store tops p (tp_RefreshToken tp) ts'))))
    (us', fst (tr_Store tops p (tp_RefreshToken tp) ts'))"
    unfolding x using ends[of _ ts'] x conc.ext_trans[OF after] by (intro safe_Ret) (metis auth_prog.inject(1))
qed

lemma safe_Register: "conc.safe (achieved (OpRegister E req)) (op_prog L sg (OpRegister E req)) a"
proof -
  let ?Q = "achieved (OpRegister E req)"
  let ?create = "ur_Create uops (e_cx E 1) (e_now E)"
  have created: "conc.safe ?Q (map_auth_prog Account (DoStore (e_cx E 2) (tp_RefreshToken tp) (\<lambda>r. Ret (Inr x))))
      (fst (?create (new_user E req h) us), ts)"
    if "auth_ext b (us, ts)" "snd (?create (new_user E req h) us) = Inr u"
      "GenerateTokens (l_sign L) (l_itoa L) sg (e_now E) (e_ids E) (us_UserID u) (us_Email u) (us_Role u) = Inr tp"
    for b us ts h u tp x
  proof (rule safe_store_last[OF _ that(3)])
    note reg = create_registered[OF auth_ext_keeps(3)[OF that(1)] that(2)]
    show "users_of (fst (?create (new_user E req h) us)) (us_UserID u) \<noteq> None" by (rule reg)
    fix b assume "auth_ext (fst (?create (new_user E req h) us), ts) b"
    then show "\<exists>y. Ret (Inr x) = Ret y \<and> ?Q (Ret (Account y)) b"
      using registered_kept[OF reg(1)] by (cases b) auto
  qed
  show ?thesis
    unfolding op_prog.simps prog_Register_def
    by (intro safe_branches safe_DoGetByEmail safe_DoCreate safe_Ret created; (assumption | simp))
qed

lemma read_by_email:
  assumes "stores_inv (us, ts)" and "ur_GetByEmail uops p e us = Inr u"
  shows "users_of us (us_UserID u) = Some u"
proof -
  have "ur_GetByEmail uops None e us = Inr u" using assms(2) by_email_done by (cases p) simp_all
  then show ?thesis using by_email_found[OF stores_inv_parts(1)[OF assms(1)]] by blast
qed

lemma read_by_id:
  assumes "stores_inv (us, ts)" and "ur_GetByID uops p i us = Inr u"
  shows "users_of us i = Some u" and "us_UserID u = i"
proof -
  note uinv = stores_inv_parts(1)[OF assms(1)]
  show "users_of us i = Some u" using assms(2) by_id[OF uinv, of p i] by (cases p) (auto split: option.splits)
  then show "us_UserID u = i" by (rule stored_id[OF uinv])
qed

lemma read_token: "tr_Get tops p now tok ts = Inr rt \<Longrightarrow> tokens_of ts tok = Some rt \<and> rt_IsValid now rt"
  by (cases p) (auto simp: token_get rt_IsValid_def split: option.splits if_splits)

lemma safe_Login: "conc.safe (achieved (OpLogin E em pw)) (op_prog L sg (OpLogin E em pw)) a"
proof -
  have found: "conc.safe (achieved (OpLogin E em pw)) (map_auth_prog Account (DoStore p (tp_RefreshToken tp)
      (\<lambda>r. case r of Inl e \<Rightarrow> Ret (g e) | Inr _ \<Rightarrow> Ret y))) (us, ts)"
    if "auth_ext b (us, ts)" "ur_GetByEmail uops q em us = Inr u"
      "GenerateTokens (l_sign L) (l_itoa L) sg (e_now E) (e_ids E) (us_UserID u) (us_Email u) (us_Role u) = Inr tp"
    for b us ts u tp p q g y
  proof (rule safe_store_last[OF _ that(3)])
    show "users_of us (us_UserID u) \<noteq> None" using read_by_email[OF auth_ext_keeps(3)[OF that(1)] that(2)] by simp
  qed (simp split: sum.split)
  show ?thesis
    unfolding op_prog.simps prog_Login_def
    by (intro safe_branches safe_DoGetByEmail safe_Ret found; (assumption | simp))
qed

lemma revoke_spends: "tokens_of ts tok \<noteq> None \<Longrightarrow> spent tok (fst (tr_Revoke tops None tok ts))"
  by (auto simp: spent_def revoke_tokens)

lemma safe_RefreshToken: "conc.safe (achieved (OpRefresh E tok)) (op_prog L sg (OpRefresh E tok)) a"
proof -
  let ?Q = "achieved (OpRefresh E tok)"
  have found: "conc.safe ?Q (map_auth_prog Access (DoStore (e_cx E 3) (tp_RefreshToken tp)
      (\<lambda>r. case r of Inl e \<Rightarrow> Ret (Inl (g e)) | Inr _ \<Rightarrow> Ret (Inr y))))
      (us', fst (tr_Revoke tops (e_cx E 2) tok ts'))"
    if got: "auth_ext b0 (us0, ts0)" "tr_Get tops (e_cx E 0) (e_now E) tok ts0 = Inr rt"
      and user: "auth_ext (us0, ts0) (us, ts)" "ur_GetByID uops (e_cx E 1) (rt_UserID rt) us = Inr u"
      and later: "auth_ext (us, ts) (us', ts')"
      and gen: "GenerateTokens (l_sign L) (l_itoa L) sg (e_now E) (e_ids E) (us_UserID u) (us_Email u) (us_Role u) = Inr tp"
    for b0 us0 ts0 rt us ts u us' ts' tp g y
  proof (rule safe_store_last[OF _ gen])
    note u = read_by_id[OF auth_ext_keeps(3)[OF user(1)] user(2)]
    show "users_of us' (us_UserID u) \<noteq> None" using users_kept[OF _ later] u by simp
    have "keeps_tokens (tokens_of ts0) (tokens_of ts')"
      using auth_ext_keeps(2)[OF conc.ext_trans[OF user(1) later]] by simp
    then have here: "tokens_of ts' tok \<noteq> None"
      using read_token[OF got(2)] unfolding keeps_tokens_def by blast
    fix b tsx assume after: "auth_ext (us', fst (tr_Revoke tops (e_cx E 2) tok ts')) b"
    have "spent tok (snd b)" if "e_cx E 3 = None" "ctx_sticky (e_cx E)"
      using revoke_spends[OF here] after that ctx_sticky_None[of "e_cx E" 3 2] spent_kept[of tok] by (cases b) simp
    then show "\<exists>x. (case snd (tr_Store tops (e_cx E 3) (tp_RefreshToken tp) tsx) of Inl e \<Rightarrow> Ret (Inl (g e)) | Inr _ \<Rightarrow> Ret (Inr y)) =
        Ret x \<and> ?Q (Ret (Access x)) b"
      by (cases "e_cx E 3") (simp_all add: store_result)
  qed
  show ?thesis
    unfolding op_prog.simps prog_RefreshToken_def
    by (intro safe_branches safe_DoGet safe_DoGetByID safe_DoRevoke safe_Ret found; (assumption | simp))
qed

lemma safe_Logout: "conc.safe (achieved (OpLogout p tok)) (op_prog L sg (OpLogout p tok)) a"
  unfolding op_prog.simps prog_Logout_def by (intro safe_branches safe_DoRevoke safe_Ret) simp_all

lemma safe_LogoutAll: "conc.safe (achieved (OpLogoutAll p uid)) (op_prog L sg (OpLogoutAll p uid)) a"
  unfolding op_prog.simps prog_LogoutAll_def by (intro safe_branches safe_DoRevokeAll safe_Ret) simp_all

lemma safe_UpdateRole:
  "conc.safe (achieved (OpUpdateRole cx t1 t2 uid new actor)) (op_prog L sg (OpUpdateRole cx t1 t2 uid new actor)) a"
proof -
  have same: "\<exists>v. users_of us' (us_UserID (u\<lparr>us_Role := new, us_UpdatedAt := t1\<rparr>)) = Some v \<and>
      same_account v (u\<lparr>us_Role := new, us_UpdatedAt := t1\<rparr>)"
    if "auth_ext b (us, ts)" "ur_GetByID uops p uid us = Inr u" "auth_ext (us, ts) (us', ts')" for b us ts p u us' ts'
    using read_by_id[OF auth_ext_keeps(3)[OF that(1)] that(2)] auth_ext_keeps(1)[OF that(3)]
    unfolding keeps_users_def same_account_def by fastforce
  show ?thesis
    unfolding op_prog.simps prog_UpdateRole_def
    by (intro safe_branches safe_DoGetByID safe_DoUpdate safe_Ret same; (assumption | simp))
qed

lemma safe_call: "conc.safe (achieved op) (op_prog L sg op) a"
  by (cases op) (simp_all only: safe_Register safe_Login safe_RefreshToken safe_Logout safe_LogoutAll safe_UpdateRole)

section \<open>Pools of calls\<close>

abbreviation calls :: "('u \<times> 't) \<times> (auth_op \<times> 'ts reply auth_prog) list \<Rightarrow> ('u \<times> 't) \<times> (auth_op \<times> 'ts reply auth_prog) list \<Rightarrow> bool" where
  "calls \<equiv> pool_steps (prog_next uops tops) (prog_guard tokens_of) (op_prog L sg)"

lemma calls_achieve:
  assumes "calls (st, []) (st', ps)" and "stores_inv st"
  shows "auth_ext st st'" and "i < length ps \<Longrightarrow> ps ! i = (op, Ret r) \<Longrightarrow> achieved op (Ret r) st'"
proof -
  have all: "auth_ext st st' \<and> conc.pool_ok (\<lambda>_. achieved) (st', ps)"
    using conc.pool_invariant[OF assms(1), of "\<lambda>_. achieved"] safe_call assms(2)
    by (auto simp: conc.pool_ok_def auth_ext_inv)
  then show ext: "auth_ext st st'" by blast
  assume "i < length ps" "ps ! i = (op, Ret r)"
  then have "conc.safe (achieved op) (Ret r) st'" using all unfolding conc.pool_ok_def by fastforce
  then show "achieved op (Ret r) st'"
    by (rule conc.safe_finished) (use ext in \<open>simp_all add: auth_ext_inv auth_ext_keeps prog_next_finished\<close>)
qed

lemma safe_any: "conc.safe (\<lambda>_ _. True) (op_prog L sg op) a"
  by (rule conc.safe_weaken[OF safe_call]) simp

lemma calls_step:
  assumes "calls (st, []) (st1, ps1)" and "stores_inv st"
    and "pool_step (prog_next uops tops) (prog_guard tokens_of) (op_prog L sg) (st1, ps1) (st2, ps2)"
  shows "auth_ext st1 st2"
proof -
  have "conc.pool_ok (\<lambda>_. achieved) (st1, ps1)"
    using conc.pool_invariant[OF assms(1), of "\<lambda>_. achieved"] safe_call assms(2)
    by (auto simp: conc.pool_ok_def auth_ext_inv)
  then show ?thesis using conc.pool_ok_step[OF assms(3)] safe_call by blast
qed

text \<open>A later call, started in a state the others have reached.\<close>

lemma calls_later:
  assumes "calls (st, []) (st1, ps1)" and "stores_inv st"
    and "calls (st1, ps1 @ [(op, op_prog L sg op)]) (st2, ps2)" and "ps2 ! length ps1 = (op, Ret r)"
    and "conc.safe Q (op_prog L sg op) st1"
  shows "auth_ext st1 st2 \<and> Q (Ret r) st2"
proof -
  let ?ps = "ps1 @ [(op, op_prog L sg op)]"
  have "conc.pool_ok (\<lambda>_. achieved) (st1, ps1)" "stores_inv st1"
    using conc.pool_invariant[OF assms(1), of "\<lambda>_. achieved"] safe_call assms(2)
    by (auto simp: conc.pool_ok_def auth_ext_inv)
  then have ok: "conc.pool_ok (\<lambda>_ _ _ _. True) (st1, ?ps)"
    by (auto simp: conc.pool_ok_def nth_append less_Suc_eq safe_any intro: conc.safe_weaken)
  have "auth_ext st1 st2 \<and> conc.safe Q (snd (ps2 ! length ps1)) st2"
    using conc.pool_track[OF assms(3) ok, of "length ps1" Q] assms(5) safe_any by simp
  moreover have "auth_ext st2 st2" if "auth_ext st1 st2" using that by (rule conc.ext_refl)
  ultimately show ?thesis using conc.safe_finished[of Q "Ret r" st2 st2] assms(4) by (simp add: prog_next_finished)
qed

lemma safe_refresh_spent:
  assumes "spent tok (snd a)" and "e_cx F 0 = None"
  shows "conc.safe (\<lambda>p _. \<forall>r. p = Ret r \<longrightarrow> r = Access (Inl (usvc UErrTokenInvalid))) (op_prog L sg (OpRefresh F tok)) a"
proof -
  have "tr_Get tops (e_cx F 0) now tok ts = Inl (Sentinel (UserRepo RErrTokenRevoked))" if "auth_ext a (us, ts)" for us ts now
    using spent_kept[of tok "snd a" "fst a" us ts] that assms by (auto simp: token_get spent_def)
  then show ?thesis
    unfolding op_prog.simps prog_RefreshToken_def
    by (intro safe_DoGet) (simp, rule safe_Ret[where x = "Inl (usvc UErrTokenInvalid)", simplified], simp)
qed

lemma safe_logout_all:
  assumes "tokens_of (snd a) t = Some rt" and "rt_UserID rt = uid"
  shows "conc.safe (\<lambda>p b. p = Ret (Done (Inr ())) \<longrightarrow> spent t (snd b)) (op_prog L sg (OpLogoutAll p uid)) a"
proof -
  have now: "spent t (fst (tr_RevokeAllByUser tops None uid ts))" if later: "auth_ext a (us, ts)" for us ts
  proof -
    obtain r where r: "tokens_of ts t = Some r" "rt_UserID r = uid"
      using auth_ext_keeps(2)[OF later] assms unfolding keeps_tokens_def by fastforce
    then show ?thesis
      using revoke_all_tokens[OF stores_inv_parts(2)[OF auth_ext_keeps(3)[OF later]]] by (simp add: spent_def)
  qed
  have ends: "spent t (snd b)" if "auth_ext a (us, ts)" "auth_ext (us, fst (tr_RevokeAllByUser tops None uid ts)) b" for us ts b
    using spent_kept[OF now[OF that(1)], of us "fst b" "snd b"] that(2) by simp
  show ?thesis
    unfolding op_prog.simps prog_LogoutAll_def
    by (intro safe_branches safe_DoRevokeAll safe_Ret; cases p) (auto simp del: split_paired_Ex simp: revoke_all_result dest: ends)
qed

end

end
