(* ===== verification/Auth_Races.thy ===== *)
theory Auth_Races
  imports Auth_Concurrent
begin

text \<open>
  Concurrent calls of the user service over its in-memory repositories: the lemmas of
  \<open>Auth_Concurrent\<close> interpreted there, what follows for every interleaving, and what every
  interleaving of a refresh with a second one, or with a log-out of all sessions, comes to.
\<close>

interpretation memory_calls: auth_calls memory_users stored_users user_store_ok memory_tokens stored_tokens token_store_ok L sg
  for L :: "'ts auth_lib" and sg
  by (rule auth_calls.intro) (rule memory_auth.auth_ports_axioms)

abbreviation auth_calls_run ::
  "'ts auth_lib \<Rightarrow> signer \<Rightarrow> (user_store \<times> token_store) \<times> (auth_op \<times> 'ts reply auth_prog) list \<Rightarrow>
   (user_store \<times> token_store) \<times> (auth_op \<times> 'ts reply auth_prog) list \<Rightarrow> bool"
where
  "auth_calls_run L sg \<equiv> pool_steps (prog_next memory_users memory_tokens) (prog_guard stored_tokens) (op_prog L sg)"

lemma stores_inv_ok: "memory_auth.stores_inv st \<longleftrightarrow> stores_ok st"
  by (simp add: memory_auth.stores_inv_def stores_ok_def)

lemma stores_ok_reached: "auth_calls_run L sg (st, []) (st', ps) \<Longrightarrow> stores_ok st \<Longrightarrow> stores_ok st'"
  using memory_calls.calls_achieve(1) memory_auth.auth_ext_keeps(3) stores_inv_ok by blast

section \<open>What every interleaving keeps\<close>

text \<open>C6: whatever calls run at the same time, and however their steps interleave, in every state
  reached from the empty stores users are indexed by their own identifier and address, no two users
  share an address, every address passed the check, every token is stored under its own string,
  listed for its user, and its user exists.\<close>

theorem concurrent_calls_consistent:
  assumes "auth_calls_run L sg (NewStores, []) ((us, ts), ps)"
  shows "user_store_ok us \<and> token_store_ok ts \<and>
    (\<forall>i j u v. stored_users us i = Some u \<longrightarrow> stored_users us j = Some v \<longrightarrow> us_Email u = us_Email v \<longrightarrow> i = j) \<and>
    (\<forall>i u. stored_users us i = Some u \<longrightarrow> us_UserID u = i \<and> ValidateEmail (us_Email u)) \<and>
    (\<forall>t rt. stored_tokens ts t = Some rt \<longrightarrow> rt_Token rt = t \<and> t \<in> set (listed ts (rt_UserID rt)) \<and>
       stored_users us (rt_UserID rt) \<noteq> None)"
  by (rule stores_ok_facts) (rule stores_ok_reached[OF assms NewStores_ok])

section \<open>Accepted calls\<close>

text \<open>C9: an address is registered once. A registration that was accepted, among any calls at the
  same time, has stored its account under the identifier it drew, with its address; and when the
  calls draw different identifiers, two accepted registrations of one address are the same call.\<close>

theorem concurrent_register_once:
  assumes "auth_calls_run L sg (NewStores, []) ((us, ts), ps)"
    and "i < length ps" and "ps ! i = (OpRegister E req, Ret (Account (Inr a)))"
    and "j < length ps" and "ps ! j = (OpRegister F req', Ret (Account (Inr b)))"
    and "rr_Email req = rr_Email req'"
    and "\<And>k l G q H q'. k < length ps \<Longrightarrow> l < length ps \<Longrightarrow> fst (ps ! k) = OpRegister G q \<Longrightarrow>
      fst (ps ! l) = OpRegister H q' \<Longrightarrow> e_userID G = e_userID H \<Longrightarrow> k = l"
  shows "(\<exists>u. stored_users us (e_userID E) = Some u \<and> us_Email u = rr_Email req) \<and> i = j"
proof -
  have ok: "stores_ok (us, ts)" by (rule stores_ok_reached[OF assms(1) NewStores_ok])
  note achieve = memory_calls.calls_achieve(2)[OF assms(1) NewStores_ok[folded stores_inv_ok]]
  have "memory_calls.registered E req us" "memory_calls.registered F req' us"
    using achieve[OF assms(2,3)] achieve[OF assms(4,5)] by simp_all
  then obtain u v where u: "stored_users us (e_userID E) = Some u" "us_Email u = rr_Email req"
    and v: "stored_users us (e_userID F) = Some v" "us_Email v = rr_Email req'"
    unfolding memory_calls.registered_def by blast
  have "e_userID E = e_userID F"
    using memory_user_repo.unique_email[OF stores_ok_parts(1)[OF ok, simplified] u(1) v(1)] u(2) v(2) assms(6) by simp
  then have "i = j" using assms(7)[OF assms(2,4)] assms(3,5) by simp
  then show ?thesis using u by blast
qed

text \<open>C8: a refresh that has completed has spent its token: whatever ran at the same time, a refresh
  of that token that starts later is refused, whatever runs at the same time as that one.\<close>

theorem concurrent_refresh_spent:
  assumes "auth_calls_run L sg (NewStores, []) (st1, ps1)"
    and "i < length ps1" and "ps1 ! i = (OpRefresh E tok, Ret (Access (Inr access)))" and "ctx_sticky (e_cx E)"
    and "auth_calls_run L sg (st1, ps1 @ [(OpRefresh F tok, op_prog L sg (OpRefresh F tok))]) (st2, ps2)"
    and "ps2 ! length ps1 = (OpRefresh F tok, Ret r)" and "e_cx F 0 = None"
  shows "r = Access (Inl (usvc UErrTokenInvalid))"
proof -
  have "memory_calls.spent tok (snd st1)"
    using memory_calls.calls_achieve(2)[OF assms(1) NewStores_ok[folded stores_inv_ok] assms(2,3)] assms(4) by simp
  then show ?thesis
    using memory_calls.calls_later[OF assms(1) NewStores_ok[folded stores_inv_ok] assms(5,6)
        memory_calls.safe_refresh_spent] assms(7) by blast
qed

text \<open>A log-out of all sessions that has completed has revoked every token its user had when it
  started, whatever ran at the same time.\<close>

lemma concurrent_logout_all:
  assumes "auth_calls_run L sg (NewStores, []) (st1, ps1)"
    and "auth_calls_run L sg (st1, ps1 @ [(OpLogoutAll p uid, op_prog L sg (OpLogoutAll p uid))]) (st2, ps2)"
    and "ps2 ! length ps1 = (OpLogoutAll p uid, Ret (Done (Inr ())))"
    and "stored_tokens (snd st1) t = Some rt" and "rt_UserID rt = uid"
  shows "\<exists>r. stored_tokens (snd st2) t = Some r \<and> rt_Revoked r"
  using memory_calls.calls_later[OF assms(1) NewStores_ok[folded stores_inv_ok] assms(2,3)
      memory_calls.safe_logout_all[OF assms(4,5)]]
  unfolding memory_calls.spent_def by blast

section \<open>A refresh against one other call\<close>

lemma signs_tokens:
  "(\<And>c. \<exists>t. l_sign L c = Inr t) \<Longrightarrow> \<exists>tp. GenerateTokens (l_sign L) (l_itoa L) sg now f uid em ro = Inr tp"
  unfolding GenerateTokens_def Let_def by (metis (no_types, lifting) sum.case(2))

text \<open>How many steps the call \<open>i\<close> of a schedule takes before the first one of the call \<open>j\<close>.\<close>

definition steps_before :: "nat \<Rightarrow> nat \<Rightarrow> nat list \<Rightarrow> nat" where
  "steps_before i j xs = count_list (takeWhile (\<lambda>x. x \<noteq> j) xs) i"

lemma steps_before_snoc:
  "steps_before i j (xs @ [x]) = (if x = i \<and> i \<noteq> j \<and> j \<notin> set xs then Suc (steps_before i j xs) else steps_before i j xs)"
proof (induction xs)
  case Nil
  show ?case by (cases "x = j"; cases "x = i"; cases "i = j"; simp add: steps_before_def)
next
  case (Cons a xs)
  then show ?case by (cases "a = j"; cases "x = i"; cases "i = j"; simp add: steps_before_def)
qed

lemma steps_before_all: "j \<notin> set xs \<Longrightarrow> steps_before i j xs = count_list xs i"
  by (metis (mono_tags, lifting) steps_before_def takeWhile_eq_all_conv)

lemma schedule_snoc:
  "pool_schedule nxt guard (xs @ [i]) c = Option.bind (pool_schedule nxt guard xs c) (pool_advance nxt guard i)"
  by (induction xs arbitrary: c) (auto split: bind_split)

text \<open>The places at which a refresh of a usable token can be: \<open>P 0\<close> before the lookup of the token, \<open>P 1\<close> before that of
  the user, \<open>P 2\<close> before the revocation, \<open>P 3\<close> before the new token is stored, \<open>P 4\<close> at the end; the lookup of a revoked
  token ends in a refusal.\<close>

abbreviation refused :: "'ts reply auth_prog" where
  "refused \<equiv> Ret (Access (Inl (usvc UErrTokenInvalid)))"

definition refresh_places ::
  "user_store \<Rightarrow> string \<Rightarrow> refresh_token \<Rightarrow> token_pair \<Rightarrow> 'ts reply auth_prog \<Rightarrow> (nat \<Rightarrow> 'ts reply auth_prog) \<Rightarrow> bool"
where
  "refresh_places us tok rt tp start P \<longleftrightarrow> P 0 = start \<and>
     (\<forall>ts. stored_tokens ts tok = Some rt \<longrightarrow> prog_next memory_users memory_tokens (P 0) (us, ts) = Some ((us, ts), P 1)) \<and>
     (\<forall>ts. stored_tokens ts tok = Some (revoked rt) \<longrightarrow> prog_next memory_users memory_tokens (P 0) (us, ts) = Some ((us, ts), refused)) \<and>
     (\<forall>ts. prog_next memory_users memory_tokens (P 1) (us, ts) = Some ((us, ts), P 2)) \<and>
     (\<forall>ts. prog_next memory_users memory_tokens (P 2) (us, ts) = Some ((us, fst (token_Revoke None tok ts)), P 3)) \<and>
     (\<forall>ts. prog_next memory_users memory_tokens (P 3) (us, ts) = Some ((us, fst (token_Store None (tp_RefreshToken tp) ts)), P 4)) \<and>
     P 4 = Ret (Access (Inr (tp_AccessToken tp)))"

lemma refresh_places_exist:
  assumes "user_store_ok us" and "stored_users us (rt_UserID rt) = Some u" and "us_IsActive u" and "e_cx E = background"
    and "rt_IsValid (e_now E) rt"
    and "GenerateTokens (l_sign L) (l_itoa L) sg (e_now E) (e_ids E) (us_UserID u) (us_Email u) (us_Role u) = Inr tp"
  shows "\<exists>P. refresh_places us tok rt tp (op_prog L sg (OpRefresh E tok)) P"
proof -
  have user: "user_GetByID None (rt_UserID rt) us = Inr u" using assms(1,2) by (simp add: user_store_ok_def user_GetByID_def)
  let ?next = "prog_next memory_users memory_tokens :: 'ts reply auth_prog \<Rightarrow> _"
  obtain k where k: "op_prog L sg (OpRefresh E tok) = DoGet None (e_now E) tok k" using assms(4) by (simp add: prog_RefreshToken_def)
  have bad: "k (Inl (Sentinel (UserRepo RErrTokenRevoked))) = refused"
    using k assms(4) by (auto simp: prog_RefreshToken_def)
  define p1 where "p1 = k (Inr rt)"
  obtain k1 where k1: "p1 = DoGetByID None (rt_UserID rt) k1" using k assms(4) by (auto simp: p1_def prog_RefreshToken_def)
  define p2 where "p2 = k1 (Inr u)"
  obtain k2 where k2: "p2 = DoRevoke None tok k2"
    using k k1 assms(3,4) by (auto simp: p1_def p2_def prog_RefreshToken_def)
  have const: "k2 r = k2 (Inr ())" for r using k k1 k2 assms(3,4) by (auto simp: p1_def p2_def prog_RefreshToken_def)
  define p3 where "p3 = k2 (Inr ())"
  obtain k3 where k3: "p3 = DoStore None (tp_RefreshToken tp) k3" "k3 (Inr ()) = Ret (Access (Inr (tp_AccessToken tp)))"
    using k k1 k2 assms(3,4,6) by (auto simp: p1_def p2_def p3_def prog_RefreshToken_def)
  let ?P = "\<lambda>i :: nat. if i = 0 then DoGet None (e_now E) tok k else if i = 1 then p1 else if i = 2 then p2 else if i = 3 then p3 else k3 (Inr ())"
  have "refresh_places us tok rt tp (op_prog L sg (OpRefresh E tok)) ?P"
    unfolding refresh_places_def k
  proof (intro conjI allI impI)
    fix ts
    show "?next (?P 0) (us, ts) = Some ((us, ts), ?P 1)" if "stored_tokens ts tok = Some rt"
      using that assms(5) by (simp add: p1_def token_Get_def rt_IsValid_def)
    show "?next (?P 0) (us, ts) = Some ((us, ts), refused)" if "stored_tokens ts tok = Some (revoked rt)"
      using that bad by (simp add: token_Get_def)
    show "?next (?P 1) (us, ts) = Some ((us, ts), ?P 2)" by (simp add: k1 user p2_def)
    show "?next (?P 2) (us, ts) = Some ((us, fst (token_Revoke None tok ts)), ?P 3)"
      using const[of "snd (token_Revoke None tok ts)"] by (simp add: k2 p3_def)
    show "?next (?P 3) (us, ts) = Some ((us, fst (token_Store None (tp_RefreshToken tp) ts)), ?P 4)"
      by (simp add: k3(1) memory_token_repo.store_result[simplified])
  qed (simp_all add: k3)
  then show ?thesis by blast
qed

text \<open>One step of a refresh that has taken \<open>a\<close> steps, when the token is as it was or revoked.\<close>

lemma refresh_places_step:
  assumes "refresh_places us tok rt tp start P" and "a \<le> 4"
    and "prog_next memory_users memory_tokens (P a) (us, ts) = Some ((us', ts'), p')"
    and "stored_tokens ts tok = Some rt \<or> stored_tokens ts tok = Some (revoked rt)"
  shows "us' = us \<and> a < 4 \<and>
    (if a = 0 \<and> stored_tokens ts tok \<noteq> Some rt then ts' = ts \<and> p' = refused
     else p' = P (Suc a) \<and>
       ts' = (if a = 2 then fst (token_Revoke None tok ts) else if a = 3 then fst (token_Store None (tp_RefreshToken tp) ts) else ts))"
proof -
  note pl = assms(1)[unfolded refresh_places_def]
  consider "a = 0" | "a = 1" | "a = 2" | "a = 3" | "a = 4" using assms(2) by linarith
  then show ?thesis
  proof cases
    case 1
    then show ?thesis using pl assms(3,4) by (cases "stored_tokens ts tok = Some rt") auto
  qed (use pl assms(3) in \<open>auto simp: numeral_eq_Suc\<close>)
qed

lemma revoked_twice: "revoked (revoked rt) = revoked rt"
  by simp

lemma not_revoked: "\<not> rt_Revoked rt \<Longrightarrow> revoked rt \<noteq> rt"
  by (metis refresh_token.select_convs(5) refresh_token.surjective refresh_token.update_convs(5))

text \<open>A refresh after \<open>a\<close> steps, when the other call of its pool had taken \<open>e\<close> steps before its first one and revokes the
  token with its step number \<open>m\<close>.\<close>

definition refresh_at :: "(nat \<Rightarrow> 'ts reply auth_prog) \<Rightarrow> nat \<Rightarrow> nat \<Rightarrow> nat \<Rightarrow> 'ts reply auth_prog \<Rightarrow> bool" where
  "refresh_at P m e a p \<longleftrightarrow> (if a = 0 then p = P 0 else if e < m then a \<le> 4 \<and> p = P a else a = 1 \<and> p = refused)"

lemma refresh_at_step:
  assumes "refresh_places us tok rt tp start P" and "refresh_at P m e a p" and "a = 0 \<Longrightarrow> e = b"
    and "prog_next memory_users memory_tokens p (us, ts) = Some ((us', ts'), p')"
    and "stored_tokens ts tok = Some (if 3 \<le> a \<or> m \<le> b then revoked rt else rt)" and "\<not> rt_Revoked rt"
  shows "us' = us \<and> refresh_at P m e (Suc a) p' \<and>
    stored_tokens ts' = (if a = 2 then (stored_tokens ts)(tok \<mapsto> revoked rt)
      else if a = 3 then (stored_tokens ts)(rt_Token (tp_RefreshToken tp) \<mapsto> tp_RefreshToken tp) else stored_tokens ts)"
proof -
  have a: "a \<le> 4 \<and> p = P a" "a \<noteq> 0 \<Longrightarrow> e < m"
    using assms(2,4) by (auto simp: refresh_at_def split: if_splits)
  have known: "stored_tokens ts tok = Some rt \<or> stored_tokens ts tok = Some (revoked rt)" using assms(5) by simp
  have stepped: "us' = us \<and> a < 4 \<and>
      (if a = 0 \<and> stored_tokens ts tok \<noteq> Some rt then ts' = ts \<and> p' = refused
       else p' = P (Suc a) \<and>
         ts' = (if a = 2 then fst (token_Revoke None tok ts) else if a = 3 then fst (token_Store None (tp_RefreshToken tp) ts) else ts))"
    by (rule refresh_places_step[OF assms(1) conjunct1[OF a(1)] _ known]) (use assms(4) a(1) in simp)
  have again: "stored_tokens (fst (token_Revoke None tok ts)) = (stored_tokens ts)(tok \<mapsto> revoked rt)"
    using known by (auto simp: memory_token_repo.revoke_tokens[simplified] revoked_twice)
  show ?thesis
  proof (cases "a = 0")
    case True
    then show ?thesis using stepped assms(3,5) not_revoked[OF assms(6)] by (auto simp: refresh_at_def split: if_splits)
  next
    case False
    then show ?thesis using stepped a(2) again by (auto simp: refresh_at_def memory_token_repo.store_tokens[simplified])
  qed
qed

lemma refresh_at_end:
  assumes "refresh_places us tok rt tp start P" and "refresh_at P m e a (Ret r)"
    and "stored_tokens ts tok = Some rt \<or> stored_tokens ts tok = Some (revoked rt)"
  shows "if e < m \<or> a \<noteq> 1 then a = 4 \<and> e < m \<and> r = Access (Inr (tp_AccessToken tp)) else r = Access (Inl (usvc UErrTokenInvalid))"
proof -
  note pl = assms(1)[unfolded refresh_places_def]
  have going: "P k \<noteq> Ret r" if k: "k < 4" for k
  proof
    assume ret: "P k = Ret r"
    then have none: "prog_next memory_users memory_tokens (P k) (us, ts) = None" by simp
    consider "k = 0" | "k = 1" | "k = 2" | "k = 3" using k by linarith
    then show False
    proof cases
    qed (use pl assms(3) none in auto)
  qed
  have "a \<noteq> 0" using going[of 0] assms(2) by (metis refresh_at_def zero_less_numeral)
  show ?thesis
  proof (cases "e < m")
    case True
    then have "a \<le> 4" "P a = Ret r" using assms(2) \<open>a \<noteq> 0\<close> by (auto simp: refresh_at_def)
    then have "a = 4" using going[of a] by linarith
    then show ?thesis using pl \<open>P a = Ret r\<close> True by simp
  qed (use assms(2) \<open>a \<noteq> 0\<close> in \<open>auto simp: refresh_at_def\<close>)
qed

text \<open>The tokens of the store while two refreshes of the token \<open>tok\<close> have taken \<open>a\<close> and \<open>b\<close> steps.\<close>

definition two_tokens ::
  "(string \<Rightarrow> refresh_token option) \<Rightarrow> string \<Rightarrow> refresh_token \<Rightarrow> refresh_token \<Rightarrow> refresh_token \<Rightarrow> nat \<Rightarrow> nat \<Rightarrow> string \<Rightarrow> refresh_token option"
where
  "two_tokens T tok rt x y a b = (\<lambda>t.
     if t = rt_Token x then (if a = 4 then Some x else None)
     else if t = rt_Token y then (if b = 4 then Some y else None)
     else if t = tok then Some (if 3 \<le> a \<or> 3 \<le> b then revoked rt else rt)
     else T t)"

lemma two_tokens_swap: "rt_Token x \<noteq> rt_Token y \<Longrightarrow> two_tokens T tok rt x y a b = two_tokens T tok rt y x b a"
  by (auto simp: two_tokens_def fun_eq_iff)

lemma two_tokens_step:
  assumes "a \<noteq> 4" and "tok \<noteq> rt_Token x" and "tok \<noteq> rt_Token y"
  shows "(if a = 2 then (two_tokens T tok rt x y a b)(tok \<mapsto> revoked rt)
      else if a = 3 then (two_tokens T tok rt x y a b)(rt_Token x \<mapsto> x) else two_tokens T tok rt x y a b) = two_tokens T tok rt x y (Suc a) b"
proof -
  consider "a = 2" | "a = 3" | "Suc a < 3" | "4 < a" using assms(1) by linarith
  then show ?thesis using assms(2,3) by cases (auto simp: two_tokens_def fun_eq_iff)
qed

lemma refresh_turn:
  assumes "refresh_places us tok rt tp start P" and "refresh_at P 3 e a p" and "a = 0 \<Longrightarrow> e = b"
    and "prog_next memory_users memory_tokens p (us, ts) = Some ((us', ts'), p')"
    and "stored_tokens ts = two_tokens T tok rt (tp_RefreshToken tp) y a b" and "\<not> rt_Revoked rt"
    and "tok \<noteq> rt_Token (tp_RefreshToken tp)" and "tok \<noteq> rt_Token y"
  shows "us' = us \<and> refresh_at P 3 e (Suc a) p' \<and> stored_tokens ts' = two_tokens T tok rt (tp_RefreshToken tp) y (Suc a) b"
proof -
  have tok: "stored_tokens ts tok = Some (if 3 \<le> a \<or> 3 \<le> b then revoked rt else rt)"
    using assms(5,7,8) by (simp add: two_tokens_def)
  note step = refresh_at_step[OF assms(1-4) tok assms(6)]
  have four: "a \<noteq> 4"
  proof
    assume "a = 4"
    then have "p = Ret (Access (Inr (tp_AccessToken tp)))"
      using assms(1,2,4) by (auto simp: refresh_at_def refresh_places_def split: if_splits)
    then show False using assms(4) by simp
  qed
  from step show ?thesis unfolding assms(5) two_tokens_step[OF four assms(7,8)] .
qed

lemma steps_before_le: "steps_before i j xs \<le> count_list xs i"
  unfolding steps_before_def by (induction xs) auto

lemma pool_advance_two:
  assumes "pool_advance nxt guard i (s, [(t, p), (u, q)]) = Some c"
  obtains (first) s' p' where "i = 0" and "nxt p s = Some (s', p')" and "guard p s" and "c = (s', [(t, p'), (u, q)])"
  | (second) s' q' where "i = 1" and "nxt q s = Some (s', q')" and "guard q s" and "c = (s', [(t, p), (u, q')])"
  using assms by (auto simp: pool_advance_def less_Suc_eq split: if_splits)

lemma two_refreshes:
  assumes P: "refresh_places us tok rt x (op_prog L sg (OpRefresh E tok)) P" and Q: "refresh_places us tok rt y (op_prog L sg (OpRefresh F tok)) Q"
    and fresh: "stored_tokens ts tok = Some rt" "\<not> rt_Revoked rt"
      "stored_tokens ts (rt_Token (tp_RefreshToken x)) = None" "stored_tokens ts (rt_Token (tp_RefreshToken y)) = None"
      "rt_Token (tp_RefreshToken x) \<noteq> rt_Token (tp_RefreshToken y)"
    and "pool_schedule (prog_next memory_users memory_tokens) (prog_guard stored_tokens) sched
      ((us, ts), [(OpRefresh E tok, op_prog L sg (OpRefresh E tok)), (OpRefresh F tok, op_prog L sg (OpRefresh F tok))]) = Some c"
  shows "\<exists>ts' p q. c = ((us, ts'), [(OpRefresh E tok, p), (OpRefresh F tok, q)]) \<and>
    refresh_at P 3 (steps_before 1 0 sched) (count_list sched 0) p \<and> refresh_at Q 3 (steps_before 0 1 sched) (count_list sched 1) q \<and>
    stored_tokens ts' = two_tokens (stored_tokens ts) tok rt (tp_RefreshToken x) (tp_RefreshToken y) (count_list sched 0) (count_list sched 1)"
  using assms(8)
proof (induction sched arbitrary: c rule: rev_induct)
  case Nil
  have "stored_tokens ts = two_tokens (stored_tokens ts) tok rt (tp_RefreshToken x) (tp_RefreshToken y) 0 0"
    using fresh by (auto simp: two_tokens_def fun_eq_iff)
  then show ?case using Nil P Q by (auto simp: refresh_at_def refresh_places_def)
next
  case (snoc i sched)
  let ?a = "count_list sched 0" and ?b = "count_list sched 1"
  have other: "tok \<noteq> rt_Token (tp_RefreshToken x)" "tok \<noteq> rt_Token (tp_RefreshToken y)" using fresh by auto
  obtain d where d: "pool_schedule (prog_next memory_users memory_tokens) (prog_guard stored_tokens) sched
      ((us, ts), [(OpRefresh E tok, op_prog L sg (OpRefresh E tok)), (OpRefresh F tok, op_prog L sg (OpRefresh F tok))]) = Some d"
    and adv: "pool_advance (prog_next memory_users memory_tokens) (prog_guard stored_tokens) i d = Some c"
    using snoc.prems by (auto simp: schedule_snoc bind_eq_Some_conv)
  obtain ts1 p q where dd: "d = ((us, ts1), [(OpRefresh E tok, p), (OpRefresh F tok, q)])"
    and p: "refresh_at P 3 (steps_before 1 0 sched) ?a p" and q: "refresh_at Q 3 (steps_before 0 1 sched) ?b q"
    and tokens: "stored_tokens ts1 = two_tokens (stored_tokens ts) tok rt (tp_RefreshToken x) (tp_RefreshToken y) ?a ?b"
    using snoc.IH[OF d] by blast
  have start: "?a = 0 \<Longrightarrow> steps_before 1 0 sched = ?b" "?b = 0 \<Longrightarrow> steps_before 0 1 sched = ?a"
    by (simp_all add: steps_before_all count_list_0_iff)
  from adv[unfolded dd] show ?case
  proof (cases rule: pool_advance_two)
    case (first s' p')
    obtain us' ts' where s': "s' = (us', ts')" by (cases s')
    note turn = refresh_turn[OF P p start(1) first(2)[unfolded s'] tokens fresh(2) other]
    have "refresh_at Q 3 (steps_before 0 1 (sched @ [0])) ?b q" using q by (cases "?b = 0") (auto simp: steps_before_snoc refresh_at_def count_list_0_iff)
    then show ?thesis using turn first(1,4) s' by (auto simp: steps_before_snoc)
  next
    case (second s' q')
    obtain us' ts' where s': "s' = (us', ts')" by (cases s')
    note turn = refresh_turn[OF Q q start(2) second(2)[unfolded s'] tokens[unfolded two_tokens_swap[OF fresh(5)]] fresh(2) other(2,1)]
    have "refresh_at P 3 (steps_before 1 0 (sched @ [1])) ?a p" using p by (cases "?a = 0") (auto simp: steps_before_snoc refresh_at_def count_list_0_iff)
    then show ?thesis using turn second(1,4) s' by (auto simp: steps_before_snoc two_tokens_swap[OF fresh(5)])
  qed
qed

text \<open>C14: two refreshes of one usable token, alone and in any interleaving: each is accepted exactly when the other has
  not taken its third step, the revocation, before it takes its first, the lookup; so at least one is accepted, and
  both whenever both look up before either revokes. Each that is accepted leaves a new live token of the user, one that is
  refused leaves none; the old token is revoked.\<close>

theorem refresh_race:
  assumes "stores_ok (us, ts)" and "stored_tokens ts tok = Some rt" and "rt_IsValid (e_now E) rt" and "rt_IsValid (e_now F) rt"
    and "stored_users us (rt_UserID rt) = Some u" and "us_IsActive u" and "e_cx E = background" and "e_cx F = background"
    and "\<And>c. \<exists>t. l_sign L c = Inr t"
    and "stored_tokens ts (fi_token (e_ids E)) = None" and "stored_tokens ts (fi_token (e_ids F)) = None"
    and "fi_token (e_ids E) \<noteq> fi_token (e_ids F)"
    and "pool_schedule (prog_next memory_users memory_tokens) (prog_guard stored_tokens) sched
      ((us, ts), [(OpRefresh E tok, op_prog L sg (OpRefresh E tok)), (OpRefresh F tok, op_prog L sg (OpRefresh F tok))]) =
      Some ((us', ts'), [(OpRefresh E tok, Ret r1), (OpRefresh F tok, Ret r2)])"
  shows "(if steps_before 1 0 sched < 3
      then (\<exists>a r. r1 = Access (Inr a) \<and> stored_tokens ts' (fi_token (e_ids E)) = Some r \<and> rt_UserID r = rt_UserID rt \<and> \<not> rt_Revoked r)
      else r1 = Access (Inl (usvc UErrTokenInvalid)) \<and> stored_tokens ts' (fi_token (e_ids E)) = None) \<and>
    (if steps_before 0 1 sched < 3
      then (\<exists>a r. r2 = Access (Inr a) \<and> stored_tokens ts' (fi_token (e_ids F)) = Some r \<and> rt_UserID r = rt_UserID rt \<and> \<not> rt_Revoked r)
      else r2 = Access (Inl (usvc UErrTokenInvalid)) \<and> stored_tokens ts' (fi_token (e_ids F)) = None) \<and>
    (steps_before 1 0 sched < 3 \<or> steps_before 0 1 sched < 3) \<and>
    stored_tokens ts' tok = Some (revoked rt)"
proof -
  obtain x y where
    x: "GenerateTokens (l_sign L) (l_itoa L) sg (e_now E) (e_ids E) (us_UserID u) (us_Email u) (us_Role u) = Inr x" and
    y: "GenerateTokens (l_sign L) (l_itoa L) sg (e_now F) (e_ids F) (us_UserID u) (us_Email u) (us_Role u) = Inr y"
    using signs_tokens[OF assms(9)] by metis
  note new = GenerateTokens_refresh_simps[OF x] GenerateTokens_refresh_simps[OF y]
  have users: "user_store_ok us" "us_UserID u = rt_UserID rt" using assms(1,5) by (simp_all add: stores_ok_def user_store_ok_def)
  have live: "\<not> rt_Revoked rt" using assms(3) by (simp add: rt_IsValid_def)
  obtain P Q where P: "refresh_places us tok rt x (op_prog L sg (OpRefresh E tok)) P" and Q: "refresh_places us tok rt y (op_prog L sg (OpRefresh F tok)) Q"
    using refresh_places_exist[OF users(1) assms(5,6,7,3) x] refresh_places_exist[OF users(1) assms(5,6,8,4) y] by blast
  let ?a = "count_list sched 0" and ?b = "count_list sched 1"
  from two_refreshes[OF P Q assms(2) live _ _ _ assms(13)] have
    p: "refresh_at P 3 (steps_before 1 0 sched) ?a (Ret r1)" and q: "refresh_at Q 3 (steps_before 0 1 sched) ?b (Ret r2)"
    and tokens: "stored_tokens ts' = two_tokens (stored_tokens ts) tok rt (tp_RefreshToken x) (tp_RefreshToken y) ?a ?b"
    using new assms(10-12) by auto
  have other: "tok \<noteq> fi_token (e_ids E)" "tok \<noteq> fi_token (e_ids F)" using assms(2,10,11) by auto
  have known: "stored_tokens ts' tok = Some (if 3 \<le> ?a \<or> 3 \<le> ?b then revoked rt else rt)"
    using tokens other new by (simp add: two_tokens_def)
  have "stored_tokens ts' tok = Some rt \<or> stored_tokens ts' tok = Some (revoked rt)" using known by simp
  note ends = refresh_at_end[OF P p this] refresh_at_end[OF Q q this]
  have le: "steps_before 1 0 sched \<le> ?b" "steps_before 0 1 sched \<le> ?a" by (rule steps_before_le)+
  show ?thesis
    using ends le known tokens new users(2) assms(12) other by (auto simp: two_tokens_def split: if_splits)
qed

text \<open>The tokens of the store while a refresh of \<open>tok\<close> has taken \<open>a\<close> steps and a log-out of all sessions \<open>b\<close>, the
  latter after \<open>k\<close> steps of the former.\<close>

definition after_logout ::
  "(string \<Rightarrow> refresh_token option) \<Rightarrow> string \<Rightarrow> refresh_token \<Rightarrow> refresh_token \<Rightarrow> nat \<Rightarrow> nat \<Rightarrow> nat \<Rightarrow> string \<Rightarrow> refresh_token option"
where
  "after_logout T tok rt x a b k = (\<lambda>t.
     if t = rt_Token x then (if a < 4 then None else Some (if 1 \<le> b \<and> k = 4 then revoked x else x))
     else if t = tok then Some (if 3 \<le> a \<or> 1 \<le> b then revoked rt else rt)
     else map_option (\<lambda>r. if 1 \<le> b \<and> rt_UserID r = rt_UserID rt then revoked r else r) (T t))"

lemma after_logout_step:
  assumes "a < 4" and "tok \<noteq> rt_Token x" and "1 \<le> b \<Longrightarrow> k' = k" and "k \<le> a"
  shows "(if a = 2 then (after_logout T tok rt x a b k)(tok \<mapsto> revoked rt)
      else if a = 3 then (after_logout T tok rt x a b k)(rt_Token x \<mapsto> x) else after_logout T tok rt x a b k) = after_logout T tok rt x (Suc a) b k'"
proof -
  consider "a = 2" | "a = 3" | "Suc a < 3" using assms(1) by linarith
  then show ?thesis using assms(2-4) by cases (auto simp: after_logout_def fun_eq_iff)
qed

lemma after_logout_all:
  assumes "rt_UserID x = rt_UserID rt" and "tok \<noteq> rt_Token x" and "a \<le> 4"
  shows "(\<lambda>t. map_option (\<lambda>r. if rt_UserID r = rt_UserID rt then revoked r else r) (after_logout T tok rt x a 0 k t)) =
    after_logout T tok rt x a (Suc 0) a"
proof
  fix t
  consider "t = rt_Token x" | "t = tok" | "t \<noteq> rt_Token x" "t \<noteq> tok" by blast
  then show "map_option (\<lambda>r. if rt_UserID r = rt_UserID rt then revoked r else r) (after_logout T tok rt x a 0 k t) =
      after_logout T tok rt x a (Suc 0) a t"
    using assms by cases (auto simp: after_logout_def option.map_comp comp_def)
qed

definition logout_at :: "'ts reply auth_prog \<Rightarrow> nat \<Rightarrow> 'ts reply auth_prog \<Rightarrow> bool" where
  "logout_at start b q \<longleftrightarrow> (if b = 0 then q = start else b = 1 \<and> q = Ret (Done (Inr ())))"

lemma refresh_and_logout:
  assumes P: "refresh_places us tok rt x (op_prog L sg (OpRefresh E tok)) P"
    and ok: "stores_ok (us, ts)" and fresh: "stored_tokens ts tok = Some rt" "\<not> rt_Revoked rt"
      "stored_tokens ts (rt_Token (tp_RefreshToken x)) = None" "rt_UserID (tp_RefreshToken x) = rt_UserID rt"
    and "pool_schedule (prog_next memory_users memory_tokens) (prog_guard stored_tokens) sched
      ((us, ts), [(OpRefresh E tok, op_prog L sg (OpRefresh E tok)),
        (OpLogoutAll None (rt_UserID rt), op_prog L sg (OpLogoutAll None (rt_UserID rt)))]) = Some c"
  shows "\<exists>ts' p q. c = ((us, ts'), [(OpRefresh E tok, p), (OpLogoutAll None (rt_UserID rt), q)]) \<and>
    refresh_at P 1 (steps_before 1 0 sched) (count_list sched 0) p \<and>
    logout_at (op_prog L sg (OpLogoutAll None (rt_UserID rt))) (count_list sched 1) q \<and>
    stored_tokens ts' = after_logout (stored_tokens ts) tok rt (tp_RefreshToken x) (count_list sched 0) (count_list sched 1) (steps_before 0 1 sched)"
  using assms(7)
proof (induction sched arbitrary: c rule: rev_induct)
  case Nil
  have "after_logout (stored_tokens ts) tok rt (tp_RefreshToken x) 0 0 (steps_before 0 1 []) = stored_tokens ts"
  proof
    show "after_logout (stored_tokens ts) tok rt (tp_RefreshToken x) 0 0 (steps_before 0 1 []) t = stored_tokens ts t" for t
      using fresh by (cases "stored_tokens ts t") (auto simp: after_logout_def)
  qed
  then show ?case using Nil P by (auto simp: refresh_at_def refresh_places_def logout_at_def)
next
  case (snoc i sched)
  let ?uid = "rt_UserID rt" and ?a = "count_list sched 0" and ?b = "count_list sched 1" and ?k = "steps_before 0 1 sched"
  let ?start = "op_prog L sg (OpLogoutAll None (rt_UserID rt))"
  let ?init = "((us, ts), [(OpRefresh E tok, op_prog L sg (OpRefresh E tok)), (OpLogoutAll None ?uid, ?start)])"
  have other: "tok \<noteq> rt_Token (tp_RefreshToken x)" using fresh by auto
  obtain d where d: "pool_schedule (prog_next memory_users memory_tokens) (prog_guard stored_tokens) sched ?init = Some d"
    and adv: "pool_advance (prog_next memory_users memory_tokens) (prog_guard stored_tokens) i d = Some c"
    using snoc.prems by (auto simp: schedule_snoc bind_eq_Some_conv)
  obtain ts1 p q where dd: "d = ((us, ts1), [(OpRefresh E tok, p), (OpLogoutAll None ?uid, q)])"
    and p: "refresh_at P 1 (steps_before 1 0 sched) ?a p" and q: "logout_at ?start ?b q"
    and tokens: "stored_tokens ts1 = after_logout (stored_tokens ts) tok rt (tp_RefreshToken x) ?a ?b ?k"
    using snoc.IH[OF d] by blast
  have "auth_calls_run L sg ((us, ts), []) ((us, ts1), [(OpRefresh E tok, p), (OpLogoutAll None ?uid, q)])"
    by (rule rtranclp_trans[OF pool_spawn_two pool_schedule_steps[OF d[unfolded dd]]])
  then have "stores_ok (us, ts1)" using ok by (rule stores_ok_reached)
  then have ok1: "token_store_ok ts1" by (simp add: stores_ok_def)
  have start: "?a = 0 \<Longrightarrow> steps_before 1 0 sched = ?b" "?b = 0 \<Longrightarrow> ?k = ?a"
    by (simp_all add: steps_before_all count_list_0_iff)
  have le: "?k \<le> ?a" by (rule steps_before_le)
  have a4: "?a \<le> 4" using p by (auto simp: refresh_at_def split: if_splits)
  from adv[unfolded dd] show ?case
  proof (cases rule: pool_advance_two)
    case (first s' p')
    obtain us' ts' where s': "s' = (us', ts')" by (cases s')
    have tok: "stored_tokens ts1 tok = Some (if 3 \<le> ?a \<or> 1 \<le> ?b then revoked rt else rt)" using tokens other by (simp add: after_logout_def)
    note step = refresh_at_step[OF P p start(1) first(2)[unfolded s'] tok fresh(2)]
    have four: "?a < 4"
    proof (rule ccontr)
      assume "\<not> ?a < 4"
      then have "p = Ret (Access (Inr (tp_AccessToken x)))" using P p a4 by (auto simp: refresh_at_def refresh_places_def split: if_splits)
      then show False using first(2) by simp
    qed
    have later: "1 \<le> ?b \<Longrightarrow> steps_before 0 1 (sched @ [0]) = ?k"
      using count_list_0_iff[of sched "1 :: nat"] by (cases "1 \<in> set sched") (simp_all add: steps_before_snoc)
    have "stored_tokens ts' = after_logout (stored_tokens ts) tok rt (tp_RefreshToken x) (Suc ?a) ?b (steps_before 0 1 (sched @ [0]))"
      using conjunct2[OF conjunct2[OF step]] after_logout_step[OF four other later le, where T = "stored_tokens ts" and rt = rt] by (simp only: tokens)
    then show ?thesis using step first(1,4) s' q by (simp add: steps_before_snoc)
  next
    case (second s' q')
    have b: "?b = 0" and q0: "q = ?start" using q second(2) by (auto simp: logout_at_def split: if_splits)
    have "stored_tokens (fst (token_RevokeAllByUser None ?uid ts1)) =
        (\<lambda>t. map_option (\<lambda>r. if rt_UserID r = ?uid then revoked r else r) (after_logout (stored_tokens ts) tok rt (tp_RefreshToken x) ?a 0 ?k t))"
      using memory_token_repo.revoke_all_tokens[simplified, OF ok1, of ?uid] unfolding tokens b .
    also have "\<dots> = after_logout (stored_tokens ts) tok rt (tp_RefreshToken x) ?a (Suc 0) ?a" by (rule after_logout_all[OF fresh(4) other a4])
    finally have all: "stored_tokens (fst (token_RevokeAllByUser None ?uid ts1)) = after_logout (stored_tokens ts) tok rt (tp_RefreshToken x) ?a (Suc 0) ?a" .
    have "s' = (us, fst (token_RevokeAllByUser None ?uid ts1)) \<and> q' = Ret (Done (Inr ()))"
      using second(2) q0 by (simp add: prog_LogoutAll_def memory_token_repo.revoke_all_result[simplified])
    moreover have "refresh_at P 1 (steps_before 1 0 (sched @ [1])) ?a p"
      using p by (cases "?a = 0") (auto simp: steps_before_snoc refresh_at_def count_list_0_iff)
    moreover have "steps_before 0 1 (sched @ [1]) = ?a" using start(2)[OF b] by (simp add: steps_before_snoc)
    ultimately show ?thesis using second(1,4) b all by (auto simp: logout_at_def)
  qed
qed

text \<open>C15: a refresh and a log-out of all sessions of its user, alone and in any interleaving: the log-out succeeds and every
  token the user had is revoked. Only if the log-out comes before the lookup is the refresh refused; the new token of the refresh survives
  the log-out exactly when the log-out comes between the lookup and the \<open>Store\<close>: then the user still has a live token.\<close>

theorem logout_all_race:
  assumes "stores_ok (us, ts)" and "stored_tokens ts tok = Some rt" and "rt_IsValid (e_now E) rt"
    and "stored_users us (rt_UserID rt) = Some u" and "us_IsActive u" and "e_cx E = background"
    and "\<And>c. \<exists>t. l_sign L c = Inr t" and "stored_tokens ts (fi_token (e_ids E)) = None"
    and "pool_schedule (prog_next memory_users memory_tokens) (prog_guard stored_tokens) sched
      ((us, ts), [(OpRefresh E tok, op_prog L sg (OpRefresh E tok)),
        (OpLogoutAll None (rt_UserID rt), op_prog L sg (OpLogoutAll None (rt_UserID rt)))]) =
      Some ((us', ts'), [(OpRefresh E tok, Ret r1), (OpLogoutAll None (rt_UserID rt), Ret r2)])"
  shows "r2 = Done (Inr ()) \<and>
    (\<forall>t old. stored_tokens ts t = Some old \<longrightarrow> rt_UserID old = rt_UserID rt \<longrightarrow> stored_tokens ts' t = Some (revoked old)) \<and>
    (if steps_before 0 1 sched = 0 then r1 = Access (Inl (usvc UErrTokenInvalid)) \<and> stored_tokens ts' (fi_token (e_ids E)) = None
     else \<exists>a r. r1 = Access (Inr a) \<and> stored_tokens ts' (fi_token (e_ids E)) = Some r \<and> rt_UserID r = rt_UserID rt \<and>
       (rt_Revoked r \<longleftrightarrow> steps_before 0 1 sched = 4))"
proof -
  obtain x where
    x: "GenerateTokens (l_sign L) (l_itoa L) sg (e_now E) (e_ids E) (us_UserID u) (us_Email u) (us_Role u) = Inr x"
    using signs_tokens[OF assms(7)] by metis
  note new = GenerateTokens_refresh_simps[OF x]
  have users: "user_store_ok us" "us_UserID u = rt_UserID rt" using assms(1,4) by (simp_all add: stores_ok_def user_store_ok_def)
  have live: "\<not> rt_Revoked rt" using assms(3) by (simp add: rt_IsValid_def)
  obtain P where P: "refresh_places us tok rt x (op_prog L sg (OpRefresh E tok)) P"
    using refresh_places_exist[OF users(1) assms(4,5,6,3) x] by blast
  let ?a = "count_list sched 0" and ?b = "count_list sched 1" and ?k = "steps_before 0 1 sched"
  have free: "stored_tokens ts (rt_Token (tp_RefreshToken x)) = None" "rt_UserID (tp_RefreshToken x) = rt_UserID rt"
    using new assms(8) users(2) by simp_all
  from refresh_and_logout[OF P assms(1,2) live free assms(9)] have
    p: "refresh_at P 1 (steps_before 1 0 sched) ?a (Ret r1)" and q: "logout_at (op_prog L sg (OpLogoutAll None (rt_UserID rt))) ?b (Ret r2)"
    and tokens: "stored_tokens ts' = after_logout (stored_tokens ts) tok rt (tp_RefreshToken x) ?a ?b ?k" by auto
  have other: "tok \<noteq> fi_token (e_ids E)" using assms(2,8) by auto
  have b: "?b = 1" "r2 = Done (Inr ())" using q by (auto simp: logout_at_def prog_LogoutAll_def split: if_splits)
  have known: "stored_tokens ts' tok = Some (revoked rt)" using tokens other new b by (simp add: after_logout_def)
  from refresh_at_end[OF P p disjI2[OF this]] have ends: "if steps_before 1 0 sched < 1 \<or> ?a \<noteq> 1
      then ?a = 4 \<and> steps_before 1 0 sched < 1 \<and> r1 = Access (Inr (tp_AccessToken x)) else r1 = Access (Inl (usvc UErrTokenInvalid))" .
  have first: "?k = 0 \<longleftrightarrow> steps_before 1 0 sched \<noteq> 0"
  proof (cases sched)
    case (Cons i rest)
    then have "i < 2" using assms(9) by (auto simp: pool_advance_def split: if_splits)
    then show ?thesis using Cons by (auto simp: steps_before_def less_2_cases_iff)
  qed (use b in simp)
  have a: "if ?k = 0 then ?a = 1 \<and> r1 = Access (Inl (usvc UErrTokenInvalid)) else ?a = 4 \<and> r1 = Access (Inr (tp_AccessToken x))"
    using ends first by (auto split: if_splits)
  have old: "stored_tokens ts' t = Some (revoked old)" if "stored_tokens ts t = Some old" "rt_UserID old = rt_UserID rt" for t old
    using that tokens b new assms(2,8) by (cases "t = tok") (auto simp: after_logout_def)
  show ?thesis
    using a b old tokens new users(2) by (auto simp: after_logout_def split: if_splits)
qed

text \<open>Both happen: the two refreshes can both look up before either revokes, and the log-out can come before the \<open>Store\<close>.\<close>

lemma token_Get_valid:
  assumes "stored_tokens ts tok = Some rt" and "rt_IsValid now rt"
  shows "token_Get None now tok ts = Inr rt"
  using assms by (simp add: token_Get_def rt_IsValid_def)

lemma overlapping_refreshes:
  assumes "stores_ok (us, ts)" and "stored_tokens ts tok = Some rt" and "rt_IsValid (e_now E) rt" and "rt_IsValid (e_now F) rt"
    and "stored_users us (rt_UserID rt) = Some u" and "us_IsActive u" and "e_cx E = background" and "e_cx F = background"
    and "\<And>c. \<exists>t. l_sign L c = Inr t"
    and "stored_tokens ts (fi_token (e_ids E)) = None" and "stored_tokens ts (fi_token (e_ids F)) = None"
    and "fi_token (e_ids E) \<noteq> fi_token (e_ids F)"
  shows "\<exists>ts' r1 r2. pool_schedule (prog_next memory_users memory_tokens) (prog_guard stored_tokens) [0, 1, 0, 1, 0, 0, 1, 1]
      ((us, ts), [(OpRefresh E tok, op_prog L sg (OpRefresh E tok)), (OpRefresh F tok, op_prog L sg (OpRefresh F tok))]) =
    Some ((us, ts'), [(OpRefresh E tok, Ret r1), (OpRefresh F tok, Ret r2)])"
proof -
  obtain tE tF where
    E: "GenerateTokens (l_sign L) (l_itoa L) sg (e_now E) (e_ids E) (us_UserID u) (us_Email u) (us_Role u) = Inr tE" and
    F: "GenerateTokens (l_sign L) (l_itoa L) sg (e_now F) (e_ids F) (us_UserID u) (us_Email u) (us_Role u) = Inr tF"
    using signs_tokens[OF assms(9)] by metis
  have id: "us_UserID u = rt_UserID rt" "user_GetByID None (rt_UserID rt) us = Inr u"
    using assms(1,5) by (simp_all add: stores_ok_def user_store_ok_def user_GetByID_def)
  note get = token_Get_valid[OF assms(2,3)] token_Get_valid[OF assms(2,4)]
  note tE = GenerateTokens_refresh_simps[OF E] and tF = GenerateTokens_refresh_simps[OF F]
  define ts1 where "ts1 = fst (token_Revoke None tok ts)"
  define ts2 where "ts2 = fst (token_Store None (tp_RefreshToken tE) ts1)"
  define ts3 where "ts3 = fst (token_Revoke None tok ts2)"
  define ts4 where "ts4 = fst (token_Store None (tp_RefreshToken tF) ts3)"
  have distinct: "fi_token (e_ids E) \<noteq> tok" "fi_token (e_ids F) \<noteq> tok" using assms(2,10,11) by auto
  have g1: "stored_tokens ts1 = (stored_tokens ts)(tok \<mapsto> revoked rt)"
    unfolding ts1_def using assms(2) by (simp add: memory_token_repo.revoke_tokens[simplified])
  have g2: "stored_tokens ts2 = (stored_tokens ts1)(fi_token (e_ids E) \<mapsto> tp_RefreshToken tE)"
    unfolding ts2_def using tE by (simp add: memory_token_repo.store_tokens[simplified])
  have g3: "stored_tokens ts3 = stored_tokens ts2"
    unfolding ts3_def using distinct by (simp add: memory_token_repo.revoke_tokens[simplified] g2 g1 fun_upd_idem)
  have g4: "stored_tokens ts4 = (stored_tokens ts3)(fi_token (e_ids F) \<mapsto> tp_RefreshToken tF)"
    unfolding ts4_def using tF by (simp add: memory_token_repo.store_tokens[simplified])
  have "pool_schedule (prog_next memory_users memory_tokens) (prog_guard stored_tokens) [0, 1, 0, 1, 0, 0, 1, 1]
      ((us, ts), [(OpRefresh E tok, op_prog L sg (OpRefresh E tok)), (OpRefresh F tok, op_prog L sg (OpRefresh F tok))]) =
    Some ((us, ts4), [(OpRefresh E tok, Ret (Access (Inr (tp_AccessToken tE)))), (OpRefresh F tok, Ret (Access (Inr (tp_AccessToken tF))))])"
    using assms(6-8) distinct
    by (simp add: pool_advance_def prog_RefreshToken_def get id E[unfolded id(1)] F[unfolded id(1)] tE tF ts1_def[symmetric] ts2_def[symmetric]
        ts3_def[symmetric] ts4_def[symmetric] g1 g2 g3 assms(10-12) assms(12)[symmetric] memory_token_repo.store_result[simplified])
  then show ?thesis by blast
qed

lemma overlapping_logout:
  assumes "stores_ok (us, ts)" and "stored_tokens ts tok = Some rt" and "rt_IsValid (e_now E) rt"
    and "stored_users us (rt_UserID rt) = Some u" and "us_IsActive u" and "e_cx E = background"
    and "\<And>c. \<exists>t. l_sign L c = Inr t" and "stored_tokens ts (fi_token (e_ids E)) = None"
  shows "\<exists>ts' r1 r2. pool_schedule (prog_next memory_users memory_tokens) (prog_guard stored_tokens) [0, 0, 0, 1, 0]
      ((us, ts), [(OpRefresh E tok, op_prog L sg (OpRefresh E tok)),
        (OpLogoutAll None (rt_UserID rt), op_prog L sg (OpLogoutAll None (rt_UserID rt)))]) =
    Some ((us, ts'), [(OpRefresh E tok, Ret r1), (OpLogoutAll None (rt_UserID rt), Ret r2)])"
proof -
  obtain tE where
    E: "GenerateTokens (l_sign L) (l_itoa L) sg (e_now E) (e_ids E) (us_UserID u) (us_Email u) (us_Role u) = Inr tE"
    using signs_tokens[OF assms(7)] by metis
  have id: "us_UserID u = rt_UserID rt" "user_GetByID None (rt_UserID rt) us = Inr u"
    using assms(1,4) by (simp_all add: stores_ok_def user_store_ok_def user_GetByID_def)
  note get = token_Get_valid[OF assms(2,3)] and tE = GenerateTokens_refresh_simps[OF E]
  define ts1 where "ts1 = fst (token_Revoke None tok ts)"
  define ts2 where "ts2 = fst (token_RevokeAllByUser None (rt_UserID rt) ts1)"
  define ts3 where "ts3 = fst (token_Store None (tp_RefreshToken tE) ts2)"
  have "token_store_ok ts1" unfolding ts1_def using assms(1) by (simp add: stores_ok_def token_Revoke_ok)
  then have fresh: "stored_tokens ts2 (fi_token (e_ids E)) = None"
    unfolding ts2_def ts1_def using assms(2,8)
    by (auto simp add: memory_token_repo.revoke_all_tokens[simplified] memory_token_repo.revoke_tokens[simplified])
  have "pool_schedule (prog_next memory_users memory_tokens) (prog_guard stored_tokens) [0, 0, 0, 1, 0]
      ((us, ts), [(OpRefresh E tok, op_prog L sg (OpRefresh E tok)),
        (OpLogoutAll None (rt_UserID rt), op_prog L sg (OpLogoutAll None (rt_UserID rt)))]) =
    Some ((us, ts3), [(OpRefresh E tok, Ret (Access (Inr (tp_AccessToken tE)))),
      (OpLogoutAll None (rt_UserID rt), Ret (Done (Inr ())))])"
    using assms(5,6)
    by (simp add: pool_advance_def prog_RefreshToken_def prog_LogoutAll_def get id E[unfolded id(1)] tE fresh
        ts1_def[symmetric] ts2_def[symmetric] ts3_def[symmetric]
        memory_token_repo.store_result[simplified] memory_token_repo.revoke_all_result[simplified])
  then show ?thesis by blast
qed

section \<open>Calls one after the other\<close>

lemma op_fresh_prog: "op_fresh (stored_tokens ts) op \<Longrightarrow> prog_fresh memory_users memory_tokens stored_tokens (op_prog L sg op) (us, ts)"
proof (cases op)
  case (OpRefresh E tok)
  assume "op_fresh (stored_tokens ts) op"
  then have "stored_tokens (fst (token_Revoke (e_cx E 2) tok ts)) (fi_token (e_ids E)) = None"
    using OpRefresh by (cases "e_cx E 2") (auto simp: token_Revoke_def gm_get_revoke_one split: option.split)
  then show ?thesis
    by (auto simp: OpRefresh prog_fresh_map prog_RefreshToken_def dest: GenerateTokens_refresh_simps(1) split: sum.split)
qed (auto simp: prog_fresh_map prog_defs dest: GenerateTokens_refresh_simps(1) split: sum.split)

lemma run_spawn: "auth_calls_run L sg c (st, ps) \<Longrightarrow> auth_calls_run L sg c (st, ps @ [(op, op_prog L sg op)])"
  by (rule rtranclp.rtrancl_into_rtrancl) (auto intro: pool_step.spawn)

text \<open>A call with nothing in between is one of the interleavings, so every run of \<open>Auth_Props\<close> is one.\<close>

lemma run_started:
  assumes "op_fresh (stored_tokens ts) op"
  shows "auth_calls_run L sg ((us, ts), ps @ [(op, op_prog L sg op)]) (auth_exec L (memory_service sg) op (us, ts),
    ps @ [(op, Ret (auth_answer L (memory_service sg) op (us, ts)))])"
proof -
  have run: "prog_run memory_users memory_tokens (op_prog L sg op) (us, ts) =
      (auth_exec L (memory_service sg) op (us, ts), auth_answer L (memory_service sg) op (us, ts))"
    using calls_alone[of "memory_service sg" L op "(us, ts)"] by simp
  show ?thesis
    using pool_run_alone[OF op_fresh_prog[OF assms] _ _ run, where i = "length ps" and t = op and start = "op_prog L sg"
        and ps = "ps @ [(op, op_prog L sg op)]"] by simp
qed

lemma run_call: "auth_calls_run L sg c ((us, ts), ps) \<Longrightarrow> op_fresh (stored_tokens ts) op \<Longrightarrow>
    auth_calls_run L sg c (auth_exec L (memory_service sg) op (us, ts),
      ps @ [(op, Ret (auth_answer L (memory_service sg) op (us, ts)))])"
  by (rule rtranclp_trans[OF run_spawn run_started])

lemma steps_are_calls:
  "auth_steps L sg (us, ts) st \<Longrightarrow> \<exists>ps. auth_calls_run L sg ((us, ts), []) (st, ps)"
proof (induction rule: rtranclp_induct)
  case (step y z)
  obtain ts' op us' where "op_fresh (stored_tokens ts') op" "y = (us', ts')"
    "z = auth_exec L (memory_service sg) op (us', ts')" using step.hyps(2) by (rule auth_stepE)
  then show ?case using step.IH run_call by blast
qed blast

section \<open>Concrete runs\<close>

lemma wit_run1:
  "auth_calls_run wit_lib wit_signer (NewStores, []) ((fst wit_st1, snd wit_st1), [(OpRegister (wit_env ''u'' ''r1'') wit_req,
     Ret (Account (Inr \<lparr>ar_User = user_ToProto (\<lambda>_. ()) wit_user, ar_AccessToken = ''u''\<rparr>)))])"
proof -
  have "op_fresh (stored_tokens (snd NewStores)) (OpRegister (wit_env ''u'' ''r1'') wit_req)"
    by (simp add: NewStores_def NewTokenRepository_def)
  from run_call[OF _ this, of wit_lib wit_signer "(NewStores, [])" "fst NewStores" "[]"]
  show ?thesis by (simp only: prod.collapse auth_exec.simps auth_answer.simps wit_Register fst_conv snd_conv append_Nil rtranclp.rtrancl_refl)
qed

abbreviation wit_accepted :: "auth_op \<times> unit reply auth_prog" where
  "wit_accepted \<equiv> (OpRegister (wit_env ''u'' ''r1'') wit_req,
     Ret (Account (Inr \<lparr>ar_User = user_ToProto (\<lambda>_. ()) wit_user, ar_AccessToken = ''u''\<rparr>)))"

lemma wit_run2:
  "auth_calls_run wit_lib wit_signer (NewStores, [])
    (auth_exec wit_lib (memory_service wit_signer) (OpRefresh (wit_env ''x'' ''r2'') ''r1'') wit_st1,
     [wit_accepted, (OpRefresh (wit_env ''x'' ''r2'') ''r1'', Ret (Access (Inr ''u'')))])"
proof -
  have "op_fresh (stored_tokens (snd wit_st1)) (OpRefresh (wit_env ''x'' ''r2'') ''r1'')" by (simp add: wit_st1 wit_env_def)
  from run_call[OF wit_run1 this]
  show ?thesis
    by (simp only: auth_answer.simps prod.collapse wit_Refresh[unfolded prod.collapse] snd_conv append_Cons append_Nil)
qed

theorem concurrent_calls_consistent_witness:
  "ValidateEmail (us_Email wit_user) \<and> ''r1'' \<in> set (listed (snd wit_st1) ''u'')"
proof -
  note all = concurrent_calls_consistent[OF wit_run1]
  have u: "stored_users (fst wit_st1) ''u'' = Some wit_user" and t: "stored_tokens (snd wit_st1) ''r1'' = Some (wit_token ''r1'')"
    by (simp_all add: wit_st1)
  have "''r1'' \<in> set (listed (snd wit_st1) (rt_UserID (wit_token ''r1'')))" using all t by blast
  moreover have "ValidateEmail (us_Email wit_user)" using all u by blast
  ultimately show ?thesis by (simp add: wit_token_def)
qed

theorem concurrent_register_once_witness:
  "\<exists>u. stored_users (fst wit_st1) ''u'' = Some u \<and> us_Email u = ''a@b.c''"
proof -
  have "(\<exists>u. stored_users (fst wit_st1) (e_userID (wit_env ''u'' ''r1'')) = Some u \<and> us_Email u = rr_Email wit_req) \<and> (0::nat) = 0"
    by (rule concurrent_register_once[OF wit_run1]) simp_all
  then show ?thesis by (simp add: wit_env_def wit_req_def)
qed

theorem concurrent_refresh_spent_witness:
  "snd (auth_RefreshToken wit_lib (memory_service wit_signer) (wit_env ''x'' ''r3'') ''r1''
     (auth_exec wit_lib (memory_service wit_signer) (OpRefresh (wit_env ''x'' ''r2'') ''r1'') wit_st1)) =
   Inl (usvc UErrTokenInvalid)"
proof -
  let ?E = "wit_env ''x'' ''r2''" and ?F = "wit_env ''x'' ''r3''"
  obtain us ts where st: "auth_exec wit_lib (memory_service wit_signer) (OpRefresh ?E ''r1'') wit_st1 = (us, ts)" by fastforce
  have eq: "auth_RefreshToken wit_lib (memory_service wit_signer) ?E ''r1'' (fst wit_st1, snd wit_st1) = ((us, ts), Inr ''u'')"
    using wit_Refresh st by simp
  have "stored_tokens ts ''r3'' = None"
  proof (cases rule: refresh_cases[of wit_lib "memory_service wit_signer" ?E "''r1''" "fst wit_st1" "snd wit_st1"])
    case (stored rt u tp)
    have "ts = fst (token_Store None (tp_RefreshToken tp) (fst (token_Revoke None ''r1'' (snd wit_st1))))"
      using stored(5) eq by (simp add: Let_def wit_env_def)
    then show ?thesis
      using GenerateTokens_refresh_simps(1)[OF stored(4)] memory_token_repo.store_tokens[of "tp_RefreshToken tp"]
        memory_token_repo.revoke_tokens[of "''r1''" "snd wit_st1"]
      by (simp add: wit_env_def wit_st1)
  qed (use eq in simp_all)
  then have "op_fresh (stored_tokens ts) (OpRefresh ?F ''r1'')" by (simp add: wit_env_def)
  from run_started[OF this, of wit_lib wit_signer us "[wit_accepted, (OpRefresh ?E ''r1'', Ret (Access (Inr ''u'')))]"]
  have run: "auth_calls_run wit_lib wit_signer ((us, ts), [wit_accepted, (OpRefresh ?E ''r1'', Ret (Access (Inr ''u'')))] @
      [(OpRefresh ?F ''r1'', op_prog wit_lib wit_signer (OpRefresh ?F ''r1''))])
    (auth_exec wit_lib (memory_service wit_signer) (OpRefresh ?F ''r1'') (us, ts),
     [wit_accepted, (OpRefresh ?E ''r1'', Ret (Access (Inr ''u''))),
      (OpRefresh ?F ''r1'', Ret (Access (snd (auth_RefreshToken wit_lib (memory_service wit_signer) ?F ''r1'' (us, ts)))))])"
    by (simp only: auth_answer.simps append_Cons append_Nil)
  have "Access (snd (auth_RefreshToken wit_lib (memory_service wit_signer) ?F ''r1'' (us, ts))) = Access (Inl (usvc UErrTokenInvalid))"
    using concurrent_refresh_spent[OF wit_run2[unfolded st] _ _ _ run, of 1 ?E "''u''"
        "Access (snd (auth_RefreshToken wit_lib (memory_service wit_signer) ?F ''r1'' (us, ts)))"]
    by (simp add: wit_env_def)
  then show ?thesis using st by simp
qed

lemma concurrent_logout_all_witness:
  "\<exists>r. stored_tokens (snd (auth_exec wit_lib (memory_service wit_signer) (OpLogoutAll None ''u'') (fst wit_st1, snd wit_st1))) ''r1'' = Some r \<and>
     rt_Revoked r"
proof -
  let ?op = "OpLogoutAll None ''u''"
  have "snd (auth_LogoutAll (memory_service wit_signer) None ''u'' (fst wit_st1, snd wit_st1)) = Inr ()"
    by (simp add: auth_LogoutAll_def token_RevokeAllByUser_def split: option.split prod.split sum.split)
  moreover have "op_fresh (stored_tokens (snd wit_st1)) ?op" by simp
  ultimately have run: "auth_calls_run wit_lib wit_signer ((fst wit_st1, snd wit_st1), [wit_accepted] @ [(?op, op_prog wit_lib wit_signer ?op)])
    (auth_exec wit_lib (memory_service wit_signer) ?op (fst wit_st1, snd wit_st1), [wit_accepted] @ [(?op, Ret (Done (Inr ())))])"
    using run_started[of "snd wit_st1" ?op wit_lib wit_signer "fst wit_st1" "[wit_accepted]"] by simp
  show ?thesis
    by (rule concurrent_logout_all[OF wit_run1 run, of _ "wit_token ''r1''"]) (simp_all add: wit_st1 wit_token_def)
qed

lemma wit_usable: "rt_IsValid 5 (wit_token ''r1'')"
  by (simp add: rt_IsValid_def IsExpired_def wit_token_def second_def)

lemma wit_signs: "\<exists>t. l_sign wit_lib c = Inr t"
  by (simp add: wit_lib_def)

theorem refresh_race_witness:
  "\<exists>us' ts' a b r s. auth_calls_run wit_lib wit_signer ((fst wit_st1, snd wit_st1), [])
      ((us', ts'), [(OpRefresh (wit_env ''x'' ''r2'') ''r1'', Ret (Access (Inr a))), (OpRefresh (wit_env ''x'' ''r3'') ''r1'', Ret (Access (Inr b)))]) \<and>
    stored_tokens ts' ''r2'' = Some r \<and> rt_UserID r = ''u'' \<and> \<not> rt_Revoked r \<and>
    stored_tokens ts' ''r3'' = Some s \<and> rt_UserID s = ''u'' \<and> \<not> rt_Revoked s"
proof -
  let ?E = "wit_env ''x'' ''r2''" and ?F = "wit_env ''x'' ''r3''" and ?sched = "[0, 1, 0, 1, 0, 0, 1, 1] :: nat list"
  have facts: "stores_ok (fst wit_st1, snd wit_st1)" "stored_tokens (snd wit_st1) ''r1'' = Some (wit_token ''r1'')"
    "rt_IsValid (e_now ?E) (wit_token ''r1'')" "rt_IsValid (e_now ?F) (wit_token ''r1'')"
    "stored_users (fst wit_st1) (rt_UserID (wit_token ''r1'')) = Some wit_user" "us_IsActive wit_user"
    "e_cx ?E = background" "e_cx ?F = background"
    using wit_ok wit_usable by (simp_all add: wit_st1 wit_env_def wit_token_def wit_user_def)
  have fresh: "stored_tokens (snd wit_st1) (fi_token (e_ids ?E)) = None" "stored_tokens (snd wit_st1) (fi_token (e_ids ?F)) = None"
    "fi_token (e_ids ?E) \<noteq> fi_token (e_ids ?F)" by (simp_all add: wit_st1 wit_env_def)
  obtain ts' r1 r2 where run: "pool_schedule (prog_next memory_users memory_tokens) (prog_guard stored_tokens) ?sched
      ((fst wit_st1, snd wit_st1), [(OpRefresh ?E ''r1'', op_prog wit_lib wit_signer (OpRefresh ?E ''r1'')),
        (OpRefresh ?F ''r1'', op_prog wit_lib wit_signer (OpRefresh ?F ''r1''))]) =
    Some ((fst wit_st1, ts'), [(OpRefresh ?E ''r1'', Ret r1), (OpRefresh ?F ''r1'', Ret r2)])"
    using overlapping_refreshes[OF facts wit_signs fresh, of wit_signer] by blast
  have early: "steps_before 1 0 ?sched < 3" "steps_before 0 1 ?sched < 3" by (simp_all add: steps_before_def)
  have ids: "fi_token (e_ids ?E) = ''r2''" "fi_token (e_ids ?F) = ''r3''" "rt_UserID (wit_token ''r1'') = ''u''"
    by (simp_all add: wit_env_def wit_token_def)
  note all = refresh_race[OF facts wit_signs fresh run, unfolded if_P[OF early(1)] if_P[OF early(2)] ids]
  have "auth_calls_run wit_lib wit_signer ((fst wit_st1, snd wit_st1), []) ((fst wit_st1, ts'), [(OpRefresh ?E ''r1'', Ret r1), (OpRefresh ?F ''r1'', Ret r2)])"
    by (rule rtranclp_trans[OF pool_spawn_two pool_schedule_steps[OF run]])
  then show ?thesis using all by blast
qed

theorem logout_all_race_witness:
  "\<exists>us' ts' a r. auth_calls_run wit_lib wit_signer ((fst wit_st1, snd wit_st1), [])
      ((us', ts'), [(OpRefresh (wit_env ''x'' ''r2'') ''r1'', Ret (Access (Inr a))),
        (OpLogoutAll None ''u'', Ret (Done (Inr ())))]) \<and>
    stored_tokens ts' ''r2'' = Some r \<and> rt_UserID r = ''u'' \<and> \<not> rt_Revoked r \<and> stored_tokens ts' ''r1'' = Some (revoked (wit_token ''r1''))"
proof -
  let ?E = "wit_env ''x'' ''r2''" and ?sched = "[0, 0, 0, 1, 0] :: nat list"
  have facts: "stores_ok (fst wit_st1, snd wit_st1)" "stored_tokens (snd wit_st1) ''r1'' = Some (wit_token ''r1'')"
    "rt_IsValid (e_now ?E) (wit_token ''r1'')" "stored_users (fst wit_st1) (rt_UserID (wit_token ''r1'')) = Some wit_user" "us_IsActive wit_user"
    "e_cx ?E = background"
    using wit_ok wit_usable by (simp_all add: wit_st1 wit_env_def wit_token_def wit_user_def)
  have fresh: "stored_tokens (snd wit_st1) (fi_token (e_ids ?E)) = None" by (simp add: wit_st1 wit_env_def)
  obtain ts' r1 r2 where run: "pool_schedule (prog_next memory_users memory_tokens) (prog_guard stored_tokens) ?sched
      ((fst wit_st1, snd wit_st1), [(OpRefresh ?E ''r1'', op_prog wit_lib wit_signer (OpRefresh ?E ''r1'')),
        (OpLogoutAll None (rt_UserID (wit_token ''r1'')), op_prog wit_lib wit_signer (OpLogoutAll None (rt_UserID (wit_token ''r1''))))]) =
    Some ((fst wit_st1, ts'), [(OpRefresh ?E ''r1'', Ret r1), (OpLogoutAll None (rt_UserID (wit_token ''r1'')), Ret r2)])"
    using overlapping_logout[OF facts wit_signs fresh, of wit_signer] by blast
  have between: "steps_before 0 1 ?sched = 3" by (simp add: steps_before_def)
  have ids: "fi_token (e_ids ?E) = ''r2''" "rt_UserID (wit_token ''r1'') = ''u''" by (simp_all add: wit_env_def wit_token_def)
  note all = logout_all_race[OF facts wit_signs fresh run, unfolded between]
  have old: "stored_tokens ts' ''r1'' = Some (revoked (wit_token ''r1''))" using all facts(2) by blast
  obtain a r where new: "r1 = Access (Inr a)" "stored_tokens ts' ''r2'' = Some r" "rt_UserID r = ''u''" "\<not> rt_Revoked r"
    using all unfolding ids by auto
  have "r2 = Done (Inr ())" using all by blast
  moreover have "auth_calls_run wit_lib wit_signer ((fst wit_st1, snd wit_st1), [])
      ((fst wit_st1, ts'), [(OpRefresh ?E ''r1'', Ret r1), (OpLogoutAll None ''u'', Ret r2)])"
    using rtranclp_trans[OF pool_spawn_two pool_schedule_steps[OF run]] unfolding ids .
  ultimately show ?thesis using new old by blast
qed

end
