(* ===== verification/Auth_Roles.thy ===== *)
theory Auth_Roles
  imports Auth_Races
begin

text \<open>
  Who writes users, and what, when calls of the user service run at the same time: every step of
  every interleaving is accounted for by the call that takes it.
\<close>

section \<open>The writes of a program\<close>

text \<open>Every user that a program creates satisfies \<open>C\<close> and every one it updates \<open>W\<close>, whatever its steps
  answer, except that a user read by an identifier has that identifier.\<close>

primrec writes_within :: "(user \<Rightarrow> bool) \<Rightarrow> (user \<Rightarrow> bool) \<Rightarrow> 'a auth_prog \<Rightarrow> bool" where
  "writes_within C W (Ret x) = True"
| "writes_within C W (DoCreate p now u k) = (C u \<and> (\<forall>r. writes_within C W (k r)))"
| "writes_within C W (DoGetByID p i k) = (\<forall>r. (\<forall>u. r = Inr u \<longrightarrow> us_UserID u = i) \<longrightarrow> writes_within C W (k r))"
| "writes_within C W (DoGetByEmail p e k) = (\<forall>r. writes_within C W (k r))"
| "writes_within C W (DoUpdate p now u k) = (W u \<and> (\<forall>r. writes_within C W (k r)))"
| "writes_within C W (DoStore p t k) = (\<forall>r. writes_within C W (k r))"
| "writes_within C W (DoGet p now tok k) = (\<forall>r. writes_within C W (k r))"
| "writes_within C W (DoRevoke p tok k) = (\<forall>r. writes_within C W (k r))"
| "writes_within C W (DoRevokeAll p i k) = (\<forall>r. writes_within C W (k r))"

lemma writes_within_map [simp]: "writes_within C W (map_auth_prog f p) = writes_within C W p"
  by (induction p) auto

fun may_create :: "auth_op \<Rightarrow> user \<Rightarrow> bool" where
  "may_create (OpRegister E req) u \<longleftrightarrow> us_Role u = USER_ROLE_USER \<and> us_Email u = rr_Email req"
| "may_create _ u \<longleftrightarrow> False"

fun may_update :: "auth_op \<Rightarrow> user \<Rightarrow> bool" where
  "may_update (OpUpdateRole cx t1 t2 uid new actor) u \<longleftrightarrow> actor = USER_ROLE_ADMIN \<and> us_UserID u = uid \<and> us_Role u = new"
| "may_update _ u \<longleftrightarrow> False"

abbreviation op_writes :: "auth_op \<Rightarrow> 'a auth_prog \<Rightarrow> bool" where
  "op_writes op \<equiv> writes_within (may_create op) (may_update op)"

lemma op_prog_writes: "op_writes op (op_prog L sg op)"
  by (cases op) (auto simp: prog_defs split: sum.split)

lemma writes_within_next:
  "writes_within C W p \<Longrightarrow> (\<And>q i u. user_GetByID q i (fst st) = Inr u \<Longrightarrow> us_UserID u = i) \<Longrightarrow>
   prog_next memory_users memory_tokens p st = Some (st', p') \<Longrightarrow> writes_within C W p'"
  by (cases p; cases st) auto

lemma user_GetByID_own: "user_store_ok us \<Longrightarrow> user_GetByID q i us = Inr u \<Longrightarrow> us_UserID u = i"
  by (cases q) (auto simp: user_GetByID_def user_store_ok_def split: option.splits)

lemma calls_write:
  assumes "auth_calls_run L sg (NewStores, []) (st, ps)"
  shows "\<forall>i < length ps. op_writes (fst (ps ! i)) (snd (ps ! i))"
  using assms
proof (induction "(st, ps)" arbitrary: st ps rule: rtranclp_induct)
  case base
  then show ?case by simp
next
  case (step y)
  obtain st0 ps0 where y: "y = (st0, ps0)" by fastforce
  have old: "\<forall>i < length ps0. op_writes (fst (ps0 ! i)) (snd (ps0 ! i))" using step.hyps(3) y by simp
  have own: "user_GetByID q i (fst st0) = Inr u \<Longrightarrow> us_UserID u = i" for q i u
    using stores_ok_reached[OF step.hyps(1)[unfolded y] NewStores_ok] user_GetByID_own stores_ok_parts(1) by blast
  from step.hyps(2)[unfolded y] show ?case
  proof (cases rule: pool_step_cases)
    case (spawn op)
    then show ?thesis using old op_prog_writes by (auto simp: nth_append less_Suc_eq)
  next
    case (advance i op p p')
    have "op_writes op p" using old advance by fastforce
    then have "op_writes op p'" by (rule writes_within_next[OF _ _ advance(3)]) (rule own)
    then show ?thesis using old advance by (auto simp: nth_list_update)
  qed
qed

section \<open>Role changes under concurrency\<close>

lemma user_Create_users:
  "stored_users (fst (user_Create p now u us)) i = Some v \<Longrightarrow>
   stored_users us i = Some v \<or> i = us_UserID u \<and> stored_users us i = None \<and> us_Role v = us_Role u \<and> us_Email v = us_Email u"
  by (cases p) (auto simp: user_Create_def Let_def split: if_splits)

lemma user_Update_users:
  "stored_users (fst (user_Update p now u us)) i = Some v \<Longrightarrow>
   stored_users us i = Some v \<or> i = us_UserID u \<and> stored_users us i \<noteq> None \<and> us_Role v = us_Role u"
  by (cases p) (auto simp: user_Update_def Let_def split: if_splits)

text \<open>What one step of a program does to the users.\<close>

lemma prog_next_users:
  assumes "op_writes op p" and "prog_next memory_users memory_tokens p (us, ts) = Some ((us', ts'), p')"
    and "stored_users us' i = Some v"
  shows "stored_users us i = Some v \<or>
    (stored_users us i = None \<and> us_Role v = USER_ROLE_USER \<and> (\<exists>E req. op = OpRegister E req \<and> us_Email v = rr_Email req)) \<or>
    (stored_users us i \<noteq> None \<and> (\<exists>cx t1 t2. op = OpUpdateRole cx t1 t2 i (us_Role v) USER_ROLE_ADMIN))"
proof (cases p)
  case (DoCreate q now u k)
  then have "stored_users (fst (user_Create q now u us)) i = Some v" and c: "may_create op u" using assms by auto
  then show ?thesis using user_Create_users[of q now u us i v] c by (cases op) auto
next
  case (DoUpdate q now u k)
  then have "stored_users (fst (user_Update q now u us)) i = Some v" and w: "may_update op u" using assms by auto
  then show ?thesis using user_Update_users[of q now u us i v] w by (cases op) auto
qed (use assms in auto)

text \<open>C10: whatever calls run at the same time, no step deletes a user or changes an identifier, address,
  name, password hash or activity; a user that appears belongs to a running registration of its
  address, with the USER role; and a role changes only in a step of a running \<open>UpdateRole\<close> for that
  user, to that role, whose actor is an admin.\<close>

theorem concurrent_role_change:
  assumes "auth_calls_run L sg (NewStores, []) ((us, ts), ps)"
    and "pool_step (prog_next memory_users memory_tokens) (prog_guard stored_tokens) (op_prog L sg) ((us, ts), ps) ((us', ts'), ps')"
  shows "(\<forall>i u. stored_users us i = Some u \<longrightarrow> (\<exists>v. stored_users us' i = Some v \<and> same_account u v)) \<and>
    (\<forall>i u v. stored_users us i = Some u \<longrightarrow> stored_users us' i = Some v \<longrightarrow> us_Role v \<noteq> us_Role u \<longrightarrow>
      (\<exists>k<length ps. \<exists>cx t1 t2. fst (ps ! k) = OpUpdateRole cx t1 t2 i (us_Role v) USER_ROLE_ADMIN)) \<and>
    (\<forall>i v. stored_users us i = None \<longrightarrow> stored_users us' i = Some v \<longrightarrow> us_Role v = USER_ROLE_USER \<and>
      (\<exists>k<length ps. \<exists>E req. fst (ps ! k) = OpRegister E req \<and> us_Email v = rr_Email req))"
proof -
  have "keeps_users (stored_users us) (stored_users us')"
    using memory_calls.calls_step[OF assms(1) NewStores_ok[folded stores_inv_ok] assms(2)]
    by (simp add: memory_auth.auth_ext_def)
  note kept = this
  have origin: "stored_users us i = Some v \<or>
      (\<exists>k<length ps. (stored_users us i = None \<and> us_Role v = USER_ROLE_USER \<and>
        (\<exists>E req. fst (ps ! k) = OpRegister E req \<and> us_Email v = rr_Email req)) \<or>
       (stored_users us i \<noteq> None \<and> (\<exists>cx t1 t2. fst (ps ! k) = OpUpdateRole cx t1 t2 i (us_Role v) USER_ROLE_ADMIN)))"
    if v: "stored_users us' i = Some v" for i v
    using assms(2)
  proof (cases rule: pool_step_cases)
    case (spawn op)
    then show ?thesis using v by simp
  next
    case (advance k op p p')
    have "op_writes op p" using calls_write[OF assms(1)] advance by fastforce
    from prog_next_users[OF this advance(3) v] show ?thesis using advance(1,2) by fastforce
  qed
  show ?thesis
  proof (intro conjI allI impI)
    show "\<exists>v. stored_users us' i = Some v \<and> same_account u v" if "stored_users us i = Some u" for i u
      using kept that unfolding keeps_users_def by blast
    show "\<exists>k<length ps. \<exists>cx t1 t2. fst (ps ! k) = OpUpdateRole cx t1 t2 i (us_Role v) USER_ROLE_ADMIN"
      if "stored_users us i = Some u" "stored_users us' i = Some v" "us_Role v \<noteq> us_Role u" for i u v
      using origin[OF that(2)] that(1,3) by auto
    show "us_Role v = USER_ROLE_USER" "\<exists>k<length ps. \<exists>E req. fst (ps ! k) = OpRegister E req \<and> us_Email v = rr_Email req"
      if "stored_users us i = None" "stored_users us' i = Some v" for i v
      using origin[OF that(2)] that(1) by auto
  qed
qed

text \<open>A registered user is made a premium user by an admin's call.\<close>

theorem concurrent_role_change_witness:
  "\<exists>ps us' ps'. auth_calls_run wit_lib wit_signer (NewStores, []) ((fst wit_st1, snd wit_st1), ps) \<and>
    pool_step (prog_next memory_users memory_tokens) (prog_guard stored_tokens) (op_prog wit_lib wit_signer)
      ((fst wit_st1, snd wit_st1), ps) ((us', snd wit_st1), ps') \<and>
    stored_users us' ''u'' = Some (wit_user\<lparr>us_Role := USER_ROLE_PREMIUM, us_UpdatedAt := 7\<rparr>) \<and>
    (\<exists>k<length ps. \<exists>cx t1 t2. fst (ps ! k) = OpUpdateRole cx t1 t2 ''u'' USER_ROLE_PREMIUM USER_ROLE_ADMIN)"
proof -
  obtain us ts where st: "wit_st1 = (us, ts)" by fastforce
  have w: "stored_users us = [''u'' \<mapsto> wit_user]" using wit_st1(1) unfolding st fst_conv .
  let ?op = "OpUpdateRole background 6 7 ''u'' USER_ROLE_PREMIUM USER_ROLE_ADMIN"
  let ?new = "wit_user\<lparr>us_Role := USER_ROLE_PREMIUM, us_UpdatedAt := 6\<rparr>"
  let ?us' = "fst (user_Update None 7 ?new (us))"
  have u: "user_GetByID None ''u'' (us) = Inr wit_user" by (simp add: user_GetByID_def w)
  have new: "stored_users ?us' ''u'' = Some (wit_user\<lparr>us_Role := USER_ROLE_PREMIUM, us_UpdatedAt := 7\<rparr>)"
    by (simp add: user_Update_def w wit_user_def Let_def)
  obtain q where read: "pool_advance (prog_next memory_users memory_tokens) (prog_guard stored_tokens) 1
      ((us, ts), [wit_accepted] @ [(?op, op_prog wit_lib wit_signer ?op)]) =
    Some ((us, ts), [wit_accepted, (?op, DoUpdate None 7 ?new q)])"
    by (simp add: pool_advance_def prog_UpdateRole_def u)
  have run0: "auth_calls_run wit_lib wit_signer (NewStores, []) ((us, ts), [wit_accepted] @ [(?op, op_prog wit_lib wit_signer ?op)])"
    using run_spawn[OF wit_run1, of ?op] unfolding st fst_conv snd_conv .
  have run: "auth_calls_run wit_lib wit_signer (NewStores, [])
      ((us, ts), [wit_accepted, (?op, DoUpdate None 7 ?new q)])"
    by (rule rtranclp.rtrancl_into_rtrancl[OF run0]) (rule pool_advance_step[OF read])
  have "pool_advance (prog_next memory_users memory_tokens) (prog_guard stored_tokens) 1
      ((us, ts), [wit_accepted, (?op, DoUpdate None 7 ?new q)]) =
    Some ((?us', ts), [wit_accepted, (?op, q (snd (user_Update None 7 ?new (us))))])"
    by (simp add: pool_advance_def)
  note step = pool_advance_step[OF this, of "op_prog wit_lib wit_signer"]
  have old: "stored_users (us) ''u'' = Some wit_user" "us_Role wit_user = USER_ROLE_USER"
    by (simp_all add: w wit_user_def)
  then show ?thesis unfolding st fst_conv snd_conv using concurrent_role_change[OF run step] run step new by fastforce
qed

end
