(* ===== verification/User_System.thy ===== *)
theory User_System
  imports User_Handler Auth_Programs
begin

text \<open>
  The user service as its clients see it: requests that pass the authentication interceptor
  (\<open>user-service/internal/middleware/auth.go\<close>) and the handler
  (\<open>user-service/internal/handler/grpc.go\<close>) and reach the service over its in-memory stores, any
  number of them at the same time, and the access tokens that the answers give away.
\<close>

datatype user_request =
  AskRegister auth_env register_request
| AskLogin auth_env string string
| AskRefresh auth_env string
| AskLogout poll string
| AskGetUser poll string
| AskUpdateRole ctx time time string user_role

fun full_method :: "user_request \<Rightarrow> string" where
  "full_method (AskRegister E req) = ''/user.v1.UserService/Register''"
| "full_method (AskLogin E email pw) = ''/user.v1.UserService/Login''"
| "full_method (AskRefresh E body) = ''/user.v1.UserService/RefreshToken''"
| "full_method (AskLogout p body) = ''/user.v1.UserService/Logout''"
| "full_method (AskGetUser p uid) = ''/user.v1.UserService/GetUser''"
| "full_method (AskUpdateRole cx t1 t2 uid role) = ''/user.v1.UserService/UpdateRole''"

text \<open>The handler of a request: the stores it leaves and the access tokens of its answer.\<close>

fun user_handler ::
  "'ts auth_lib \<Rightarrow> signer \<Rightarrow> cookie_config \<Rightarrow> metadata \<Rightarrow> user_request \<Rightarrow> (user_store \<times> token_store, string list) grpc_handler"
where
  "user_handler L sg cfg md (AskRegister E req) cx st =
     apsnd (map_sum id (\<lambda>a. [ar_AccessToken a])) (uh_Register L (memory_service sg) E req st)"
| "user_handler L sg cfg md (AskLogin E email pw) cx st =
     apsnd (map_sum id (\<lambda>a. [ar_AccessToken a])) (uh_Login L (memory_service sg) E email pw st)"
| "user_handler L sg cfg md (AskRefresh E body) cx st =
     apsnd (map_sum id (\<lambda>t. [t])) (uh_RefreshToken L (memory_service sg) cfg md E body st)"
| "user_handler L sg cfg md (AskLogout p body) cx st =
     apsnd (map_sum id (\<lambda>_. [])) (uh_Logout (memory_service sg) cfg md p body st)"
| "user_handler L sg cfg md (AskGetUser p uid) cx st =
     (st, map_sum id (\<lambda>_. []) (uh_GetUser L (memory_service sg) p uid st))"
| "user_handler L sg cfg md (AskUpdateRole cx' t1 t2 uid role) cx st =
     apsnd (map_sum id (\<lambda>_. [])) (uh_UpdateRole L (memory_service sg) cx' t1 t2 uid role cx st)"

definition user_serve ::
  "'ts auth_lib \<Rightarrow> signer \<Rightarrow> cookie_config \<Rightarrow> 'k jwt_parser \<Rightarrow> 'k jwt_validator \<Rightarrow> metadata \<Rightarrow> user_request \<Rightarrow>
   user_store \<times> token_store \<Rightarrow> (user_store \<times> token_store) \<times> string list result"
where
  "user_serve L sg cfg parse v md req st =
     user_interceptor parse v publicEndpoints (full_method req) md (user_handler L sg cfg md req) None st"

section \<open>Tokens are not forged\<close>

definition bearer :: "metadata \<Rightarrow> string \<Rightarrow> bool" where
  "bearer md t \<longleftrightarrow> (\<exists>get rest. md = Some get \<and> get ''authorization'' = (''Bearer '' @ t) # rest)"

text \<open>What signatures give: a bearer token that the validator accepts is one that the service has
  issued, and the role claim it reads is the one that was signed.\<close>

definition unforged :: "'ts auth_lib \<Rightarrow> 'k jwt_parser \<Rightarrow> 'k jwt_validator \<Rightarrow> metadata \<Rightarrow> string set \<Rightarrow> bool" where
  "unforged L parse v md issued \<longleftrightarrow> (\<forall>t c. bearer md t \<longrightarrow> ValidateAndExtract parse v t = Inr c \<longrightarrow>
     t \<in> issued \<and> (\<forall>c'. l_sign L c' = Inr t \<longrightarrow> cl_Role c = jc_Role c'))"

section \<open>Requests at the same time\<close>

definition prog_GetUser :: "'ts auth_lib \<Rightarrow> poll \<Rightarrow> string \<Rightarrow> 'ts user_pb result auth_prog" where
  "prog_GetUser L p uid = DoGetByID p uid (\<lambda>r. case r of
     Inl e \<Rightarrow> Ret (Inl (if errors_is e (UserRepo RErrUserNotFound) then usvc UErrUserNotFound
                        else Wrapf ''database error'' e))
   | Inr user \<Rightarrow> Ret (Inr (user_ToProto (l_newts L) user)))"

text \<open>A program whose answer the handler hands on.\<close>

abbreviation handed :: "('a \<Rightarrow> string list) \<Rightarrow> 'a result auth_prog \<Rightarrow> string list result auth_prog" where
  "handed f \<equiv> map_auth_prog (\<lambda>r. map_sum id f (grpc_result r))"

fun handler_prog ::
  "'ts auth_lib \<Rightarrow> signer \<Rightarrow> cookie_config \<Rightarrow> metadata \<Rightarrow> user_request \<Rightarrow> claims option \<Rightarrow> string list result auth_prog"
where
  "handler_prog L sg cfg md (AskRegister E req) cx = handed (\<lambda>a. [ar_AccessToken a]) (prog_Register L sg E req)"
| "handler_prog L sg cfg md (AskLogin E email pw) cx = handed (\<lambda>a. [ar_AccessToken a]) (prog_Login L sg E email pw)"
| "handler_prog L sg cfg md (AskRefresh E body) cx =
     (let refreshToken = getRefreshToken cfg md body
      in if refreshToken = '''' then Ret (Inl (unauthenticated ''refresh token required''))
      else handed (\<lambda>t. [t]) (prog_RefreshToken L sg E refreshToken))"
| "handler_prog L sg cfg md (AskLogout p body) cx =
     (let refreshToken = getRefreshToken cfg md body
      in if refreshToken = '''' then Ret (Inl (unauthenticated ''refresh token required''))
      else handed (\<lambda>_. []) (prog_Logout p refreshToken))"
| "handler_prog L sg cfg md (AskGetUser p uid) cx = handed (\<lambda>_. []) (prog_GetUser L p uid)"
| "handler_prog L sg cfg md (AskUpdateRole cx' t1 t2 uid role) cx =
     (case cx of
        None \<Rightarrow> Ret (Inl (unauthenticated ''user not authenticated''))
      | Some c \<Rightarrow>
          let actorRole = stringToUserRole (cl_Role c)
          in if actorRole \<noteq> USER_ROLE_ADMIN then Ret (Inl (StatusErr CodePermissionDenied ''admin role required''))
          else handed (\<lambda>_. []) (prog_UpdateRole L cx' t1 t2 uid role actorRole))"

text \<open>The interceptor decides whether there is a call at all, and with which claims.\<close>

definition user_prog ::
  "'ts auth_lib \<Rightarrow> signer \<Rightarrow> cookie_config \<Rightarrow> 'k jwt_parser \<Rightarrow> 'k jwt_validator \<Rightarrow> metadata \<Rightarrow> user_request \<Rightarrow> string list result auth_prog"
where
  "user_prog L sg cfg parse v md req =
     (case user_interceptor parse v publicEndpoints (full_method req) md
             (\<lambda>cx _. (Some (handler_prog L sg cfg md req cx), Inr [])) None None of
        (Some p, _) \<Rightarrow> p
      | (None, r) \<Rightarrow> Ret r)"

lemma prog_GetUser_alone: "prog_run (as_userRepo A) (as_tokenRepo A) (prog_GetUser L p uid) st = (st, auth_GetUser L A p uid st)"
  by (simp add: prog_GetUser_def auth_GetUser_def split: sum.split)

text \<open>A request that nothing interrupts is served as by handler and interceptor.\<close>

lemma handler_prog_alone:
  "prog_run memory_users memory_tokens (handler_prog L sg cfg md req cx) st = user_handler L sg cfg md req cx st"
proof -
  note alone = progs_alone[of "memory_service sg", simplified] prog_GetUser_alone[of "memory_service sg", simplified]
  note uh = uh_Register_def uh_Login_def uh_RefreshToken_def uh_Logout_def uh_GetUser_def uh_UpdateRole_def
  show ?thesis
    by (cases req) (auto simp: prog_run_map alone uh Let_def apsnd_def map_prod_def split: prod.split option.split)
qed

lemma user_prog_alone:
  "prog_run memory_users memory_tokens (user_prog L sg cfg parse v md req) st = user_serve L sg cfg parse v md req st"
  by (simp add: user_prog_def user_serve_def user_interceptor_def handler_prog_alone Let_def
      split: option.split list.split sum.split)

section \<open>Everybody is a plain user\<close>

definition signed_for :: "'ts auth_lib \<Rightarrow> string \<Rightarrow> string \<Rightarrow> bool" where
  "signed_for L role t \<longleftrightarrow> (\<exists>c. l_sign L c = Inr t \<and> jc_Role c = role)"

text \<open>A program that writes plain users only, and whose answer satisfies \<open>Q\<close>, as long as the users it
  reads are plain.\<close>

abbreviation plain_user :: "user result \<Rightarrow> bool" where
  "plain_user r \<equiv> \<forall>u. r = Inr u \<longrightarrow> us_Role u = USER_ROLE_USER"

primrec plain :: "('a \<Rightarrow> bool) \<Rightarrow> 'a auth_prog \<Rightarrow> bool" where
  "plain Q (Ret x) = Q x"
| "plain Q (DoCreate p now u k) = (us_Role u = USER_ROLE_USER \<and> (\<forall>r. plain_user r \<longrightarrow> plain Q (k r)))"
| "plain Q (DoGetByID p i k) = (\<forall>r. plain_user r \<longrightarrow> plain Q (k r))"
| "plain Q (DoGetByEmail p e k) = (\<forall>r. plain_user r \<longrightarrow> plain Q (k r))"
| "plain Q (DoUpdate p now u k) = (us_Role u = USER_ROLE_USER \<and> (\<forall>r. plain_user r \<longrightarrow> plain Q (k r)))"
| "plain Q (DoStore p t k) = (\<forall>r. plain Q (k r))"
| "plain Q (DoGet p now tok k) = (\<forall>r. plain Q (k r))"
| "plain Q (DoRevoke p tok k) = (\<forall>r. plain Q (k r))"
| "plain Q (DoRevokeAll p i k) = (\<forall>r. plain Q (k r))"

lemma plain_map [simp]: "plain Q (map_auth_prog f p) = plain (\<lambda>x. Q (f x)) p"
  by (induction p) auto

lemma GenerateTokens_signed:
  assumes "GenerateTokens (l_sign L) itoa sg now f uid em USER_ROLE_USER = Inr tp"
  shows "signed_for L ''USER_ROLE_USER'' (tp_AccessToken tp)"
proof -
  have "user_role_String itoa USER_ROLE_USER = ''USER_ROLE_USER''" by simp
  then show ?thesis using assms by (auto simp: GenerateTokens_def Let_def signed_for_def split: sum.splits)
qed

text \<open>Answers that carry tokens signed for a plain user only.\<close>

definition plain_answer :: "'ts auth_lib \<Rightarrow> string list result \<Rightarrow> bool" where
  "plain_answer L r \<longleftrightarrow> (\<forall>toks. r = Inr toks \<longrightarrow> (\<forall>t \<in> set toks. signed_for L ''USER_ROLE_USER'' t))"

lemma plain_answer_simps [simp]:
  "plain_answer L (Inl e)" "plain_answer L (map_sum id f (grpc_result (Inl e)))"
  "plain_answer L (map_sum id f (grpc_result (Inr x))) \<longleftrightarrow> (\<forall>t \<in> set (f x). signed_for L ''USER_ROLE_USER'' t)"
  by (simp_all add: plain_answer_def grpc_result_def)

lemma plain_answer_none: "(\<And>x. f x = []) \<Longrightarrow> plain_answer L (map_sum id f (grpc_result r))"
  by (cases r) simp_all

lemma methods_plain:
  "plain (plain_answer L) (handed (\<lambda>a. [ar_AccessToken a]) (prog_Register L sg E req))"
  "plain (plain_answer L) (handed (\<lambda>a. [ar_AccessToken a]) (prog_Login L sg E email pw))"
  "plain (plain_answer L) (handed (\<lambda>t. [t]) (prog_RefreshToken L sg E tok))"
  "plain (plain_answer L) (handed (\<lambda>_. []) (prog_Logout p tok))"
  "plain (plain_answer L) (handed (\<lambda>_. []) (prog_GetUser L p uid))"
  by (auto simp: prog_Register_def prog_Login_def prog_RefreshToken_def prog_Logout_def prog_GetUser_def plain_answer_none
      dest: GenerateTokens_signed split: sum.split)

text \<open>A handler writes plain users only, whatever it is asked, when the claims in its context are those
  of a plain user.\<close>

lemma handler_prog_plain:
  "(\<And>c. cx = Some c \<Longrightarrow> cl_Role c = ''USER_ROLE_USER'') \<Longrightarrow> plain (plain_answer L) (handler_prog L sg cfg md req cx)"
  by (cases req; cases cx) (auto simp: Let_def methods_plain[simplified] stringToUserRole_def)

lemma user_prog_cases:
  obtains (public) "IsPublicEndpoint publicEndpoints (full_method req)"
      and "user_prog L sg cfg parse v md req = handler_prog L sg cfg md req None"
  | (accepted) t c where "bearer md t" and "ValidateAndExtract parse v t = Inr c"
      and "user_prog L sg cfg parse v md req = handler_prog L sg cfg md req (Some c)"
  | (refused) e where "user_prog L sg cfg parse v md req = Ret (Inl e)"
proof -
  have "IsPublicEndpoint publicEndpoints (full_method req) \<and> user_prog L sg cfg parse v md req = handler_prog L sg cfg md req None \<or>
    (\<exists>t c. bearer md t \<and> ValidateAndExtract parse v t = Inr c \<and>
      user_prog L sg cfg parse v md req = handler_prog L sg cfg md req (Some c)) \<or>
    (\<exists>e. user_prog L sg cfg parse v md req = Ret (Inl e))"
    by (auto simp: user_prog_def user_interceptor_def bearer_def has_prefix_def trim_prefix_def prefix_def Let_def
        split: option.split list.split sum.split)
  then show ?thesis using public accepted refused by blast
qed

lemma user_prog_plain:
  assumes "\<forall>t \<in> issued. signed_for L ''USER_ROLE_USER'' t" and "unforged L parse v md issued"
  shows "plain (plain_answer L) (user_prog L sg cfg parse v md req)"
    and "req = AskUpdateRole cx t1 t2 uid role \<Longrightarrow> \<exists>e. user_prog L sg cfg parse v md req = Ret (Inl e)"
proof -
  have user: "cl_Role c = ''USER_ROLE_USER''" if "bearer md t" "ValidateAndExtract parse v t = Inr c" for t c
    using that assms unfolding unforged_def signed_for_def by metis
  show "plain (plain_answer L) (user_prog L sg cfg parse v md req)"
  proof (cases rule: user_prog_cases[of req L sg cfg parse v md])
    case public
    then show ?thesis using handler_prog_plain[of None L sg cfg md req] by simp
  next
    case (accepted t c)
    then show ?thesis using user handler_prog_plain[of "Some c" L sg cfg md req] by simp
  qed simp
  assume "req = AskUpdateRole cx t1 t2 uid role"
  then show "\<exists>e. user_prog L sg cfg parse v md req = Ret (Inl e)"
    by (cases rule: user_prog_cases[of req L sg cfg parse v md]) (auto simp: stringToUserRole_def user)
qed

section \<open>The system\<close>

text \<open>The tokens that finished requests have answered.\<close>

definition given_away :: "('t \<times> string list result auth_prog) list \<Rightarrow> string set" where
  "given_away ps = {t. \<exists>req toks. (req, Ret (Inr toks)) \<in> set ps \<and> t \<in> set toks}"

text \<open>A request arrives, or one that is being served takes its next step. The parser of the validator
  reads the clock, so every request has its own.\<close>

inductive serve_step ::
  "'ts auth_lib \<Rightarrow> signer \<Rightarrow> cookie_config \<Rightarrow> 'k jwt_validator \<Rightarrow>
   (user_store \<times> token_store) \<times> (user_request \<times> string list result auth_prog) list \<Rightarrow>
   (user_store \<times> token_store) \<times> (user_request \<times> string list result auth_prog) list \<Rightarrow> bool"
  for L sg cfg v where
  arrive: "unforged L parse v md (given_away ps) \<Longrightarrow>
    serve_step L sg cfg v (st, ps) (st, ps @ [(req, user_prog L sg cfg parse v md req)])"
| advance: "pool_advance (prog_next memory_users memory_tokens) (prog_guard stored_tokens) i c = Some c' \<Longrightarrow> serve_step L sg cfg v c c'"

lemma serve_schedule:
  "pool_schedule (prog_next memory_users memory_tokens) (prog_guard stored_tokens) is c = Some c' \<Longrightarrow> (serve_step L sg cfg v)\<^sup>*\<^sup>* c c'"
proof (induction "is" arbitrary: c)
  case (Cons i "is")
  then obtain c1 where one: "pool_advance (prog_next memory_users memory_tokens) (prog_guard stored_tokens) i c = Some c1"
    and rest: "pool_schedule (prog_next memory_users memory_tokens) (prog_guard stored_tokens) is c1 = Some c'" by (auto simp: bind_eq_Some_conv)
  show ?case by (rule converse_rtranclp_into_rtranclp[OF serve_step.advance[OF one] Cons.IH[OF rest]])
qed simp

abbreviation plain_users :: "user_store \<Rightarrow> bool" where
  "plain_users us \<equiv> \<forall>i u. stored_users us i = Some u \<longrightarrow> us_Role u = USER_ROLE_USER"

lemma plain_next:
  assumes "plain_users us" and "plain Q p" and "prog_next memory_users memory_tokens p (us, ts) = Some ((us', ts'), p')"
  shows "plain_users us' \<and> plain Q p'"
proof (cases p)
  case (DoCreate q now u k)
  have "plain_users (fst (user_Create q now u us))" "plain_user (snd (user_Create q now u us))"
    using assms(1,2) DoCreate by (auto simp: user_Create_def Let_def split: option.splits)
  then show ?thesis using assms DoCreate by auto
next
  case (DoGetByID q i k)
  have "plain_user (user_GetByID q i us)"
    using assms(1) by (cases q) (auto simp: user_GetByID_def split: option.splits)
  then show ?thesis using assms DoGetByID by auto
next
  case (DoGetByEmail q e k)
  have "plain_user (user_GetByEmail q e us)"
    using assms(1) by (cases q) (auto simp: user_GetByEmail_def split: option.splits)
  then show ?thesis using assms DoGetByEmail by auto
next
  case (DoUpdate q now u k)
  have "plain_users (fst (user_Update q now u us))" "plain_user (snd (user_Update q now u us))"
    using assms(1,2) DoUpdate by (auto simp: user_Update_def Let_def split: option.splits if_splits)
  then show ?thesis using assms DoUpdate by auto
qed (use assms in auto)

text \<open>Stored users are plain, and so are the programs of the requests: what they write and what they
  answer.\<close>

definition all_plain ::
  "'ts auth_lib \<Rightarrow> (user_store \<times> token_store) \<times> (user_request \<times> string list result auth_prog) list \<Rightarrow> bool"
where
  "all_plain L c \<longleftrightarrow> plain_users (fst (fst c)) \<and> (\<forall>(req, p) \<in> set (snd c). plain (plain_answer L) p \<and>
     (\<forall>cx t1 t2 uid role. req = AskUpdateRole cx t1 t2 uid role \<longrightarrow> (\<exists>e. p = Ret (Inl e))))"

lemma all_plain_given:
  assumes "all_plain L (st, ps)" and "t \<in> given_away ps"
  shows "signed_for L ''USER_ROLE_USER'' t"
  using assms unfolding all_plain_def given_away_def by (fastforce simp: plain_answer_def)

lemma serve_step_plain:
  assumes "serve_step L sg cfg v c c'" and "all_plain L c"
  shows "all_plain L c'"
  using assms(1)
proof cases
  case (arrive parse md ps st req)
  have issued: "\<forall>t \<in> given_away ps. signed_for L ''USER_ROLE_USER'' t" using all_plain_given assms(2) arrive(1) by blast
  show ?thesis
    using assms(2) arrive user_prog_plain[OF issued arrive(3), where sg = sg and cfg = cfg and req = req] by (fastforce simp: all_plain_def)
next
  case (advance i)
  obtain us ts ps where c: "c = ((us, ts), ps)" by (metis prod.collapse)
  obtain us' ts' p' where i: "i < length ps" and n: "prog_next memory_users memory_tokens (snd (ps ! i)) (us, ts) = Some ((us', ts'), p')"
    and c': "c' = ((us', ts'), ps[i := (fst (ps ! i), p')])"
    using advance by (auto simp: c pool_advance_def split: if_splits)
  obtain req p where p: "ps ! i = (req, p)" by fastforce
  have old: "(req, p) \<in> set ps" using i p by (metis nth_mem)
  have "plain (plain_answer L) p" "plain_users us" using assms(2) old by (auto simp: all_plain_def c)
  then have next_plain: "plain_users us' \<and> plain (plain_answer L) p'" using plain_next[of us _ p ts us' ts' p'] n p by simp
  have "\<nexists>e. p = Ret (Inl e)" using n p by auto
  then have "\<nexists>cx t1 t2 uid role. req = AskUpdateRole cx t1 t2 uid role" using assms(2) old by (auto simp: all_plain_def c)
  with next_plain show ?thesis
    using assms(2) p by (auto simp: all_plain_def c c' dest!: set_update_subset_insert[THEN subsetD])
qed

text \<open>C7: on a service started with empty stores, whatever requests it serves and however they
  interleave, as long as bearer tokens are not forged, every user has the role USER, and every
  \<open>UpdateRole\<close> request is refused before it reaches a repository: there is no first administrator, so
  no role ever changes.\<close>

theorem nobody_becomes_admin:
  assumes "(serve_step L sg cfg v)\<^sup>*\<^sup>* (NewStores, []) ((us, ts), ps)"
  shows "(\<forall>i u. stored_users us i = Some u \<longrightarrow> us_Role u = USER_ROLE_USER) \<and>
    (\<forall>k < length ps. \<forall>cx t1 t2 uid role. fst (ps ! k) = AskUpdateRole cx t1 t2 uid role \<longrightarrow> (\<exists>e. snd (ps ! k) = Ret (Inl e)))"
proof -
  have "all_plain L (NewStores, [])" by (simp add: all_plain_def NewStores_def NewUserRepository_def)
  with assms have "all_plain L ((us, ts), ps)" by (induction rule: rtranclp_induct) (auto dest: serve_step_plain)
  then show ?thesis by (fastforce simp: all_plain_def dest: nth_mem)
qed

text \<open>A registered user who asks to become an administrator with the token of the registration. In
  this signer a token is its role claim.\<close>

definition wit_roles :: "unit auth_lib" where
  "wit_roles = wit_lib\<lparr>l_sign := \<lambda>c. Inr (jc_Role c)\<rparr>"

definition wit_claims :: "string \<Rightarrow> claims" where
  "wit_claims role = \<lparr>cl_Issuer = '''', cl_Audience = [], cl_UserID = ''u'', cl_Email = '''', cl_Username = '''', cl_Role = role\<rparr>"

definition wit_parse :: "unit jwt_parser" where
  "wit_parse = (\<lambda>_ _ t. Inr (wit_claims t, True))"

definition wit_validator :: "unit jwt_validator" where
  "wit_validator = \<lparr>v_config = default_jv_config ''k'', v_publicKey = None, v_secretKey = ''k''\<rparr>"

definition wit_cookies :: cookie_config where
  "wit_cookies = \<lparr>cc_UseHttpOnlyCookies = False, cc_CookieName = ''refresh_token''\<rparr>"

abbreviation wit_register :: user_request where
  "wit_register \<equiv> AskRegister (wit_env ''u'' ''r1'') wit_req"

abbreviation wit_update :: user_request where
  "wit_update \<equiv> AskUpdateRole background 6 7 ''u'' USER_ROLE_ADMIN"

lemma wit_served:
  obtains us ts where
    "(serve_step wit_roles wit_signer wit_cookies wit_validator)\<^sup>*\<^sup>* (NewStores, []) ((us, ts), [(wit_register, Ret (Inr [''USER_ROLE_USER'']))])"
    and "stored_users us = [''u'' \<mapsto> wit_user]"
proof -
  have valid: "ValidateEmail ''a@b.c''" "ValidatePassword ''Passw0rd!''" by code_simp+
  let ?p = "user_prog wit_roles wit_signer wit_cookies wit_parse wit_validator None wit_register"
  have "\<exists>us ts. pool_schedule (prog_next memory_users memory_tokens) (prog_guard stored_tokens) [0, 0, 0] (NewStores, [(wit_register, ?p)]) =
      Some ((us, ts), [(wit_register, Ret (Inr [''USER_ROLE_USER'']))]) \<and> stored_users us = [''u'' \<mapsto> wit_user]"
    by (simp add: pool_advance_def user_prog_def user_interceptor_def IsPublicEndpoint_def publicEndpoints_def prog_Register_def
        wit_roles_def NewStores_def wit_lib_def wit_env_def wit_req_def valid wit_user_def user_GetByEmail_def NewUserRepository_def
        NewTokenRepository_def HashPassword_def user_Create_def new_user_def GenerateTokens_def Let_def grpc_result_def fun_eq_iff)
  then obtain us ts where run: "pool_schedule (prog_next memory_users memory_tokens) (prog_guard stored_tokens) [0, 0, 0]
      (NewStores, [(wit_register, ?p)]) = Some ((us, ts), [(wit_register, Ret (Inr [''USER_ROLE_USER'']))])"
    and users: "stored_users us = [''u'' \<mapsto> wit_user]" by blast
  have "unforged wit_roles wit_parse wit_validator None (given_away ([] :: (user_request \<times> string list result auth_prog) list))"
    by (simp add: unforged_def bearer_def)
  from serve_step.arrive[OF this, of wit_signer wit_cookies NewStores wit_register]
  have "serve_step wit_roles wit_signer wit_cookies wit_validator (NewStores, []) (NewStores, [(wit_register, ?p)])" by simp
  from that[OF converse_rtranclp_into_rtranclp[OF this serve_schedule[OF run]] users] show ?thesis .
qed

theorem nobody_becomes_admin_witness:
  "\<exists>us ts e. (serve_step wit_roles wit_signer wit_cookies wit_validator)\<^sup>*\<^sup>* (NewStores, [])
      ((us, ts), [(wit_register, Ret (Inr [''USER_ROLE_USER''])), (wit_update, Ret (Inl e))]) \<and>
    stored_users us = [''u'' \<mapsto> wit_user] \<and> us_Role wit_user = USER_ROLE_USER"
proof -
  obtain us ts where run: "(serve_step wit_roles wit_signer wit_cookies wit_validator)\<^sup>*\<^sup>* (NewStores, [])
      ((us, ts), [(wit_register, Ret (Inr [''USER_ROLE_USER'']))])" and users: "stored_users us = [''u'' \<mapsto> wit_user]"
    by (rule wit_served)
  let ?md = "Some (\<lambda>_. [''Bearer USER_ROLE_USER''])"
  have "given_away [(wit_register, Ret (Inr [''USER_ROLE_USER'']))] = {''USER_ROLE_USER''}" by (auto simp: given_away_def)
  then have "unforged wit_roles wit_parse wit_validator ?md (given_away [(wit_register, Ret (Inr [''USER_ROLE_USER'']))])"
    by (auto simp: unforged_def bearer_def wit_roles_def wit_lib_def ValidateAndExtract_def wit_parse_def wit_claims_def)
  from serve_step.arrive[OF this, of wit_signer wit_cookies "(us, ts)" wit_update]
  have "serve_step wit_roles wit_signer wit_cookies wit_validator ((us, ts), [(wit_register, Ret (Inr [''USER_ROLE_USER'']))])
      ((us, ts), [(wit_register, Ret (Inr [''USER_ROLE_USER''])),
       (wit_update, user_prog wit_roles wit_signer wit_cookies wit_parse wit_validator ?md wit_update)])"
    by (simp only: append_Cons append_Nil)
  with run have all: "(serve_step wit_roles wit_signer wit_cookies wit_validator)\<^sup>*\<^sup>* (NewStores, []) ((us, ts),
      [(wit_register, Ret (Inr [''USER_ROLE_USER''])),
       (wit_update, user_prog wit_roles wit_signer wit_cookies wit_parse wit_validator ?md wit_update)])"
    by (rule rtranclp.rtrancl_into_rtrancl)
  obtain e where "user_prog wit_roles wit_signer wit_cookies wit_parse wit_validator ?md wit_update = Ret (Inl e)"
    using nobody_becomes_admin[OF all, THEN conjunct2, rule_format, of 1] by fastforce
  moreover have "us_Role wit_user = USER_ROLE_USER" using nobody_becomes_admin[OF all, THEN conjunct1] users by simp
  ultimately show ?thesis using all users by auto
qed

end
