(* ===== verification/Order_Market.thy ===== *)
theory Order_Market
  imports Order_Props Spot_Programs
begin

text \<open>
  The order service and the spot service together: the market check of \<open>CreateOrder\<close>
  (\<open>order-service/internal/adapters/grpcclient/market_checker.go\<close>) calls \<open>GetMarket\<close> of a spot
  service that serves other calls at the same time, over the markets it is seeded with
  (\<open>spot-service/internal/adapters/inmemory/repository.go\<close>).
\<close>

text \<open>What the remote call brings: an error on the way, or the answer of the spot service's handler
  from a cache that calls have reached.\<close>

definition seeded_spot_answers ::
  "(string \<Rightarrow> 'd) \<Rightarrow> time \<Rightarrow> (time \<Rightarrow> 'ts) \<Rightarrow> ('d \<Rightarrow> string) \<Rightarrow> (string \<Rightarrow> bool) \<Rightarrow> ('d market \<Rightarrow> bytes option) \<Rightarrow>
   (bytes \<Rightarrow> 'd market option) \<Rightarrow> int \<Rightarrow> string \<Rightarrow> 'ts market_pb option result \<Rightarrow> bool"
where
  "seeded_spot_answers dc y newts str parses enc dec n i r \<longleftrightarrow> (\<exists>e. r = Inl e) \<or>
     (\<exists>cx t1 t2 c ps.
       spot_calls_run parses enc dec (\<lambda>p i. market_GetByID p i (seedData dc y)) lru_ops (NewLRUCache n, []) (c, ps) \<and>
       r = snd (handler_GetMarket newts str parses enc dec (\<lambda>p i. market_GetByID p i (seedData dc y)) (Some lru_ops) cx t1 t2 i c))"

lemma seeded_market_missing:
  assumes "uuid_lengths parses" and "parses i"
  shows "gm_get (seedData dc y) i = None"
proof (rule ccontr)
  assume "gm_get (seedData dc y) i \<noteq> None"
  then have "i \<in> gm_keys (seedData dc y)" by (simp add: gm_get_None)
  then have "length i \<notin> {32, 36, 38, 45}" by (auto simp: gm_keys_seedData)
  then show False using assms unfolding uuid_lengths_def by blast
qed

lemma seeded_spot_never_answers:
  assumes "seeded_spot_answers dc y newts str parses enc dec n i r"
    and "uuid_lengths parses" and "uid_Validate parses i f = None" and "encodes enc dec"
  shows "\<exists>e. r = Inl e"
proof (cases "\<exists>e. r = Inl e")
  case False
  let ?get = "\<lambda>p i. market_GetByID p i (seedData dc y)"
  obtain cx t1 t2 c ps where run: "spot_calls_run parses enc dec ?get lru_ops (NewLRUCache n, []) (c, ps)"
    and r: "r = snd (handler_GetMarket newts str parses enc dec ?get (Some lru_ops) cx t1 t2 i c)"
    using assms(1) False unfolding seeded_spot_answers_def by blast
  have i: "i \<noteq> ''''" "parses i" using assms(3) unfolding uid_Validate_None by auto
  have sound: "lru_wf c" "lru_cache.agrees dec (gm_get (seedData dc y)) c"
    using lru_calls.calls_sound[OF run lru_calls.soundI[OF NewLRUCache_wf lru_agrees_new] assms(4)]
    by (simp_all add: lru_calls.soundD)
  have "\<exists>e. snd (spot_GetMarketByID parses enc dec ?get (Some lru_ops) cx t1 t2 i c) = Inl e"
    using lru_cache.read_through[OF sound assms(4) market_source, of parses cx t1 t2 i]
      seeded_market_missing[OF assms(2) i(2), of dc y]
    by (cases "snd (spot_GetMarketByID parses enc dec ?get (Some lru_ops) cx t1 t2 i c)") auto
  then show ?thesis using i(1) r by (auto simp: handler_GetMarket_def split: prod.splits)
qed

text \<open>C21: with the markets the spot service is seeded with, the market check never stops an order: for
  every market identifier that passes validation, whatever calls the spot service serves at the
  same time and whatever happens on the way, \<open>CheckMarketActive\<close> fails, with the message that the order
  cannot be created, and \<open>CreateOrder\<close> creates the order.\<close>

theorem unknown_markets_accepted:
  assumes "order_store_ok r" and "ce_poll E = None" "ce_count E = None" "ce_save E = None"
    and "uuid_lengths parses" and "encodes enc dec"
    and "uid_Validate parses (cmd_MarketID cmd) ''market_id'' = None" and "uid_Validate parses (cmd_UserID cmd) ''user_id'' = None"
    and "card (user_orders (cmd_UserID cmd) r) < 500"
    and "seeded_spot_answers dc y newts str parses enc dec n (cmd_MarketID cmd) (ck_rpc K)"
  shows "gm_get (seedData dc y) (cmd_MarketID cmd) = None \<and>
    snd (mc_CheckMarketActive (market_checker B nfs K) (ce_check E) (cmd_MarketID cmd) b) =
      Inl (Errorf (''market validation service unavailable: cannot create order for '' @ cmd_MarketID cmd)) \<and>
    snd (order_CreateOrder parses memory_orders (Some (market_checker B nfs K)) E cmd (r, b)) = Inr (new_order E cmd)"
proof -
  have "\<forall>m. ck_rpc K \<noteq> Inr (Some m) \<or> snd (gb_before B (ck_t1 K) b) \<noteq> None"
    using seeded_spot_never_answers[OF assms(10,5,7,6)] by auto
  from unanswered_check_accepts[OF assms(1-4,7-9) this, of nfs]
  have "snd (order_CreateOrder parses memory_orders (Some (market_checker B nfs K)) E cmd (r, b)) = Inr (new_order E cmd)" by simp
  moreover have "snd (mc_CheckMarketActive (market_checker B nfs K) (ce_check E) (cmd_MarketID cmd) b) =
      Inl (Errorf (''market validation service unavailable: cannot create order for '' @ cmd_MarketID cmd))"
    using seeded_spot_never_answers[OF assms(10,5,7,6)] by (auto simp: market_check_answers)
  moreover have "parses (cmd_MarketID cmd)" using assms(7) by (simp add: uid_Validate_None)
  ultimately show ?thesis using seeded_market_missing[OF assms(5), of "cmd_MarketID cmd" dc y] by simp
qed

definition wit_check :: "unit check_env" where
  "wit_check = \<lparr>ck_poll = None, ck_t1 = 0, ck_t2 = 0, ck_done = None,
     ck_rpc = snd (handler_GetMarket (\<lambda>t. ()) (\<lambda>_. '''') (\<lambda>s. length s = 36) (\<lambda>m. None) (\<lambda>b. None)
       (\<lambda>p i. market_GetByID p i (seedData (\<lambda>_. ()) 0)) (Some lru_ops) background 0 0 wit_id (NewLRUCache 10))\<rparr>"

theorem unknown_markets_accepted_witness:
  "snd (checker_CheckMarketActive wit_breaker (\<lambda>s. ((), None)) wit_check wit_id ()) =
     Inl (Errorf (''market validation service unavailable: cannot create order for '' @ wit_id)) \<and>
   snd (order_CreateOrder (\<lambda>s. length s = 36) memory_orders (Some (market_checker wit_breaker (\<lambda>s. ((), None)) wit_check))
      (wit_cenv ''o1'') (wit_cmd\<lparr>cmd_MarketID := wit_id, cmd_UserID := wit_id\<rparr>) ([] :: unit order_store, ())) =
    Inr (new_order (wit_cenv ''o1'') (wit_cmd\<lparr>cmd_MarketID := wit_id, cmd_UserID := wit_id\<rparr>))"
proof -
  let ?cmd = "wit_cmd\<lparr>cmd_MarketID := wit_id, cmd_UserID := wit_id\<rparr>"
  have len: "length wit_id = 36" "wit_id \<noteq> []" by (simp_all add: wit_id_def)
  have answers: "seeded_spot_answers (\<lambda>_. ()) 0 (\<lambda>t. ()) (\<lambda>_. '''') (\<lambda>s. length s = 36) (\<lambda>m. None) (\<lambda>b. None) 10
      (cmd_MarketID ?cmd) (ck_rpc wit_check)"
    unfolding seeded_spot_answers_def wit_check_def
    by (rule disjI2, rule exI[of _ background], rule exI[of _ 0], rule exI[of _ 0], rule exI[of _ "NewLRUCache 10"],
        rule exI[of _ "[]"], simp)
  have "gm_get (seedData (\<lambda>_. ()) 0) (cmd_MarketID ?cmd) = None \<and>
    snd (mc_CheckMarketActive (market_checker wit_breaker (\<lambda>s. ((), None)) wit_check) (ce_check (wit_cenv ''o1'')) (cmd_MarketID ?cmd) ()) =
      Inl (Errorf (''market validation service unavailable: cannot create order for '' @ cmd_MarketID ?cmd)) \<and>
    snd (order_CreateOrder (\<lambda>s. length s = 36) memory_orders (Some (market_checker wit_breaker (\<lambda>s. ((), None)) wit_check))
      (wit_cenv ''o1'') ?cmd ([] :: unit order_store, ())) = Inr (new_order (wit_cenv ''o1'') ?cmd)"
    by (rule unknown_markets_accepted[OF _ _ _ _ _ _ _ _ _ answers])
       (simp_all add: order_store_ok_Nil wit_cenv_def uid_Validate_None len uuid_lengths_def encodes_def user_orders_def)
  then show ?thesis by simp
qed

end
