(* ===== verification/Log_Redact.thy ===== *)
theory Log_Redact
  imports Go_Strings
begin

text \<open>
  The redaction of log messages (\<open>shared/logger/logger.go\<close>). Each sensitive field has a pattern, the field
  in any case, an equals sign or a colon, and a value with or without quotes; the Go expression is written
  out as a function from a text to the match at its start. Field names are ASCII, as the default ones,
  and the replacement has no dollar sign. The rest of the logger configures and calls the zap library.
\<close>

section \<open>Matching\<close>

record log_config =
  lc_Level :: string
  lc_Format :: string
  lc_SensitiveFields :: "string list"
  lc_RedactValue :: string
  lc_EnableCaller :: bool
  lc_EnableStacktrace :: bool

definition DefaultLogConfig :: log_config where
  "DefaultLogConfig =
     \<lparr>lc_Level = ''info'', lc_Format = ''json'',
      lc_SensitiveFields = [''password'', ''token'', ''secret'', ''key'', ''card'', ''cvv'', ''pin''],
      lc_RedactValue = ''***REDACTED***'', lc_EnableCaller = False, lc_EnableStacktrace = False\<rparr>"

text \<open>The classes of the expression: white space, the separators, quotes, and the bytes of a value.\<close>

definition re_space :: "char \<Rightarrow> bool" where
  "re_space c \<longleftrightarrow> c \<in> {CHR 0x09, CHR 0x0A, CHR 0x0C, CHR 0x0D, CHR 0x20}"

definition re_sep :: "char \<Rightarrow> bool" where
  "re_sep c \<longleftrightarrow> c = CHR '':'' \<or> c = CHR ''=''"

definition re_quote :: "char \<Rightarrow> bool" where
  "re_quote c \<longleftrightarrow> c = CHR 0x22 \<or> c = CHR 0x27"

definition re_value :: "char \<Rightarrow> bool" where
  "re_value c \<longleftrightarrow> \<not> re_space c \<and> \<not> re_quote c \<and> c \<noteq> CHR '','' \<and> c \<noteq> CHR ''}''"

text \<open>One letter of a field under (?i): its bytes and what follows. U+212A folds to k, U+017F to s.\<close>

fun match_letter :: "char \<Rightarrow> string \<Rightarrow> (string \<times> string) option" where
  "match_letter p [] = None"
| "match_letter p (c # cs) =
     (if lower_ascii c = lower_ascii p then Some ([c], cs)
      else if lower_ascii p = CHR ''k'' \<and> prefix [CHR 0xE2, CHR 0x84, CHR 0xAA] (c # cs)
        then Some ([CHR 0xE2, CHR 0x84, CHR 0xAA], drop 3 (c # cs))
      else if lower_ascii p = CHR ''s'' \<and> prefix [CHR 0xC5, CHR 0xBF] (c # cs)
        then Some ([CHR 0xC5, CHR 0xBF], drop 2 (c # cs))
      else None)"

fun match_field :: "string \<Rightarrow> string \<Rightarrow> (string \<times> string) option" where
  "match_field [] s = Some ([], s)"
| "match_field (p # ps) s =
     (case match_letter p s of
        None \<Rightarrow> None
      | Some (g, r) \<Rightarrow> (case match_field ps r of None \<Rightarrow> None | Some (g', r') \<Rightarrow> Some (g @ g', r')))"

definition skip_quote :: "string \<Rightarrow> string" where
  "skip_quote s = (case s of [] \<Rightarrow> [] | c # cs \<Rightarrow> if re_quote c then cs else s)"

definition match_secret :: "string \<Rightarrow> string \<Rightarrow> (string \<times> string) option" where
  "match_secret f s =
     (case match_field f s of
        None \<Rightarrow> None
      | Some (g, r) \<Rightarrow>
          (case dropWhile re_space r of
             [] \<Rightarrow> None
           | c # r1 \<Rightarrow>
               if \<not> re_sep c then None
               else let r2 = skip_quote (dropWhile re_space r1)
                    in if takeWhile re_value r2 = [] then None else Some (g, skip_quote (dropWhile re_value r2))))"

section \<open>Replacing\<close>

lemma length_skip_quote: "length (skip_quote s) \<le> length s"
  by (simp add: skip_quote_def split: list.split)

lemma match_letter_split: "match_letter p s = Some (g, r) \<Longrightarrow> s = g @ r \<and> g \<noteq> []"
  by (cases "(p, s)" rule: match_letter.cases) (auto split: if_splits simp: prefix_def)

lemma match_field_split: "match_field f s = Some (g, r) \<Longrightarrow> s = g @ r \<and> (f = [] \<longleftrightarrow> g = [])"
proof (induction f arbitrary: s g r)
  case (Cons p ps)
  then obtain g1 r1 g2 where "match_letter p s = Some (g1, r1)" "match_field ps r1 = Some (g2, r)" "g = g1 @ g2"
    by (auto split: option.splits)
  then show ?case using Cons.IH match_letter_split by fastforce
qed simp

lemma match_secret_length: "match_secret f s = Some (g, rest) \<Longrightarrow> length rest < length s"
proof -
  assume m: "match_secret f s = Some (g, rest)"
  then obtain r c r1 where f: "match_field f s = Some (g, r)" and d: "dropWhile re_space r = c # r1"
    and rest: "rest = skip_quote (dropWhile re_value (skip_quote (dropWhile re_space r1)))"
    by (auto simp: match_secret_def Let_def split: option.splits list.splits if_splits)
  have "length rest \<le> length r1"
    unfolding rest by (meson length_skip_quote length_dropWhile_le order_trans)
  moreover have "Suc (length r1) \<le> length r" using length_dropWhile_le[of re_space r] d by simp
  ultimately show "length rest < length s" using match_field_split[OF f] by simp
qed

function redact_field :: "string \<Rightarrow> string \<Rightarrow> string \<Rightarrow> string" where
  "redact_field f val [] = []"
| "redact_field f val (c # cs) =
     (case match_secret f (c # cs) of
        Some (g, rest) \<Rightarrow> g @ ''='' @ val @ redact_field f val rest
      | None \<Rightarrow> c # redact_field f val cs)"
  by pat_completeness auto

termination redact_field
  by (relation "measure (\<lambda>(f, val, s). length s)") (auto dest: match_secret_length)

text \<open>\<open>Redact\<close>: one pass for each field, in order.\<close>

definition logger_Redact :: "log_config \<Rightarrow> string \<Rightarrow> string" where
  "logger_Redact cfg s = fold (\<lambda>f t. redact_field f (lc_RedactValue cfg) t) (lc_SensitiveFields cfg) s"

section \<open>What is a secret\<close>

text \<open>The spellings of a field: each letter in either case or as the rune that folds to it.\<close>

definition spells :: "string \<Rightarrow> string \<Rightarrow> bool" where
  "spells f g \<longleftrightarrow> (\<forall>r. match_field f (g @ r) = Some (g, r))"

definition optional_quote :: "string \<Rightarrow> bool" where
  "optional_quote q \<longleftrightarrow> q = [] \<or> (\<exists>c. q = [c] \<and> re_quote c)"

text \<open>A secret at the start of a text: a field, the separator with white space around it, and the longest value.\<close>

definition secret_at :: "string \<Rightarrow> string \<Rightarrow> string \<Rightarrow> string \<Rightarrow> string \<Rightarrow> bool" where
  "secret_at f s g v rest \<longleftrightarrow>
     (\<exists>w1 c w2 q q'. s = g @ w1 @ c # w2 @ q @ v @ q' @ rest \<and> spells f g \<and> list_all re_space w1 \<and> re_sep c \<and>
        list_all re_space w2 \<and> optional_quote q \<and> v \<noteq> [] \<and> list_all re_value v \<and> optional_quote q' \<and>
        (q' = [] \<longrightarrow> rest = [] \<or> \<not> re_value (hd rest) \<and> \<not> re_quote (hd rest)))"

lemma re_classes: "re_sep c \<Longrightarrow> \<not> re_space c" "re_quote c \<Longrightarrow> \<not> re_space c \<and> \<not> re_value c" "re_value c \<Longrightarrow> \<not> re_space c \<and> \<not> re_quote c"
  by (auto simp: re_sep_def re_quote_def re_space_def re_value_def)

lemma match_letter_append: "match_letter p s = Some (g, r) \<Longrightarrow> match_letter p (g @ r') = Some (g, r')"
  by (cases "(p, s)" rule: match_letter.cases) (auto split: if_splits simp: prefix_def lower_ascii_def)

lemma match_field_spells: "match_field f s = Some (g, r) \<longleftrightarrow> s = g @ r \<and> spells f g"
proof
  assume m: "match_field f s = Some (g, r)"
  have "match_field f (g @ r') = Some (g, r')" for r'
    using m
  proof (induction f arbitrary: s g r)
    case (Cons p ps)
    then obtain g1 r1 g2 where "match_letter p s = Some (g1, r1)" "match_field ps r1 = Some (g2, r)" "g = g1 @ g2"
      by (auto split: option.splits)
    then show ?case using Cons.IH match_letter_append[of p s g1 r1 "g2 @ r'"] by simp
  qed simp
  then show "s = g @ r \<and> spells f g" using match_field_split[OF m] by (simp add: spells_def)
qed (simp add: spells_def)

lemma skip_quote_split: "\<exists>q. optional_quote q \<and> s = q @ skip_quote s \<and> (q = [] \<longrightarrow> s = [] \<or> \<not> re_quote (hd s))"
  by (cases s) (auto simp: skip_quote_def optional_quote_def)

lemma skip_quote_append:
  "optional_quote q \<Longrightarrow> (q = [] \<Longrightarrow> s = [] \<or> \<not> re_quote (hd s)) \<Longrightarrow> skip_quote (q @ s) = s"
  by (auto simp: skip_quote_def optional_quote_def split: list.split)

lemma takeWhile_stop: "list_all P u \<Longrightarrow> s = [] \<or> \<not> P (hd s) \<Longrightarrow> takeWhile P (u @ s) = u \<and> dropWhile P (u @ s) = s"
  by (induction u) (cases s; auto)+

lemma dropWhile_stop: "dropWhile P s = [] \<or> \<not> P (hd (dropWhile P s))"
  using hd_dropWhile[of P s] by blast

text \<open>The pattern of a field matches at the start of a text exactly when a secret stands there, and
  it takes the longest value with a quote on either side.\<close>

lemma match_secret_exact:
  "match_secret f s = Some (g, rest) \<longleftrightarrow> (\<exists>v. secret_at f s g v rest)"
proof
  assume m: "match_secret f s = Some (g, rest)"
  then obtain r c r1 where f: "match_field f s = Some (g, r)" and d: "dropWhile re_space r = c # r1" and c: "re_sep c"
    and v: "takeWhile re_value (skip_quote (dropWhile re_space r1)) \<noteq> []"
    and rest: "rest = skip_quote (dropWhile re_value (skip_quote (dropWhile re_space r1)))"
    by (auto simp: match_secret_def Let_def split: option.splits list.splits if_splits)
  let ?t = "dropWhile re_space r1" and ?w1 = "takeWhile re_space r" and ?w2 = "takeWhile re_space r1"
  let ?v = "takeWhile re_value (skip_quote ?t)" and ?y = "dropWhile re_value (skip_quote ?t)"
  obtain q where q: "optional_quote q" "?t = q @ skip_quote ?t" using skip_quote_split by blast
  obtain q' where q': "optional_quote q'" "?y = q' @ rest" "q' = [] \<longrightarrow> ?y = [] \<or> \<not> re_quote (hd ?y)"
    using skip_quote_split[of ?y] rest by blast
  have "s = g @ ?w1 @ c # ?w2 @ q @ ?v @ q' @ rest"
    using f[unfolded match_field_spells] d q(2) q'(2) by (metis takeWhile_dropWhile_id)
  moreover have "q' = [] \<longrightarrow> rest = [] \<or> \<not> re_value (hd rest) \<and> \<not> re_quote (hd rest)"
    using q' dropWhile_stop[of re_value "skip_quote ?t"] by auto
  ultimately have "secret_at f s g ?v rest"
    unfolding secret_at_def using f[unfolded match_field_spells] c v q(1) q'(1)
    by (intro exI[of _ ?w1] exI[of _ c] exI[of _ ?w2] exI[of _ q] exI[of _ q']) (auto simp: list_all_iff dest: set_takeWhileD)
  then show "\<exists>v. secret_at f s g v rest" by blast
next
  assume "\<exists>v. secret_at f s g v rest"
  then obtain v w1 c w2 q q' where s: "s = g @ w1 @ c # w2 @ q @ v @ q' @ rest" and g: "spells f g"
    and w: "list_all re_space w1" "re_sep c" "list_all re_space w2"
    and q: "optional_quote q" "v \<noteq> []" "list_all re_value v" "optional_quote q'"
    and last: "q' = [] \<longrightarrow> rest = [] \<or> \<not> re_value (hd rest) \<and> \<not> re_quote (hd rest)"
    unfolding secret_at_def by blast
  have v: "re_value (hd v)" using q(2,3) by (cases v) simp_all
  have one: "dropWhile re_space (w1 @ c # w2 @ q @ v @ q' @ rest) = c # w2 @ q @ v @ q' @ rest"
    using takeWhile_stop[OF w(1), of "c # w2 @ q @ v @ q' @ rest"] re_classes(1)[OF w(2)] by simp
  have "\<not> re_space (hd (q @ v @ q' @ rest))"
    using q(1,2) v re_classes(2,3) by (auto simp: optional_quote_def)
  then have two: "dropWhile re_space (w2 @ q @ v @ q' @ rest) = q @ v @ q' @ rest"
    using takeWhile_stop[OF w(3), of "q @ v @ q' @ rest"] by blast
  have three: "skip_quote (q @ v @ q' @ rest) = v @ q' @ rest"
    using skip_quote_append[OF q(1), of "v @ q' @ rest"] q(2) v re_classes(3) by (cases v) auto
  have "q' @ rest = [] \<or> \<not> re_value (hd (q' @ rest))"
    using q(4) last re_classes(2) by (auto simp: optional_quote_def)
  then have four: "takeWhile re_value (v @ q' @ rest) = v" "dropWhile re_value (v @ q' @ rest) = q' @ rest"
    using takeWhile_stop[OF q(3), of "q' @ rest"] by auto
  have "skip_quote (q' @ rest) = rest" using skip_quote_append[OF q(4), of rest] last by blast
  then show "match_secret f s = Some (g, rest)"
    using g w(2) q(2) unfolding s spells_def by (simp add: match_secret_def one two three four)
qed

section \<open>Structured messages\<close>

lemma redact_field_none: "(\<And>t. suffix t s \<Longrightarrow> t \<noteq> [] \<Longrightarrow> match_secret f t = None) \<Longrightarrow> redact_field f val s = s"
proof (induction s)
  case (Cons c cs)
  have "match_secret f (c # cs) = None" by (rule Cons.prems) simp_all
  moreover have "redact_field f val cs = cs" by (rule Cons.IH) (meson Cons.prems suffix_ConsI)
  ultimately show ?case by simp
qed simp

lemma re_quote_nat: "re_quote c \<longleftrightarrow> of_char c = (34 :: nat) \<or> of_char c = (39 :: nat)"
proof -
  have "c = CHR 0x22 \<longleftrightarrow> of_char c = (of_char (CHR 0x22) :: nat)" "c = CHR 0x27 \<longleftrightarrow> of_char c = (of_char (CHR 0x27) :: nat)"
    by (simp_all only: of_char_eq_iff)
  then show ?thesis by (simp add: re_quote_def)
qed

lemma lower_ascii_quote: "re_quote (lower_ascii p) \<longleftrightarrow> re_quote p"
  by (auto simp: re_quote_nat lower_ascii_def Let_def)

lemma match_letter_last:
  assumes "match_letter p s = Some (g, r)" and "\<not> re_quote p"
  shows "g \<noteq> [] \<and> \<not> re_quote (last g)"
proof (cases s)
  case (Cons c cs)
  then show ?thesis
    using assms lower_ascii_quote[of p] lower_ascii_quote[of c] by (auto split: if_splits simp: re_quote_def)
qed (use assms in simp)

lemma spells_last:
  assumes "match_field f s = Some (g, r)" and "f \<noteq> []" and "\<not> re_quote (last f)"
  shows "g \<noteq> [] \<and> \<not> re_quote (last g)"
  using assms
proof (induction f arbitrary: s g r)
  case (Cons p ps)
  then obtain g1 r1 g2 where m: "match_letter p s = Some (g1, r1)" "match_field ps r1 = Some (g2, r)" "g = g1 @ g2"
    by (auto split: option.splits)
  show ?case
  proof (cases ps)
    case Nil
    then show ?thesis using m Cons.prems(3) match_letter_last[OF m(1)] by simp
  next
    case (Cons p' ps')
    then show ?thesis using Cons.IH[OF m(2)] Cons.prems(3) m(3) by simp
  qed
qed simp

text \<open>A match ends its field directly before the white space and the separator.\<close>

lemma match_before_sep:
  assumes "match_secret f t = Some (g, rest)" and "f \<noteq> []" and "\<not> re_quote (last f)"
  shows "\<exists>p c r. t = p @ c # r \<and> re_sep c \<and> p \<noteq> [] \<and> \<not> re_quote (last p)"
proof -
  obtain r c r1 where f: "match_field f t = Some (g, r)" and d: "dropWhile re_space r = c # r1" and c: "re_sep c"
    using assms(1) by (auto simp: match_secret_def Let_def split: option.splits list.splits if_splits)
  have g: "t = g @ r" "g \<noteq> []" "\<not> re_quote (last g)"
    using match_field_split[OF f] spells_last[OF f assms(2,3)] by auto
  define w where "w = takeWhile re_space r"
  have w: "re_space (last w)" if "w \<noteq> []" using that set_takeWhileD[of "last w" re_space r] by (auto simp: w_def)
  have "\<not> re_quote (last (g @ w))"
  proof (cases "w = []")
    case False
    then show ?thesis using w by (auto simp: re_space_def re_quote_def)
  qed (use g in simp)
  moreover have "t = (g @ w) @ c # r1" using g(1) d takeWhile_dropWhile_id[of re_space r] by (simp add: w_def)
  ultimately show ?thesis using g(2) c by (intro exI[of _ "g @ w"] exI[of _ c] exI[of _ r1]) simp
qed

lemma redact_field_quoted_seps:
  assumes "f \<noteq> []" and "\<not> re_quote (last f)"
    and "\<And>p c r. s = p @ c # r \<Longrightarrow> re_sep c \<Longrightarrow> p \<noteq> [] \<Longrightarrow> re_quote (last p)"
  shows "redact_field f val s = s"
proof (rule redact_field_none)
  fix t :: string
  assume "suffix t s"
  then obtain q where s: "s = q @ t" by (auto simp: suffix_def)
  show "match_secret f t = None"
  proof (rule ccontr)
    assume "match_secret f t \<noteq> None"
    then obtain g rest where "match_secret f t = Some (g, rest)" by auto
    then obtain p c r where "t = p @ c # r" "re_sep c" "p \<noteq> []" "\<not> re_quote (last p)"
      using match_before_sep assms(1,2) by blast
    then show False using assms(3)[of "q @ p" c r] s by simp
  qed
qed

text \<open>A member of a JSON object whose value is a string, as the JSON encoding of a request has it.\<close>

definition json_member :: "string \<Rightarrow> string \<Rightarrow> string" where
  "json_member k v = CHR 0x22 # k @ [CHR 0x22, CHR '':'', CHR 0x22] @ v @ [CHR 0x22]"

lemma only_split:
  "a @ x # b = p @ c # r \<Longrightarrow> \<forall>y\<in>set a. \<not> P y \<Longrightarrow> \<forall>y\<in>set b. \<not> P y \<Longrightarrow> P c \<Longrightarrow> p = a"
proof (induction a arbitrary: p)
  case Nil
  then show ?case by (cases p) auto
next
  case (Cons y a)
  then show ?case by (cases p) auto
qed

lemma json_member_seps:
  assumes "json_member k v = p @ c # r" and "re_sep c" and "list_all (\<lambda>x. \<not> re_sep x) (k @ v)"
  shows "re_quote (last p)"
proof -
  let ?q = "CHR 0x22 :: char" and ?a = "CHR 0x22 # k @ [CHR 0x22]" and ?b = "CHR 0x22 # v @ [CHR 0x22]"
  have q: "\<not> re_sep ?q" by (simp add: re_sep_def)
  have n: "\<forall>x\<in>set ?a. \<not> re_sep x" "\<forall>x\<in>set ?b. \<not> re_sep x" using assms(3) q by (auto simp: list_all_iff)
  have "?a @ CHR '':'' # ?b = p @ c # r" using assms(1) by (simp add: json_member_def)
  then have "p = ?a"
    using only_split[OF _ n assms(2)] by simp
  then show ?thesis by (simp add: re_quote_def)
qed

text \<open>Redaction misses secrets in JSON: a member of a JSON object with a string value, whatever its
  name (\<open>password\<close>, \<open>token\<close>, ...), is logged as it stands under the default configuration, as long as name
  and value have no colon and no equals sign. The quote that closes the name stands between the field and
  the colon, where the expression allows white space only.\<close>

lemma redact_misses_json:
  assumes "list_all (\<lambda>c. c \<noteq> CHR '':'' \<and> c \<noteq> CHR ''='') (k @ v)"
  shows "logger_Redact DefaultLogConfig (json_member k v) = json_member k v"
proof -
  have n: "list_all (\<lambda>x. \<not> re_sep x) (k @ v)" using assms by (simp add: re_sep_def list_all_iff)
  have "redact_field f val (json_member k v) = json_member k v" if "f \<noteq> []" "\<not> re_quote (last f)" for f val
    by (rule redact_field_quoted_seps[OF that]) (use json_member_seps n in blast)
  then show ?thesis by (simp add: logger_Redact_def DefaultLogConfig_def re_quote_def)
qed

lemma redact_misses_json_witness:
  "logger_Redact DefaultLogConfig (json_member ''password'' ''hunter2'') = json_member ''password'' ''hunter2''"
  by (rule redact_misses_json) (simp add: list_all_iff)

section \<open>The methods of the logger\<close>

text \<open>A log entry is its level, its message and its fields. Only the message is redacted; an error is a
  field, and so are the identifiers that \<open>WithContext\<close> reads from the metadata of a request.\<close>

type_synonym log_fields = "(string \<times> string) list"

definition InfoRedact :: "log_config \<Rightarrow> string \<Rightarrow> log_fields \<Rightarrow> string \<times> string \<times> log_fields" where
  "InfoRedact cfg msg fs = (''info'', logger_Redact cfg msg, fs)"

definition ErrorRedact :: "log_config \<Rightarrow> string \<Rightarrow> string option \<Rightarrow> log_fields \<Rightarrow> string \<times> string \<times> log_fields" where
  "ErrorRedact cfg msg err fs =
     (''error'', logger_Redact cfg msg, case err of None \<Rightarrow> fs | Some e \<Rightarrow> fs @ [(''error'', e)])"

definition logger_WithContext :: "(string \<Rightarrow> string list) option \<Rightarrow> log_fields" where
  "logger_WithContext md =
     (case md of
        None \<Rightarrow> []
      | Some get \<Rightarrow>
          (case get ''x-request-id'' of [] \<Rightarrow> [] | i # _ \<Rightarrow> [(''request_id'', i)]) @
          (case get ''x-user-id'' of [] \<Rightarrow> [] | u # _ \<Rightarrow> [(''user_id'', u)]))"

text \<open>The services and the client make their loggers with a level and a format only: nothing is redacted.\<close>

definition service_log_config :: "string \<Rightarrow> string \<Rightarrow> log_config" where
  "service_log_config level format =
     \<lparr>lc_Level = level, lc_Format = format, lc_SensitiveFields = [], lc_RedactValue = '''', lc_EnableCaller = False, lc_EnableStacktrace = False\<rparr>"

lemma service_redacts_nothing: "logger_Redact (service_log_config level format) s = s"
  by (simp add: logger_Redact_def service_log_config_def)

end
