(* ===== verification/Startup.thy ===== *)
theory Startup
  imports Log_Redact Errors
begin

text \<open>
  The constructors that reach out of the process: the two of the Redis cache
  (\<open>shared/adapters/redis_cache.go\<close>), the pool of database connections (\<open>shared/db/db.go\<close>), the logger
  (\<open>shared/logger/logger.go\<close>) and the gRPC client of the command line client
  (\<open>order-client/internal/client/grpc.go\<close>). The libraries are parameters; the state is that of the
  outside world, with the handles that are open in it.
\<close>

section \<open>Redis\<close>

text \<open>The options of the client library that the constructors set; zero stands for the library's default.\<close>

record redis_options =
  ro_Addr :: string
  ro_Password :: string
  ro_DB :: int
  ro_PoolSize :: int
  ro_MinIdleConns :: int
  ro_MaxRetries :: int
  ro_MinRetryBackoff :: duration
  ro_MaxRetryBackoff :: duration
  ro_DialTimeout :: duration
  ro_ReadTimeout :: duration
  ro_WriteTimeout :: duration
  ro_PoolTimeout :: duration

record ('s, 'c) redis_lib =
  rl_NewClient :: "redis_options \<Rightarrow> 's \<Rightarrow> 's \<times> 'c"
  rl_Ping :: "'c \<Rightarrow> 's \<Rightarrow> 's \<times> err option"
  rl_Close :: "'c \<Rightarrow> 's \<Rightarrow> 's"

text \<open>The cache is the client and the prefix.\<close>

definition NewRedisCache ::
  "('s, 'c) redis_lib \<Rightarrow> string \<Rightarrow> string \<Rightarrow> int \<Rightarrow> string \<Rightarrow> 's \<Rightarrow> 's \<times> ('c \<times> string) result"
where
  "NewRedisCache R addr password db pre s =
     (case rl_NewClient R \<lparr>ro_Addr = addr, ro_Password = password, ro_DB = db, ro_PoolSize = 0, ro_MinIdleConns = 0,
          ro_MaxRetries = 0, ro_MinRetryBackoff = 0, ro_MaxRetryBackoff = 0, ro_DialTimeout = 0, ro_ReadTimeout = 0,
          ro_WriteTimeout = 0, ro_PoolTimeout = 0\<rparr> s of
        (s1, client) \<Rightarrow>
          (case rl_Ping R client s1 of
             (s2, Some e) \<Rightarrow> (rl_Close R client s2, Inl (Wrapf ''redis connection failed'' e))
           | (s2, None) \<Rightarrow> (s2, Inr (client, pre))))"

definition NewRedisCacheWithConfig ::
  "('s, 'c) redis_lib \<Rightarrow> string \<Rightarrow> string \<Rightarrow> int \<Rightarrow> string \<Rightarrow> 's \<Rightarrow> 's \<times> ('c \<times> string) result"
where
  "NewRedisCacheWithConfig R addr password db pre s =
     (let opts = \<lparr>ro_Addr = addr, ro_Password = password, ro_DB = db, ro_PoolSize = 25, ro_MinIdleConns = 5,
          ro_MaxRetries = 3, ro_MinRetryBackoff = 8 * 1000000, ro_MaxRetryBackoff = 512 * 1000000,
          ro_DialTimeout = 5 * second, ro_ReadTimeout = 3 * second, ro_WriteTimeout = 3 * second, ro_PoolTimeout = 4 * second\<rparr>
      in case rl_NewClient R opts s of
        (s1, client) \<Rightarrow>
          (case rl_Ping R client s1 of
             (s2, Some e) \<Rightarrow> (rl_Close R client s2, Inl (Wrapf ''redis ping failed'' e))
           | (s2, None) \<Rightarrow> (s2, Inr (client, pre))))"

definition redis_Close :: "('s, 'c) redis_lib \<Rightarrow> 'c \<times> string \<Rightarrow> 's \<Rightarrow> 's" where
  "redis_Close R r s = rl_Close R (fst r) s"

text \<open>What the library documents of its handles: a new client is open, a ping opens and closes
  nothing, closing closes.\<close>

definition redis_handles :: "('s, 'c) redis_lib \<Rightarrow> ('s \<Rightarrow> 'c set) \<Rightarrow> bool" where
  "redis_handles R opened \<longleftrightarrow>
     (\<forall>opts s. snd (rl_NewClient R opts s) \<notin> opened s \<and>
        opened (fst (rl_NewClient R opts s)) = insert (snd (rl_NewClient R opts s)) (opened s)) \<and>
     (\<forall>c s. opened (fst (rl_Ping R c s)) = opened s) \<and> (\<forall>c s. opened (rl_Close R c s) = opened s - {c})"

text \<open>A constructor that fails leaves nothing open; one that succeeds has a client that answered.\<close>

lemma redis_constructors:
  assumes "redis_handles R opened" and "r = NewRedisCache R addr pw db pre s \<or> r = NewRedisCacheWithConfig R addr pw db pre s"
  shows "case snd r of Inl e \<Rightarrow> opened (fst r) = opened s
    | Inr (c, p) \<Rightarrow> p = pre \<and> c \<notin> opened s \<and> opened (fst r) = insert c (opened s) \<and> (\<exists>s1. snd (rl_Ping R c s1) = None)"
proof -
  have "case snd r of Inl e \<Rightarrow> opened (fst r) = opened s
    | Inr (c, p) \<Rightarrow> p = pre \<and> c \<notin> opened s \<and> opened (fst r) = insert c (opened s) \<and> (\<exists>s1. snd (rl_Ping R c s1) = None)"
    if r: "r = (case rl_NewClient R opts s of (s1, client) \<Rightarrow>
        (case rl_Ping R client s1 of (s2, Some e) \<Rightarrow> (rl_Close R client s2, Inl (Wrapf m e)) | (s2, None) \<Rightarrow> (s2, Inr (client, pre))))"
    for opts m
  proof -
    obtain s1 c where n: "rl_NewClient R opts s = (s1, c)" by fastforce
    obtain s2 o2 where p: "rl_Ping R c s1 = (s2, o2)" by fastforce
    have "c \<notin> opened s" "opened s1 = insert c (opened s)" using assms(1) n unfolding redis_handles_def by (metis fst_conv snd_conv)+
    moreover have "opened s2 = opened s1" using assms(1) p unfolding redis_handles_def by (metis fst_conv)
    moreover have "opened (rl_Close R c s2) = opened s2 - {c}" using assms(1) unfolding redis_handles_def by blast
    moreover have "\<exists>t. snd (rl_Ping R c t) = o2" using p by (intro exI[of _ s1]) simp
    ultimately show ?thesis using r n p by (cases o2) simp_all
  qed
  then show ?thesis using assms(2) unfolding NewRedisCache_def NewRedisCacheWithConfig_def Let_def by blast
qed

section \<open>The pool of connections\<close>

record db_config =
  db_DSN :: string
  db_MaxConns :: int
  db_MinConns :: int
  db_MaxConnIdle :: duration

text \<open>A parsed configuration: the three settings that are overwritten, and the rest.\<close>

record 'x pool_config =
  pc_rest :: 'x
  pc_MaxConns :: int
  pc_MinConns :: int
  pc_MaxConnIdleTime :: duration

record ('s, 'x, 'p) pgx_lib =
  px_ParseConfig :: "string \<Rightarrow> 'x pool_config result"
  px_NewWithConfig :: "'x pool_config \<Rightarrow> 's \<Rightarrow> 's \<times> 'p result"
  px_Ping :: "'p \<Rightarrow> 's \<Rightarrow> 's \<times> err option"

definition NewPool :: "('s, 'x, 'p) pgx_lib \<Rightarrow> db_config \<Rightarrow> 's \<Rightarrow> 's \<times> 'p result" where
  "NewPool X cfg s =
     (case px_ParseConfig X (db_DSN cfg) of
        Inl e \<Rightarrow> (s, Inl (Wrapf ''parse dsn'' e))
      | Inr poolCfg \<Rightarrow>
          (case px_NewWithConfig X (poolCfg\<lparr>pc_MaxConns := db_MaxConns cfg, pc_MinConns := db_MinConns cfg,
               pc_MaxConnIdleTime := db_MaxConnIdle cfg\<rparr>) s of
             (s1, Inl e) \<Rightarrow> (s1, Inl (Wrapf ''create pool'' e))
           | (s1, Inr pool) \<Rightarrow>
               (case px_Ping X pool s1 of
                  (s2, Some e) \<Rightarrow> (s2, Inl (Wrapf ''ping database'' e))
                | (s2, None) \<Rightarrow> (s2, Inr pool))))"

text \<open>A pool whose first ping fails stays open, and the caller has no handle to close it with.\<close>

lemma failed_pool_stays_open:
  assumes "px_ParseConfig X (db_DSN cfg) = Inr pcfg"
    and "px_NewWithConfig X (pcfg\<lparr>pc_MaxConns := db_MaxConns cfg, pc_MinConns := db_MinConns cfg,
      pc_MaxConnIdleTime := db_MaxConnIdle cfg\<rparr>) s = (s1, Inr pool)"
    and "snd (px_Ping X pool s1) = Some e" and "pool \<in> opened s1"
    and "\<And>p s. opened (fst (px_Ping X p s)) = opened s"
  shows "snd (NewPool X cfg s) = Inl (Wrapf ''ping database'' e) \<and> pool \<in> opened (fst (NewPool X cfg s))"
proof -
  obtain s2 where p: "px_Ping X pool s1 = (s2, Some e)" using assms(3) by (metis prod.collapse)
  then have "opened s2 = opened s1" using assms(5)[of pool s1] by simp
  then show ?thesis using assms(1,2,4) p by (simp add: NewPool_def)
qed

section \<open>The logger\<close>

text \<open>What is set of zap's configuration.\<close>

record 'l zap_config =
  zc_Encoding :: string
  zc_ColorLevel :: bool
  zc_Level :: 'l
  zc_ISO8601 :: bool
  zc_CallerKey :: string
  zc_ShortCaller :: bool
  zc_StacktraceKey :: string

datatype zap_option = AddCaller | AddStacktraceError

record ('l, 'z) zap_lib =
  zl_ParseLevel :: "string \<Rightarrow> 'l result"
  zl_InfoLevel :: 'l
  zl_Production :: "'l zap_config"
  zl_Build :: "'l zap_config \<Rightarrow> zap_option list \<Rightarrow> 'z result"

text \<open>The patterns are kept by the fields they are compiled from; \<open>compiles\<close> is whether the regular
  expression of a field compiles.\<close>

record 'z logger =
  lg_Logger :: 'z
  lg_patterns :: "string list"
  lg_redactVal :: string

definition logger_New :: "('l, 'z) zap_lib \<Rightarrow> (string \<Rightarrow> bool) \<Rightarrow> log_config \<Rightarrow> 'z logger result" where
  "logger_New Z compiles cfg =
     (let zapLevel = (case zl_ParseLevel Z (lc_Level cfg) of Inl e \<Rightarrow> zl_InfoLevel Z | Inr l \<Rightarrow> l);
          patterns = filter compiles (lc_SensitiveFields cfg);
          zapCfg = zl_Production Z;
          zapCfg = (if lc_Format cfg = ''console'' then zapCfg\<lparr>zc_Encoding := ''console'', zc_ColorLevel := True\<rparr> else zapCfg);
          zapCfg = zapCfg\<lparr>zc_Level := zapLevel, zc_ISO8601 := True\<rparr>;
          zapCfg = (if lc_EnableCaller cfg then zapCfg\<lparr>zc_CallerKey := ''caller'', zc_ShortCaller := True\<rparr> else zapCfg);
          zapCfg = (if lc_EnableStacktrace cfg then zapCfg\<lparr>zc_StacktraceKey := ''stacktrace''\<rparr> else zapCfg);
          opts = (if lc_EnableCaller cfg then [AddCaller] else []) @ (if lc_EnableStacktrace cfg then [AddStacktraceError] else [])
      in case zl_Build Z zapCfg opts of
        Inl e \<Rightarrow> Inl (Wrapf ''failed to build logger'' e)
      | Inr logger \<Rightarrow> Inr \<lparr>lg_Logger = logger, lg_patterns = patterns, lg_redactVal = lc_RedactValue cfg\<rparr>)"

text \<open>An unknown level is taken as \<open>info\<close>: it is never an error.\<close>

lemma logger_New_level:
  "zl_ParseLevel Z (lc_Level cfg) = Inl e \<Longrightarrow> zl_ParseLevel Z ''info'' = Inr (zl_InfoLevel Z) \<Longrightarrow>
   logger_New Z compiles cfg = logger_New Z compiles (cfg\<lparr>lc_Level := ''info''\<rparr>)"
  by (cases "lc_EnableCaller cfg"; cases "lc_EnableStacktrace cfg") (simp_all add: logger_New_def Let_def split: sum.split)

section \<open>The gRPC client\<close>

datatype dial_option = InsecureCredentials | MaxCallRecvMsgSize int

record ('k, 't) grpc_client =
  gc_conn :: "'k option"
  gc_tokenProvider :: 't

definition grpc_client_New ::
  "(string \<Rightarrow> dial_option list \<Rightarrow> 'k result) \<Rightarrow> string \<Rightarrow> 't \<Rightarrow> ('k, 't) grpc_client result"
where
  "grpc_client_New dial orderServiceAddr tokenProvider =
     (case dial orderServiceAddr [InsecureCredentials, MaxCallRecvMsgSize (10 * 1024 * 1024)] of
        Inl e \<Rightarrow> Inl (Wrapf ''failed to connect to order service'' e)
      | Inr conn \<Rightarrow> Inr \<lparr>gc_conn = Some conn, gc_tokenProvider = tokenProvider\<rparr>)"

definition grpc_client_Close :: "('k \<Rightarrow> 's \<Rightarrow> 's \<times> unit result) \<Rightarrow> ('k, 't) grpc_client \<Rightarrow> 's \<Rightarrow> 's \<times> unit result" where
  "grpc_client_Close close c s = (case gc_conn c of Some conn \<Rightarrow> close conn s | None \<Rightarrow> (s, Inr ()))"

text \<open>The token manager (\<open>order-client/internal/auth/token_manager.go\<close>) closes its connection the same way.\<close>

definition tm_Close :: "('k \<Rightarrow> 's \<Rightarrow> 's \<times> unit result) \<Rightarrow> 'k option \<Rightarrow> 's \<Rightarrow> 's \<times> unit result" where
  "tm_Close close userServiceConn s = (case userServiceConn of Some conn \<Rightarrow> close conn s | None \<Rightarrow> (s, Inr ()))"

lemma grpc_client_New_closes:
  "grpc_client_New dial addr tp = Inr c \<Longrightarrow> \<exists>conn. grpc_client_Close close c s = close conn s"
  by (auto simp: grpc_client_New_def grpc_client_Close_def split: sum.splits)

end
