(* ===== verification/Cache_Admin.thy ===== *)
theory Cache_Admin
  imports Redis_Cache Startup
begin

text \<open>
  The rest of the ports \<open>Cache\<close> and \<open>IdempotencyStore\<close> (\<open>shared/ports\<close>): closing and statistics of the caches, and
  the store of idempotency keys over a cache (\<open>shared/adapters/redis_idempotency.go\<close>) as an object with all
  its operations, beside the one in memory.
\<close>

section \<open>The whole port\<close>

record 's full_cache = "'s cache_ops" +
  c_Close :: "'s \<Rightarrow> 's \<times> unit result"
  c_Stats :: "'s \<Rightarrow> cache_stats"

text \<open>\<open>cacheWrapper\<close> of the spot service hands every operation to its LRU cache.\<close>

definition cacheWrapper :: "lru full_cache" where
  "cacheWrapper = \<lparr>c_Get = lru_Get, c_Set = lru_Set, c_Delete = lru_Delete, c_Close = lru_Close, c_Stats = lru_Stats\<rparr>"

text \<open>The Redis cache: \<open>close\<close> is \<open>Close\<close> of its client, \<open>addr\<close> the address in the options of the client.\<close>

definition redis_Stats :: "string \<Rightarrow> string \<Rightarrow> cache_stats" where
  "redis_Stats addr pre = [(''type'', StatString ''redis''), (''addr'', StatString addr), (''prefix'', StatString pre)]"

definition redis_cache :: "'s redis_client \<Rightarrow> ('s \<Rightarrow> 's \<times> unit result) \<Rightarrow> string \<Rightarrow> string \<Rightarrow> 's full_cache" where
  "redis_cache R close addr pre =
     \<lparr>c_Get = redis_Get R pre, c_Set = redis_Set R pre, c_Delete = redis_Delete R pre,
      c_Close = close, c_Stats = (\<lambda>_. redis_Stats addr pre)\<rparr>"

lemma full_cache_parts [simp]:
  "cache_ops.truncate cacheWrapper = lru_ops" "cache_ops.truncate (redis_cache R close addr pre) = redis_ops R pre"
  by (simp_all add: cache_ops.truncate_def cacheWrapper_def lru_ops_def redis_cache_def redis_ops_def)

section \<open>Stores of idempotency keys\<close>

text \<open>A store as its users hold it, over the states \<open>'s\<close>; closing may panic (\<open>None\<close>).\<close>

record 's idem_ops =
  i_CheckAndSet :: "ctx \<Rightarrow> time \<Rightarrow> time \<Rightarrow> nat \<Rightarrow> string \<Rightarrow> 's \<Rightarrow> 's \<times> bool result"
  i_Delete :: "poll \<Rightarrow> string \<Rightarrow> 's \<Rightarrow> 's \<times> unit result"
  i_Close :: "'s \<Rightarrow> 's option"
  i_Stats :: "'s \<Rightarrow> int \<times> int"

definition memory_store :: "idem_store idem_ops" where
  "memory_store =
     \<lparr>i_CheckAndSet = (\<lambda>cx t1 t2 seed. store_CheckAndSet (cx 0) t1 seed), i_Delete = (\<lambda>p. store_Delete),
      i_Close = store_Close, i_Stats = store_Stats\<rparr>"

text \<open>A type assertion whose failure is ignored gives zero.\<close>

definition stat_int :: "stat_value option \<Rightarrow> int" where
  "stat_int v = (case v of Some (StatInt n) \<Rightarrow> n | _ \<Rightarrow> 0)"

definition redis_store_Stats :: "'s full_cache \<Rightarrow> 's \<Rightarrow> int \<times> int" where
  "redis_store_Stats cache s =
     (let stats = c_Stats cache s in (stat_int (gm_get stats ''total_keys''), stat_int (gm_get stats ''max_size'')))"

definition redis_store_Close :: "'s full_cache \<Rightarrow> 's \<Rightarrow> 's" where
  "redis_store_Close cache s = fst (c_Close cache s)"

definition NewRedisStore :: "'s full_cache \<Rightarrow> 's idem_ops" where
  "NewRedisStore cache =
     \<lparr>i_CheckAndSet = (\<lambda>cx t1 t2 seed. redis_CheckAndSet (cache_ops.truncate cache) cx t1 t2),
      i_Delete = redis_idem_Delete (cache_ops.truncate cache),
      i_Close = (\<lambda>s. Some (redis_store_Close cache s)), i_Stats = redis_store_Stats cache\<rparr>"

lemmas admin_defs = memory_store_def NewRedisStore_def redis_store_Stats_def redis_store_Close_def cacheWrapper_def redis_cache_def

section \<open>Where the stores differ\<close>

text \<open>The statistics that the store asks for are those of the LRU cache. Over Redis it finds none of them, and reports an
  empty store without a limit.\<close>

lemma redis_store_stats:
  "i_Stats (NewRedisStore cacheWrapper) c = (int (length (lru_data c)), lru_maxSize c)"
  "i_Stats (NewRedisStore (redis_cache R close addr pre)) s = (0, 0)"
  by (simp_all add: admin_defs lru_Stats_def redis_Stats_def stat_int_def gm_get_def Let_def)

text \<open>Closing the store in memory a second time panics, and after the first the store goes on with the keys it has;
  closing the store over an LRU cache closes the cache, which forgets every key, and may be repeated.\<close>

lemma memory_store_close:
  assumes "i_Close memory_store s = Some s'"
  shows "i_Close memory_store s' = None \<and> i_Stats memory_store s' = i_Stats memory_store s \<and>
    snd (i_CheckAndSet memory_store cx t1 t2 seed k s') = snd (i_CheckAndSet memory_store cx t1 t2 seed k s)"
  using assms by (auto simp: memory_store_def store_Close_def store_Stats_def store_CheckAndSet_def Let_def split: if_splits option.split)

lemma redis_store_close:
  assumes "i_Close (NewRedisStore cacheWrapper) c = Some c'"
  shows "lru_wf c' \<and> (\<forall>k t. lru_live t c' k = None) \<and> i_Close (NewRedisStore cacheWrapper) c' = Some c'"
proof -
  have c': "c' = fst (lru_Close c)" using assms by (simp add: admin_defs)
  then show ?thesis using lru_Close_wf[of c] by (simp add: admin_defs lru_Close_def lru_live_def)
qed

text \<open>So a request that was seen before is new again after the store has been closed.\<close>

lemma redis_store_close_forgets:
  assumes "i_Close (NewRedisStore cacheWrapper) c = Some c'"
  shows "snd (i_CheckAndSet (NewRedisStore cacheWrapper) background t1 t2 seed k c') = Inr False"
proof -
  have wf: "lru_wf c'" and none: "lru_live t1 c' k = None" using redis_store_close[OF assms] by blast+
  obtain s1 where got: "lru_Get None t1 k c' = (s1, Inr None)"
    using lru_cache.get_total[OF wf, of t1 k] none by (cases "lru_Get None t1 k c'") (simp add: lru_ops_def)
  have "lru_wf s1" using lru_cache.get_inv[OF wf, of None t1 k] got by (simp add: lru_ops_def)
  then obtain s2 where "lru_Set None t2 k ''1'' 86400 s1 = (s2, Inr ())"
    using lru_cache.set_total[of s1 t2 k "''1''" 86400] by (cases "lru_Set None t2 k ''1'' 86400 s1") (simp add: lru_ops_def)
  then show ?thesis using got by (simp add: NewRedisStore_def redis_parts lru_ops_def)
qed

end
