(* ===== verification/Client_Main.thy ===== *)
theory Client_Main
  imports Client_Commands Shutdown
begin

text \<open>
  The processes of \<open>order-client/main.go\<close> with what \<open>Order_Client\<close> and \<open>Client_Commands\<close> leave out: the goroutine of
  an order command that waits for a signal, the resources it opens, the stack of deferred calls that release them, each pushed by
  a \<open>defer\<close> of its own, and the shutdown handler it fills beside them; and \<open>main\<close>: flags, the choice of a command, the exit code.
\<close>

section \<open>An order command\<close>

text \<open>Where the main goroutine is: before the configuration, with a logger, listening to signals, with a token
  manager, with a client of the order service, returned; or killed by a signal that nobody listens to.\<close>

datatype 'a order_phase =
  OcStart
| OcLogged client_config
| OcWatched client_config
| OcManaged client_config token_manager
| OcConnected token_manager
| OcDone "'a result"
| OcKilled

text \<open>A deferred call: the \<open>Close\<close> or \<open>Sync\<close> of a resource, or the \<open>cancel\<close> of the context.\<close>

datatype deferred = DeferClose string | DeferCancel

text \<open>\<open>om_open\<close>: what is open; \<open>om_opened\<close> and \<open>om_closed\<close>: what has been opened and what has been closed, in order;
  \<open>om_defers\<close>: the deferred calls, the last one first. \<open>om_fired\<close>: the goroutine has had its signal.\<close>

record ('r, 'a) order_cmd =
  om_phase :: "'a order_phase"
  om_disk :: "bytes option"
  om_remote :: 'r
  om_sd :: shutdown_handler
  om_notify :: bool
  om_fired :: bool
  om_cancelled :: bool
  om_open :: "string list"
  om_opened :: "string list"
  om_closed :: "string list"
  om_defers :: "deferred list"

definition om_init :: "bytes option \<times> 'r \<Rightarrow> ('r, 'a) order_cmd" where
  "om_init st = \<lparr>om_phase = OcStart, om_disk = fst st, om_remote = snd st, om_sd = sd_New (10 * second), om_notify = False,
     om_fired = False, om_cancelled = False, om_open = [], om_opened = [], om_closed = [], om_defers = []\<rparr>"

text \<open>Opening a resource and deferring a call are two statements.\<close>

definition om_acquire :: "string \<Rightarrow> ('r, 'a) order_cmd \<Rightarrow> ('r, 'a) order_cmd" where
  "om_acquire name s = s\<lparr>om_open := name # om_open s, om_opened := om_opened s @ [name]\<rparr>"

definition om_defer :: "deferred \<Rightarrow> ('r, 'a) order_cmd \<Rightarrow> ('r, 'a) order_cmd" where
  "om_defer d s = s\<lparr>om_defers := d # om_defers s\<rparr>"

fun om_call :: "deferred \<Rightarrow> ('r, 'a) order_cmd \<Rightarrow> ('r, 'a) order_cmd" where
  "om_call (DeferClose name) s = s\<lparr>om_open := remove1 name (om_open s), om_closed := om_closed s @ [name]\<rparr>"
| "om_call DeferCancel s = s\<lparr>om_cancelled := True\<rparr>"

text \<open>A return runs the deferred calls.\<close>

definition om_return :: "'a result \<Rightarrow> ('r, 'a) order_cmd \<Rightarrow> ('r, 'a) order_cmd" where
  "om_return res s = (fold om_call (om_defers s) s)\<lparr>om_phase := OcDone res, om_defers := []\<rparr>"

definition om_register :: "(string \<Rightarrow> duration option) \<Rightarrow> string \<Rightarrow> ('r, 'a) order_cmd \<Rightarrow> ('r, 'a) order_cmd" where
  "om_register takes name s = s\<lparr>om_sd := sd_RegisterFunc (Some \<lparr>cl_name = name, cl_takes = takes name\<rparr>) (om_sd s)\<rparr>"

text \<open>The next step of the main goroutine. \<open>cancelled\<close>: whether the context of the call is, or becomes, cancelled;
  \<open>takes\<close>: how long closing a resource takes.\<close>

definition om_next ::
  "process \<Rightarrow> (string \<Rightarrow> duration option) \<Rightarrow> (bool \<Rightarrow> token_manager \<times> 'r \<Rightarrow> ((token_manager \<times> 'r) \<times> 'a result) option) \<Rightarrow>
   bool \<Rightarrow> ('r, 'a) order_cmd \<Rightarrow> ('r, 'a) order_cmd option"
where
  "om_next P takes exec cancelled s =
     (case om_phase s of
        OcStart \<Rightarrow>
          (case client_Load (px_env P) of
             Inl e \<Rightarrow> Some (om_return (Inl e) s)
           | Inr cfg \<Rightarrow>
               (case px_logger P of
                  Some e \<Rightarrow> Some (om_return (Inl e) s)
                | None \<Rightarrow> Some ((om_defer (DeferClose ''logger'') (om_acquire ''logger'' s))\<lparr>om_phase := OcLogged cfg\<rparr>)))
      | OcLogged cfg \<Rightarrow> Some ((om_defer DeferCancel (om_register takes ''logger'' s))\<lparr>om_notify := True, om_phase := OcWatched cfg\<rparr>)
      | OcWatched cfg \<Rightarrow>
          (case open_manager P (cc_UserServiceAddr cfg) (om_disk s) of
             None \<Rightarrow> None
           | Some (Inl e) \<Rightarrow> Some (om_return (Inl e) s)
           | Some (Inr tm) \<Rightarrow> Some ((om_defer (DeferClose ''token-manager'') (om_acquire ''token-manager'' s))\<lparr>om_phase := OcManaged cfg tm\<rparr>))
      | OcManaged cfg tm \<Rightarrow>
          (let s1 = om_register takes ''token-manager'' s
           in case px_dial P (cc_OrderServiceAddr cfg) of
                Some e \<Rightarrow> Some (om_return (Inl (Wrapf ''failed to connect to order service'' e)) s1)
              | None \<Rightarrow> Some ((om_defer (DeferClose ''grpc-client'') (om_acquire ''grpc-client'' s1))\<lparr>om_phase := OcConnected tm\<rparr>))
      | OcConnected tm \<Rightarrow>
          (let s1 = om_register takes ''grpc-client'' s
           in case exec cancelled (tm, om_remote s) of
                None \<Rightarrow> None
              | Some ((tm', r), res) \<Rightarrow> Some (om_return res (s1\<lparr>om_disk := tm_disk tm', om_remote := r\<rparr>)))
      | OcDone _ \<Rightarrow> None
      | OcKilled \<Rightarrow> None)"

text \<open>The other goroutine, when a signal comes.\<close>

definition om_fire :: "('r, 'a) order_cmd \<Rightarrow> ('r, 'a) order_cmd" where
  "om_fire s = s\<lparr>om_fired := True, om_cancelled := True, om_sd := fst (sd_Trigger (om_sd s))\<rparr>"

definition om_running :: "('r, 'a) order_cmd \<Rightarrow> bool" where
  "om_running s \<longleftrightarrow> (case om_phase s of OcDone _ \<Rightarrow> False | OcKilled \<Rightarrow> False | _ \<Rightarrow> True)"

inductive om_step ::
  "process \<Rightarrow> (string \<Rightarrow> duration option) \<Rightarrow> (bool \<Rightarrow> token_manager \<times> 'r \<Rightarrow> ((token_manager \<times> 'r) \<times> 'a result) option) \<Rightarrow>
   ('r, 'a) order_cmd \<Rightarrow> ('r, 'a) order_cmd \<Rightarrow> bool"
  for P takes exec where
  goes_on: "om_next P takes exec (om_cancelled s) s = Some s' \<Longrightarrow> om_step P takes exec s s'"
| got_signal: "om_notify s \<Longrightarrow> \<not> om_fired s \<Longrightarrow> om_step P takes exec s (om_fire s)"
| interrupted: "om_phase s = OcConnected tm \<Longrightarrow> om_notify s \<Longrightarrow> \<not> om_fired s \<Longrightarrow> om_next P takes exec True s = Some s' \<Longrightarrow>
    om_step P takes exec s (om_fire s')"
| killed: "\<not> om_notify s \<Longrightarrow> om_running s \<Longrightarrow> om_step P takes exec s (s\<lparr>om_phase := OcKilled\<rparr>)"

inductive_cases om_stepE: "om_step P takes exec s s'"

section \<open>What it leaves\<close>

text \<open>What has been opened at each place, in order.\<close>

fun opened_at :: "'a order_phase \<Rightarrow> string list" where
  "opened_at OcStart = []"
| "opened_at (OcLogged cfg) = [''logger'']"
| "opened_at (OcWatched cfg) = [''logger'']"
| "opened_at (OcManaged cfg tm) = [''logger'', ''token-manager'']"
| "opened_at (OcConnected tm) = [''logger'', ''token-manager'', ''grpc-client'']"
| "opened_at (OcDone res) = []"
| "opened_at OcKilled = []"

fun deferred_at :: "'a order_phase \<Rightarrow> deferred list" where
  "deferred_at (OcLogged cfg) = [DeferClose ''logger'']"
| "deferred_at (OcWatched cfg) = [DeferCancel, DeferClose ''logger'']"
| "deferred_at (OcManaged cfg tm) = [DeferClose ''token-manager'', DeferCancel, DeferClose ''logger'']"
| "deferred_at (OcConnected tm) = [DeferClose ''grpc-client'', DeferClose ''token-manager'', DeferCancel, DeferClose ''logger'']"
| "deferred_at _ = []"

fun watched :: "'a order_phase \<Rightarrow> bool" where
  "watched (OcWatched cfg) = True"
| "watched (OcManaged cfg tm) = True"
| "watched (OcConnected tm) = True"
| "watched _ = False"

text \<open>What a command of this process opens.\<close>

definition order_resources :: "process \<Rightarrow> bytes option \<Rightarrow> string list" where
  "order_resources P disk =
     (case client_Load (px_env P) of
        Inl e \<Rightarrow> []
      | Inr cfg \<Rightarrow>
          if px_logger P \<noteq> None then []
          else case open_manager P (cc_UserServiceAddr cfg) disk of
              Some (Inr tm) \<Rightarrow>
                if px_dial P (cc_OrderServiceAddr cfg) \<noteq> None then [''logger'', ''token-manager'']
                else [''logger'', ''token-manager'', ''grpc-client'']
            | _ \<Rightarrow> [''logger''])"

lemma order_resources_distinct: "distinct (order_resources P disk)"
  by (auto simp: order_resources_def split: sum.split option.split)

text \<open>How far the command has come in \<open>order_process\<close>.\<close>

fun come_to :: "process \<Rightarrow> bytes option \<Rightarrow> 'a order_phase \<Rightarrow> bool" where
  "come_to P disk (OcLogged cfg) = (client_Load (px_env P) = Inr cfg \<and> px_logger P = None)"
| "come_to P disk (OcWatched cfg) = (client_Load (px_env P) = Inr cfg \<and> px_logger P = None)"
| "come_to P disk (OcManaged cfg tm) = (client_Load (px_env P) = Inr cfg \<and> px_logger P = None \<and>
     open_manager P (cc_UserServiceAddr cfg) disk = Some (Inr tm))"
| "come_to P disk (OcConnected tm) = (\<exists>cfg. client_Load (px_env P) = Inr cfg \<and> px_logger P = None \<and>
     open_manager P (cc_UserServiceAddr cfg) disk = Some (Inr tm) \<and> px_dial P (cc_OrderServiceAddr cfg) = None)"
| "come_to P disk _ = True"

definition om_inv ::
  "process \<Rightarrow> (bool \<Rightarrow> token_manager \<times> 'r \<Rightarrow> ((token_manager \<times> 'r) \<times> 'a result) option) \<Rightarrow> bytes option \<times> 'r \<Rightarrow> ('r, 'a) order_cmd \<Rightarrow> bool"
where
  "om_inv P exec st s \<longleftrightarrow>
     (case om_phase s of
        OcDone res \<Rightarrow> om_open s = [] \<and> om_opened s = order_resources P (fst st) \<and> om_closed s = rev (om_opened s) \<and>
          (om_opened s \<noteq> [] \<longrightarrow> om_notify s \<and> om_cancelled s) \<and>
          (order_process P (exec False) st = Some ((om_disk s, om_remote s), res) \<or>
           om_fired s \<and> order_process P (exec True) st = Some ((om_disk s, om_remote s), res))
      | OcKilled \<Rightarrow> \<not> om_notify s \<and> (om_disk s, om_remote s) = st
      | ph \<Rightarrow> om_opened s = opened_at ph \<and> om_open s = rev (om_opened s) \<and> om_closed s = [] \<and>
          om_defers s = deferred_at ph \<and> om_notify s = watched ph \<and> (om_disk s, om_remote s) = st \<and> come_to P (fst st) ph \<and>
          (om_cancelled s \<longrightarrow> om_fired s)) \<and>
     sd_inv (om_sd s) \<and> sd_once (om_sd s) \<noteq> Busy \<and> sd_closed (om_sd s) = None"

lemma om_inv_init: "om_inv P exec st (om_init st)"
  by (auto simp: om_inv_def om_init_def sd_inv_def sd_New_def second_def)

lemma sd_register_kept:
  assumes "sd_inv s" and "sd_once s \<noteq> Busy" and "sd_closed s = None"
  shows "sd_inv (sd_RegisterFunc c s) \<and> sd_once (sd_RegisterFunc c s) \<noteq> Busy \<and> sd_closed (sd_RegisterFunc c s) = None"
  using sd_inv_step[OF sd_step.register_func assms(1), of c] assms(2,3)
  by (auto simp: sd_RegisterFunc_def sd_Register_def split: option.split)

lemma sd_trigger_kept:
  assumes "sd_inv s" and "sd_once s \<noteq> Busy" and "sd_closed s = None"
  shows "sd_inv (fst (sd_Trigger s)) \<and> sd_once (fst (sd_Trigger s)) \<noteq> Busy \<and> sd_closed (fst (sd_Trigger s)) = None"
  using sd_inv_step[OF sd_step.trigger assms(1)] assms(2,3) by (auto simp: sd_Trigger_def split: once.split)

lemma om_fold_kept [simp]:
  "om_notify (fold om_call ds s) = om_notify s" "om_fired (fold om_call ds s) = om_fired s" "om_sd (fold om_call ds s) = om_sd s"
  "om_disk (fold om_call ds s) = om_disk s" "om_remote (fold om_call ds s) = om_remote s" "om_opened (fold om_call ds s) = om_opened s"
proof (induction ds arbitrary: s)
  case (Cons d ds)
  case 1 then show ?case using Cons by (cases d) simp_all
  case 2 then show ?case using Cons by (cases d) simp_all
  case 3 then show ?case using Cons by (cases d) simp_all
  case 4 then show ?case using Cons by (cases d) simp_all
  case 5 then show ?case using Cons by (cases d) simp_all
  case 6 then show ?case using Cons by (cases d) simp_all
qed simp_all

lemma om_inv_main:
  assumes inv: "om_inv P exec st s" and step: "om_next P takes exec b s = Some s'"
  shows "om_inv P exec st (s'\<lparr>om_fired := om_fired s' \<or> b\<rparr>)"
proof -
  have sd: "sd_inv (om_sd s)" "sd_once (om_sd s) \<noteq> Busy" "sd_closed (om_sd s) = None" using inv by (simp_all add: om_inv_def)
  note reg = sd_register_kept[OF sd]
  obtain disk r where st: "st = (disk, r)" by (cases st)
  show ?thesis
  proof (cases "om_phase s")
    case OcStart
    then show ?thesis using inv step sd
      by (auto simp: om_inv_def om_next_def om_return_def om_acquire_def om_defer_def order_process_def order_resources_def st split: sum.splits option.splits)
  next
    case (OcLogged cfg)
    then show ?thesis using inv step reg
      by (auto simp: om_inv_def om_next_def om_register_def om_defer_def)
  next
    case (OcWatched cfg)
    then show ?thesis using inv step sd
      by (auto simp: om_inv_def om_next_def om_return_def om_acquire_def om_defer_def order_process_def order_resources_def st split: sum.splits option.splits)
  next
    case (OcManaged cfg tm)
    then show ?thesis using inv step reg
      by (auto simp: om_inv_def om_next_def om_return_def om_acquire_def om_defer_def om_register_def order_process_def order_resources_def st Let_def split: option.splits)
  next
    case (OcConnected tm)
    obtain cfg where cfg: "client_Load (px_env P) = Inr cfg" "px_logger P = None"
        "open_manager P (cc_UserServiceAddr cfg) disk = Some (Inr tm)" "px_dial P (cc_OrderServiceAddr cfg) = None"
      and here: "om_open s = [''grpc-client'', ''token-manager'', ''logger'']" "om_closed s = []" "om_remote s = r"
        "om_opened s = [''logger'', ''token-manager'', ''grpc-client'']" "om_defers s = deferred_at (OcConnected tm :: 'b order_phase)" "om_notify s"
      using inv OcConnected by (auto simp: om_inv_def st)
    obtain tm' r' res where run: "exec b (tm, r) = Some ((tm', r'), res)"
      and s': "s' = om_return res ((om_register takes ''grpc-client'' s)\<lparr>om_disk := tm_disk tm', om_remote := r'\<rparr>)"
      using step OcConnected here by (auto simp: om_next_def Let_def split: option.splits)
    have "order_process P (exec b) st = Some ((tm_disk tm', r'), res)" using cfg run by (simp add: order_process_def st)
    moreover have "order_resources P disk = [''logger'', ''token-manager'', ''grpc-client'']" using cfg by (simp add: order_resources_def)
    ultimately show ?thesis using reg by (cases b) (simp_all add: om_inv_def s' st om_return_def om_register_def here)
  qed (use step in \<open>simp_all add: om_next_def\<close>)
qed

lemma om_inv_fire:
  assumes "om_inv P exec st s" and "om_notify s"
  shows "om_inv P exec st (om_fire s)"
proof -
  have sd: "sd_inv (om_sd s)" "sd_once (om_sd s) \<noteq> Busy" "sd_closed (om_sd s) = None" using assms by (simp_all add: om_inv_def)
  show ?thesis using assms sd_trigger_kept[OF sd] by (cases "om_phase s") (auto simp: om_inv_def om_fire_def)
qed

lemma om_next_running: "om_next P takes exec b s = Some s' \<Longrightarrow> om_running s"
  by (auto simp: om_next_def om_running_def split: order_phase.splits)

lemma om_next_notify: "om_next P takes exec b s = Some s' \<Longrightarrow> om_notify s \<Longrightarrow> om_notify s'"
  by (auto simp: om_next_def om_return_def om_acquire_def om_defer_def om_register_def Let_def
      split: order_phase.splits sum.splits option.splits)

lemma om_inv_step:
  assumes "om_step P takes exec s s'" and inv: "om_inv P exec st s"
  shows "om_inv P exec st s'"
  using assms(1)
proof cases
  case goes_on
  have "om_fired s" if "om_cancelled s"
    using inv om_next_running[OF goes_on] that by (cases "om_phase s") (auto simp: om_inv_def om_running_def)
  moreover have "om_fired s' = om_fired s"
    using goes_on by (auto simp: om_next_def om_return_def om_acquire_def om_defer_def om_register_def Let_def
      split: order_phase.splits sum.splits option.splits)
  ultimately have "s'\<lparr>om_fired := om_fired s' \<or> om_cancelled s\<rparr> = s'" by (cases s') auto
  then show ?thesis using om_inv_main[OF inv goes_on] by simp
next
  case got_signal
  then show ?thesis using om_inv_fire[OF inv] by simp
next
  case (interrupted tm s'')
  then have "om_inv P exec st (s''\<lparr>om_fired := True\<rparr>)" "om_notify s''"
    using om_inv_main[OF inv interrupted(5)] om_next_notify by simp_all
  from om_inv_fire[OF this(1)] this(2) show ?thesis using interrupted(1) by (simp add: om_fire_def)
next
  case killed
  then show ?thesis using inv by (cases "om_phase s") (auto simp: om_inv_def om_running_def)
qed

lemma om_inv_reached: "(om_step P takes exec)\<^sup>*\<^sup>* (om_init st) s \<Longrightarrow> om_inv P exec st s"
  by (induction rule: rtranclp_induct) (simp_all add: om_inv_init om_inv_step)

text \<open>C37: an order command, whatever signals come and when: what it opens is what its process lets it open, and when it returns
  nothing of that is open: each resource has been closed once, in reverse order of opening, and the context is cancelled. The answer and the token file are those of
  the command without signals, with a call that is cancelled only if a signal came; the shutdown handler, which is given the same resources,
  closes none of them; while it runs it can always go on; and a signal kills it only before it listens, with the file and the remote as they were.\<close>

theorem order_command_ends_clean:
  assumes "(om_step P takes exec)\<^sup>*\<^sup>* (om_init st) s"
  shows "sd_closed (om_sd s) = None \<and>
    (\<forall>res. om_phase s = OcDone res \<longrightarrow>
      om_opened s = order_resources P (fst st) \<and> om_open s = [] \<and> om_closed s = rev (om_opened s) \<and> distinct (om_opened s) \<and>
      (om_opened s \<noteq> [] \<longrightarrow> om_cancelled s) \<and>
      (order_process P (exec False) st = Some ((om_disk s, om_remote s), res) \<or>
           om_fired s \<and> order_process P (exec True) st = Some ((om_disk s, om_remote s), res))) \<and>
    (om_running s \<longrightarrow> (\<forall>b x. exec b x \<noteq> None) \<longrightarrow> om_next P takes exec (om_cancelled s) s \<noteq> None) \<and>
    (om_phase s = OcKilled \<longrightarrow> \<not> om_notify s \<and> (om_disk s, om_remote s) = st)"
proof -
  note inv = om_inv_reached[OF assms]
  have "om_next P takes exec (om_cancelled s) s \<noteq> None" if "om_running s" and exec: "\<forall>b x. exec b x \<noteq> None"
  proof (cases "om_phase s")
    case (OcWatched cfg)
    have "open_manager P (cc_UserServiceAddr cfg) (om_disk s) \<noteq> None"
      using NewTokenManager_some[of "px_codec P" "px_read P" "om_disk s"] by (auto simp: open_manager_def split: option.split)
    then show ?thesis using OcWatched by (auto simp: om_next_def split: option.split sum.split)
  qed (use that in \<open>auto simp: om_next_def om_running_def Let_def split: option.split sum.split\<close>)
  moreover have "sd_closed (om_sd s) = None" using inv by (simp add: om_inv_def)
  moreover have "om_opened s = order_resources P (fst st) \<and> om_open s = [] \<and> om_closed s = rev (om_opened s) \<and> distinct (om_opened s) \<and>
      (om_opened s \<noteq> [] \<longrightarrow> om_cancelled s) \<and>
      (order_process P (exec False) st = Some ((om_disk s, om_remote s), res) \<or>
       om_fired s \<and> order_process P (exec True) st = Some ((om_disk s, om_remote s), res))" if "om_phase s = OcDone res" for res
    using inv order_resources_distinct[of P "fst st"] unfolding om_inv_def that order_phase.case by (elim conjE, intro conjI) (assumption | simp | blast)+
  moreover have "om_phase s = OcKilled \<longrightarrow> \<not> om_notify s \<and> (om_disk s, om_remote s) = st" using inv by (auto simp: om_inv_def)
  ultimately show ?thesis by blast
qed

text \<open>One way to interleave the two goroutines: \<open>True\<close> is a signal, \<open>False\<close> a step of the main one.\<close>

fun om_run ::
  "process \<Rightarrow> (string \<Rightarrow> duration option) \<Rightarrow> (bool \<Rightarrow> token_manager \<times> 'r \<Rightarrow> ((token_manager \<times> 'r) \<times> 'a result) option) \<Rightarrow>
   bool list \<Rightarrow> ('r, 'a) order_cmd \<Rightarrow> ('r, 'a) order_cmd option"
where
  "om_run P takes exec [] s = Some s"
| "om_run P takes exec (True # bs) s = (if om_notify s \<and> \<not> om_fired s then om_run P takes exec bs (om_fire s) else None)"
| "om_run P takes exec (False # bs) s = Option.bind (om_next P takes exec (om_cancelled s) s) (om_run P takes exec bs)"

lemma om_run_reached: "om_run P takes exec bs s = Some s' \<Longrightarrow> (om_step P takes exec)\<^sup>*\<^sup>* s s'"
proof (induction bs arbitrary: s)
  case (Cons b bs)
  have "\<exists>t. om_step P takes exec s t \<and> om_run P takes exec bs t = Some s'"
    using Cons.prems by (cases b) (auto simp: bind_eq_Some_conv split: if_splits intro: om_step.got_signal om_step.goes_on)
  then show ?case using Cons.IH by (meson converse_rtranclp_into_rtranclp)
qed simp

text \<open>A signal comes while the connection of the token manager is opened.\<close>

theorem order_command_ends_clean_witness:
  "\<exists>s res. (om_step wit_process (\<lambda>_. Some 1) (\<lambda>b x. Some (x, if b then Inl (CtxErr Canceled) else Inr ())))\<^sup>*\<^sup>* (om_init (None, ())) s \<and>
     om_phase s = OcDone res \<and> om_fired s \<and> om_open s = [] \<and> om_opened s = [''logger'', ''token-manager'', ''grpc-client''] \<and>
     om_closed s = [''grpc-client'', ''token-manager'', ''logger''] \<and> sd_closed (om_sd s) = None \<and>
     (\<exists>b. order_process wit_process (\<lambda>x. Some (x, if b then Inl (CtxErr Canceled) else Inr ())) (None, ()) = Some ((om_disk s, om_remote s), res))"
proof -
  let ?exec = "\<lambda>b x. Some (x, if b then Inl (CtxErr Canceled) else Inr ())"
  have "\<exists>s. om_run wit_process (\<lambda>_. Some 1) ?exec [False, False, True, False, False, False] (om_init (None, ())) = Some s \<and>
      om_phase s = OcDone (Inl (CtxErr Canceled)) \<and> om_fired s"
    by (simp add: om_next_def om_init_def om_acquire_def om_defer_def om_register_def om_return_def om_fire_def wit_process_def client_Load_def
      client_config_Validate_def open_manager_def NewTokenManager_def tm_loadFromDisk_def mutex_defs
      sd_defs sd_New_def Let_def second_def)
  then obtain s where run: "om_run wit_process (\<lambda>_. Some 1) ?exec [False, False, True, False, False, False] (om_init (None, ())) = Some s"
    and phase: "om_phase s = OcDone (Inl (CtxErr Canceled))" and fired: "om_fired s" by blast
  have "order_resources wit_process None = [''logger'', ''token-manager'', ''grpc-client'']"
    by (simp add: order_resources_def wit_process_def client_Load_def client_config_Validate_def open_manager_def NewTokenManager_def
      tm_loadFromDisk_def mutex_defs second_def)
  note opened = this
  note reached = om_run_reached[OF run]
  note all = order_command_ends_clean[OF reached, unfolded fst_conv opened]
  have "om_opened s = [''logger'', ''token-manager'', ''grpc-client'']" "om_open s = []" "om_closed s = rev (om_opened s)"
    using all phase by blast+
  then show ?thesis
    using all reached phase fired
    by (intro exI[of _ s] exI[of _ "Inl (CtxErr Canceled)"]) auto
qed

section \<open>The program\<close>

datatype cli_command = CmdRegister | CmdLogin | CmdLogout | CmdCreateOrder | CmdOrderStatus

record cli_flags =
  fl_email :: string
  fl_password :: string
  fl_username :: string
  fl_marketID :: string
  fl_orderType :: string
  fl_price :: string
  fl_quantity :: string
  fl_orderID :: string

definition default_flags :: cli_flags where
  "default_flags = \<lparr>fl_email = '''', fl_password = '''', fl_username = '''', fl_marketID = '''', fl_orderType = ''BUY'',
     fl_price = '''', fl_quantity = '''', fl_orderID = ''''\<rparr>"

text \<open>The remote services as the commands call them.\<close>

record ('r, 'ts, 'o) remotes =
  rm_Login :: "string \<Rightarrow> string \<Rightarrow> 'r \<Rightarrow> 'r \<times> 'ts auth_response result"
  rm_Register :: "string \<Rightarrow> string \<Rightarrow> string \<Rightarrow> 'r \<Rightarrow> 'r \<times> 'ts auth_response result"
  rm_Logout :: "string \<Rightarrow> 'r \<Rightarrow> 'r"
  rm_CreateOrder :: "(create_order_request, 'r, create_order_response) rpc"
  rm_GetOrderStatus :: "(string, 'r, 'o) rpc"

text \<open>An error of a command exits with 1; the runtime exits with 2 when a goroutine panics.\<close>

definition exit_code :: "'a outcome \<Rightarrow> nat" where
  "exit_code x = (case x of Returned (Inr _) \<Rightarrow> 0 | Returned (Inl _) \<Rightarrow> 1 | Panicked _ \<Rightarrow> 2)"

text \<open>\<open>args\<close>: what cobra makes of the arguments, an error, or a command (without one it prints its help)
  and the flags that are given, to be set over the defaults.\<close>

definition client_main ::
  "process \<Rightarrow> time \<Rightarrow> ('r, 'ts, 'o) remotes \<Rightarrow> (cli_command option \<times> (cli_flags \<Rightarrow> cli_flags)) result \<Rightarrow> string \<Rightarrow>
   bytes option \<times> 'r \<Rightarrow> ((bytes option \<times> 'r) \<times> nat) option"
where
  "client_main P now R args stdin st =
     (case args of
        Inl _ \<Rightarrow> Some (st, 1)
      | Inr (None, _) \<Rightarrow> Some (st, 0)
      | Inr (Some c, given) \<Rightarrow>
          (let f = given default_flags in
           case c of
             CmdRegister \<Rightarrow> map_option (map_prod id exit_code) (runRegister P now (rm_Register R) (fl_email f) (fl_password f) (fl_username f) stdin st)
           | CmdLogin \<Rightarrow> map_option (map_prod id exit_code) (runLogin P now (rm_Login R) (fl_email f) (fl_password f) stdin st)
           | CmdLogout \<Rightarrow> map_option (map_prod id exit_code) (runLogout P (rm_Logout R) st)
           | CmdCreateOrder \<Rightarrow> map_option (map_prod id (exit_code \<circ> Returned))
               (createCmd P now (rm_CreateOrder R) (fl_marketID f) (fl_orderType f) (fl_price f) (fl_quantity f) st)
           | CmdOrderStatus \<Rightarrow> map_option (map_prod id (exit_code \<circ> Returned)) (statusCmd P now (rm_GetOrderStatus R) (fl_orderID f) st)))"

lemma exit_code_simps [simp]:
  "exit_code (Returned (Inr x)) = 0" "exit_code (Returned (Inl e)) = 1" "exit_code (Panicked m) = 2"
  by (simp_all add: exit_code_def)

lemma exit_code_zero: "exit_code x = 0 \<longleftrightarrow> (\<exists>y. x = Returned (Inr y))"
  by (auto simp: exit_code_def split: outcome.split sum.split)

text \<open>The process says success exactly when its command has succeeded.\<close>

lemma create_exits_zero:
  "client_main P now R (Inr (Some CmdCreateOrder, given)) stdin st = Some (st', 0) \<longleftrightarrow>
   (\<exists>resp. createCmd P now (rm_CreateOrder R) (fl_marketID (given default_flags)) (fl_orderType (given default_flags))
      (fl_price (given default_flags)) (fl_quantity (given default_flags)) st = Some (st', Inr resp))"
  by (cases st') (auto simp: client_main_def Let_def exit_code_zero)

text \<open>An order that is not said to be one is an order to buy; without its other flags it ends before anything is opened.\<close>

lemma create_defaults_to_buy:
  "client_main P now R (Inr (Some CmdCreateOrder, fl_quantity_update (\<lambda>_. q) \<circ> fl_price_update (\<lambda>_. p) \<circ> fl_marketID_update (\<lambda>_. m))) stdin st =
   map_option (map_prod id (exit_code \<circ> Returned)) (createCmd P now (rm_CreateOrder R) m ''BUY'' p q st)"
  by (simp add: client_main_def default_flags_def)

lemma create_needs_flags: "client_main P now R (Inr (Some CmdCreateOrder, id)) stdin st = Some (st, 1)"
  by (simp add: client_main_def default_flags_def createCmd_def pre_create_def)

text \<open>Without a prompt that is answered the account commands crash: the runtime's exit code.\<close>

lemma login_without_input_crashes: "client_main P now R (Inr (Some CmdLogin, id)) '''' st = Some (st, 2)"
  by (simp add: client_main_def default_flags_def runLogin_def login_answers_def prompt_def read_line_def)

text \<open>A log-out whose token file stays exits with 0.\<close>

lemma logout_exits_zero:
  assumes "works P"
  shows "\<exists>st'. client_main (P\<lparr>px_remove := False\<rparr>) now R (Inr (Some CmdLogout, id)) stdin st = Some (st', 0) \<and> fst st' = fst st"
proof -
  obtain disk r where st: "st = (disk, r)" by (cases st)
  have "pre_create ''m'' ''BUY'' ''1'' ''1'' = Inr ()" by (simp add: pre_create_def)
  from conjunct2[OF conjunct2[OF logout_needs_removal[OF assms this, of "rm_Logout R" disk r 0 "\<lambda>md q u. (u, Inl (Errorf ''x''))" r]]] obtain u'
    where "runLogout (P\<lparr>px_remove := False\<rparr>) (rm_Logout R) (disk, r) = Some ((disk, u'), Returned (Inr ()))" by blast
  then show ?thesis by (simp add: client_main_def st)
qed

end
