(* ===== verification/Order_System.thy ===== *)
theory Order_System
  imports Servers
begin

text \<open>
  The order service as \<open>order-service/internal/di/module.go\<close> builds it: its server with the three methods of its
  handler, over any sequence of requests that anybody sends.
\<close>

section \<open>Requests\<close>

text \<open>What a handler draws from outside comes with the request: identifiers, polls of the context, the order of a range loop.\<close>

datatype order_request =
  ReqCreate create_env string create_order_request
| ReqStatus ctx string
| ReqList ctx nat

datatype 'ts order_response =
  RespCreate create_order_response
| RespStatus "'ts order_pb option"
| RespList "'ts order_pb list"

fun order_method :: "order_request \<Rightarrow> string" where
  "order_method (ReqCreate E hid req) = ''/order.v1.OrderService/CreateOrder''"
| "order_method (ReqStatus cx i) = ''/order.v1.OrderService/GetOrderStatus''"
| "order_method (ReqList cx seed) = ''/order.v1.OrderService/ListOrders''"

fun order_handlers ::
  "(string \<Rightarrow> bool) \<Rightarrow> ('r, 'ts) order_ops \<Rightarrow> 'c market_client option \<Rightarrow> order_request \<Rightarrow> ('r \<times> 'c, 'ts order_response) grpc_handler"
where
  "order_handlers parses ops client (ReqCreate E hid req) claims st =
     map_prod id (map_sum id RespCreate) (oh_CreateOrder parses ops client E hid req claims st)"
| "order_handlers parses ops client (ReqStatus cx i) claims st =
     (case oh_GetOrderStatus ops cx i claims (fst st) of (r, x) \<Rightarrow> ((r, snd st), map_sum id RespStatus x))"
| "order_handlers parses ops client (ReqList cx seed) claims st =
     (case oh_ListOrders ops cx seed claims (fst st) of (r, x) \<Rightarrow> ((r, snd st), map_sum id RespList x))"

text \<open>A request as it arrives: the metadata, a new identifier for the log, the times at which the limiter is asked.\<close>

type_synonym arrival = "metadata \<times> string \<times> time \<times> time \<times> order_request"

definition serve_order ::
  "'l rate_lib \<Rightarrow> ('m, 'l rate_limiter \<times> 'r \<times> 'c, 'ts order_response) prometheus_lib \<Rightarrow> 'm \<Rightarrow> (string \<Rightarrow> bool) \<Rightarrow>
   ('r, 'ts) order_ops \<Rightarrow> 'c market_client option \<Rightarrow> arrival \<Rightarrow>
   log_entry list \<times> 'm \<times> 'l rate_limiter \<times> 'r \<times> 'c \<Rightarrow>
   (log_entry list \<times> 'm \<times> 'l rate_limiter \<times> 'r \<times> 'c) \<times> 'ts order_response outcome"
where
  "serve_order R L m0 parses ops client a st =
     (case a of (md, fresh, t1, t2, req) \<Rightarrow>
        order_server R L m0 fresh (order_method req) t1 t2 (returning (order_handlers parses ops client req)) md st)"

fun serve_orders ::
  "'l rate_lib \<Rightarrow> ('m, 'l rate_limiter \<times> 'r \<times> 'c, 'ts order_response) prometheus_lib \<Rightarrow> 'm \<Rightarrow> (string \<Rightarrow> bool) \<Rightarrow>
   ('r, 'ts) order_ops \<Rightarrow> 'c market_client option \<Rightarrow> arrival list \<Rightarrow>
   log_entry list \<times> 'm \<times> 'l rate_limiter \<times> 'r \<times> 'c \<Rightarrow>
   (log_entry list \<times> 'm \<times> 'l rate_limiter \<times> 'r \<times> 'c) \<times> 'ts order_response outcome list"
where
  "serve_orders R L m0 parses ops client [] st = (st, [])"
| "serve_orders R L m0 parses ops client (a # as) st =
     (case serve_order R L m0 parses ops client a st of
        (st1, x) \<Rightarrow> (case serve_orders R L m0 parses ops client as st1 of (st2, xs) \<Rightarrow> (st2, x # xs)))"

section \<open>Nothing is ever ordered\<close>

text \<open>What the server says to any request while its store is empty.\<close>

definition refusal :: "'a outcome \<Rightarrow> bool" where
  "refusal x \<longleftrightarrow> (\<exists>c m. x = Returned (Inl (StatusErr c m)) \<and>
     c \<in> {CodeUnauthenticated, CodeResourceExhausted, CodeInvalidArgument, CodeInternal})"

lemma handlers_refuse:
  "\<exists>c m. order_handlers parses (memory_orders :: ('ts order_store, 'ts) order_ops) client req None ([], mc) = (([], mc), Inl (StatusErr c m)) \<and>
     c \<in> {CodeUnauthenticated, CodeInvalidArgument, CodeInternal}"
proof (cases req)
  case (ReqStatus cx i)
  have "\<exists>e. order_GetOrder (memory_orders :: ('ts order_store, 'ts) order_ops) cx i [] = Inl e \<and> order_toGRPCError e = StatusErr CodeInternal ''internal server error''"
    by (auto simp: order_GetOrder_def order_GetByID_def gm_get_def order_toGRPCError_def polled_def split: option.split)
  then show ?thesis using ReqStatus by (auto simp: oh_GetOrderStatus_def)
qed (simp_all add: oh_CreateOrder_def oh_ListOrders_def)

lemma serve_order_refuses:
  assumes "monitors L"
  shows "\<exists>lg' m' l' x. serve_order R L m0 parses (memory_orders :: ('ts order_store, 'ts) order_ops) client a (lg, m, l, [], mc) = ((lg', m', l', [], mc), x) \<and> refusal x"
proof -
  obtain md fresh t1 t2 req where a: "a = (md, fresh, t1, t2, req)" by (cases a)
  obtain c msg where h: "order_handlers parses (memory_orders :: ('ts order_store, 'ts) order_ops) client req None ([], mc) = (([], mc), Inl (StatusErr c msg))"
    "c \<in> {CodeUnauthenticated, CodeInvalidArgument, CodeInternal}"
    using handlers_refuse[of parses client req mc] by (elim exE conjE)
  let ?h = "\<lambda>_. order_handlers parses (memory_orders :: ('ts order_store, 'ts) order_ops) client req"
  obtain lg' m' l' where run: "server_chain fresh (order_method req) (snd (MetricsInterceptor L m0) (order_method req) (rate_interceptor R t1 t2 (registered (\<lambda>m. returning (?h m)))))
      (received md) (lg, m, l, [], mc) =
    (if snd (Allow R t1 l) then ((lg', m', l', fst (?h md None ([], mc))), Returned (snd (?h md None ([], mc)))) else ((lg', m', l', [], mc), service_exhausted))"
    using chain_returns[OF assms, of fresh "order_method req" m0 R t1 t2 ?h md lg m l "([], mc)"] by blast
  have "serve_order R L m0 parses (memory_orders :: ('ts order_store, 'ts) order_ops) client a (lg, m, l, [], mc) =
    (if snd (Allow R t1 l) then ((lg', m', l', [], mc), Returned (Inl (StatusErr c msg))) else ((lg', m', l', [], mc), service_exhausted))"
    unfolding serve_order_def a prod.case order_server_def run h(1) fst_conv snd_conv by (rule refl)
  then show ?thesis using h(2) by (cases "snd (Allow R t1 l)") (auto simp: refusal_def service_exhausted_def)
qed

text \<open>C28: the order service, as its module builds the server, never takes an order: whoever sends whatever requests with whatever tokens, in
  any number, the store stays empty, the market is never asked, and every request is answered with an error.\<close>

theorem order_service_inert:
  assumes "monitors L"
  shows "\<exists>lg' m' l' xs. serve_orders R L m0 parses memory_orders client as (lg, m, l, [], mc) = ((lg', m', l', [], mc), xs) \<and>
    length xs = length as \<and> (\<forall>x \<in> set xs. refusal x)"
proof (induction "as" arbitrary: lg m l)
  case (Cons a "as")
  obtain lg1 m1 l1 x where one: "serve_order R L m0 parses memory_orders client a (lg, m, l, [], mc) = ((lg1, m1, l1, [], mc), x)" "refusal x"
    using serve_order_refuses[OF assms] by blast
  obtain lg2 m2 l2 xs where "serve_orders R L m0 parses memory_orders client as (lg1, m1, l1, [], mc) = ((lg2, m2, l2, [], mc), xs)"
    "length xs = length as" "\<forall>x \<in> set xs. refusal x"
    using Cons.IH by blast
  then show ?case using one by (intro exI[of _ lg2] exI[of _ m2] exI[of _ l2] exI[of _ "x # xs"]) simp
qed simp

abbreviation wit_arrivals :: "arrival list" where
  "wit_arrivals \<equiv>
     [(Some (\<lambda>k. if k = ''authorization'' then [''Bearer t''] else []), ''r1'', 0, 0, ReqCreate (wit_cenv ''o'') ''h''
         \<lparr>cor_MarketId = ''m'', cor_Type = ORDER_TYPE_BUY, cor_Price = ''1'', cor_Quantity = ''1'', cor_IdempotencyKey = ''''\<rparr>),
      (None, ''r2'', 1, 1, ReqStatus background ''o'')]"

theorem order_service_inert_witness:
  "\<exists>lg' m' l' xs. serve_orders wit_rates wit_metrics 0 (\<lambda>_. True) (memory_orders :: (unit order_store, unit) order_ops)
      (None :: unit market_client option) wit_arrivals ([], 0, NewRateLimiter wit_rates (service_limits 100 50), [], ()) =
    ((lg', m', l', [], ()), xs) \<and> length xs = 2 \<and> (\<forall>x \<in> set xs. refusal x)"
proof -
  have two: "length wit_arrivals = 2" by simp
  show ?thesis
    using order_service_inert[OF wit_metrics_monitors, of wit_rates 0 "\<lambda>_. True" "None :: unit market_client option"
      wit_arrivals "[]" 0 "NewRateLimiter wit_rates (service_limits 100 50)" "()"]
    unfolding two by blast
qed

end
