(* ===== verification/Lifecycle.thy ===== *)
theory Lifecycle
  imports Errors
begin

text \<open>
  The life of a server process: the hooks that \<open>order-service/internal/di/module.go\<close>,
  \<open>user-service/internal/di/module.go\<close> and \<open>spot-service/main.go\<close> append to the life cycle of fx, and
  the goroutine in which they serve. Listening is a parameter; of the gRPC server this uses what
  its documentation says: \<open>Serve\<close> closes its listener when it returns; \<open>GracefulStop\<close> makes a
  running \<open>Serve\<close> return without an error, and a \<open>Serve\<close> that is called later fail.
\<close>

section \<open>The hooks\<close>

text \<open>\<open>Spawned\<close>: the goroutine is started and has not called \<open>Serve\<close> yet.\<close>

datatype serving = Idle | Spawned | Serving | Served "err option"

datatype life_log = LogStarted string string | LogServeError string err | LogStopping string

record server_process =
  sv_bound :: "string option"
  sv_serve :: serving
  sv_stopped :: bool
  sv_log :: "life_log list"

definition new_process :: server_process where
  "new_process = \<lparr>sv_bound = None, sv_serve = Idle, sv_stopped = False, sv_log = []\<rparr>"

definition listen_and_serve :: "string \<Rightarrow> (string \<Rightarrow> err option) \<Rightarrow> string \<Rightarrow> server_process \<Rightarrow> server_process \<times> err option" where
  "listen_and_serve started listen port P =
     (case listen port of
        Some e \<Rightarrow> (P, Some e)
      | None \<Rightarrow> (P\<lparr>sv_bound := Some port, sv_serve := Spawned, sv_log := sv_log P @ [LogStarted started port]\<rparr>, None))"

definition stop_serving :: "string \<Rightarrow> server_process \<Rightarrow> server_process" where
  "stop_serving stopping P =
     (if sv_serve P = Serving then P\<lparr>sv_bound := None, sv_serve := Served None\<rparr> else P)
       \<lparr>sv_stopped := True, sv_log := sv_log P @ [LogStopping stopping]\<rparr>"

text \<open>The hooks of the three services differ in their log entries only.\<close>

definition order_OnStart :: "(string \<Rightarrow> err option) \<Rightarrow> string \<Rightarrow> server_process \<Rightarrow> server_process \<times> err option" where
  "order_OnStart = listen_and_serve ''Order-Service started''"

definition order_OnStop :: "server_process \<Rightarrow> server_process" where
  "order_OnStop = stop_serving ''Order-Service stopping''"

definition user_OnStart :: "(string \<Rightarrow> err option) \<Rightarrow> string \<Rightarrow> server_process \<Rightarrow> server_process \<times> err option" where
  "user_OnStart = listen_and_serve ''User-Service started''"

definition user_OnStop :: "server_process \<Rightarrow> server_process" where
  "user_OnStop = stop_serving ''User-Service stopping''"

definition spot_OnStart :: "(string \<Rightarrow> err option) \<Rightarrow> string \<Rightarrow> server_process \<Rightarrow> server_process \<times> err option" where
  "spot_OnStart = listen_and_serve ''Starting gRPC server''"

definition spot_OnStop :: "server_process \<Rightarrow> server_process" where
  "spot_OnStop = stop_serving ''Shutting down gRPC server''"

section \<open>Running processes\<close>

text \<open>The message that the goroutine logs when \<open>Serve\<close> returns an error.\<close>

definition serve_returns :: "string \<Rightarrow> err option \<Rightarrow> server_process \<Rightarrow> server_process" where
  "serve_returns what r P =
     P\<lparr>sv_bound := None, sv_serve := Served r, sv_log := sv_log P @ (case r of None \<Rightarrow> [] | Some e \<Rightarrow> [LogServeError what e])\<rparr>"

definition server_stopped :: err where
  "server_stopped = LibErr ''grpc: the server has been stopped''"

text \<open>The container runs the stop hook when a signal arrives; the goroutine runs at any time.\<close>

inductive life_step :: "string \<Rightarrow> string \<Rightarrow> server_process \<Rightarrow> server_process \<Rightarrow> bool" for what stopping where
  serve: "sv_serve P = Spawned \<Longrightarrow> \<not> sv_stopped P \<Longrightarrow> life_step what stopping P (P\<lparr>sv_serve := Serving\<rparr>)"
| serve_late: "sv_serve P = Spawned \<Longrightarrow> sv_stopped P \<Longrightarrow> life_step what stopping P (serve_returns what (Some server_stopped) P)"
| serve_fails: "sv_serve P = Serving \<Longrightarrow> life_step what stopping P (serve_returns what (Some e) P)"
| stop: "\<not> sv_stopped P \<Longrightarrow> life_step what stopping P (stop_serving stopping P)"

inductive_cases life_stepE: "life_step what stopping P Q"

lemmas life_defs = listen_and_serve_def stop_serving_def serve_returns_def
lemmas hook_defs = order_OnStart_def order_OnStop_def user_OnStart_def user_OnStop_def spot_OnStart_def spot_OnStop_def

lemma start_fails: "snd (listen_and_serve st listen port P) = Some e \<Longrightarrow> fst (listen_and_serve st listen port P) = P"
  by (simp add: listen_and_serve_def split: option.splits)

text \<open>What holds of a process that has started: it is bound to its port until \<open>Serve\<close> returns, and a
  running \<open>Serve\<close> returns when the process is stopped.\<close>

definition life_inv :: "string \<Rightarrow> server_process \<Rightarrow> bool" where
  "life_inv port P \<longleftrightarrow> sv_bound P = (if sv_serve P \<in> {Spawned, Serving} then Some port else None) \<and> sv_serve P \<noteq> Idle \<and>
     (sv_stopped P \<longrightarrow> sv_serve P \<noteq> Serving)"

lemma life_inv_start: "listen_and_serve st listen port new_process = (P, None) \<Longrightarrow> life_inv port P"
  by (auto simp: listen_and_serve_def new_process_def life_inv_def split: option.splits)

lemma life_inv_step: "life_step what stopping P Q \<Longrightarrow> life_inv port P \<Longrightarrow> life_inv port Q"
  by (erule life_stepE) (auto simp: life_defs life_inv_def)

lemma life_inv_run: "(life_step what stopping)\<^sup>*\<^sup>* P Q \<Longrightarrow> life_inv port P \<Longrightarrow> life_inv port Q"
  by (induction rule: rtranclp_induct) (auto dest: life_inv_step)

lemma two_steps: "r a b \<Longrightarrow> r b c \<Longrightarrow> r\<^sup>*\<^sup>* a c"
  by (rule converse_rtranclp_into_rtranclp[OF _ r_into_rtranclp])

text \<open>A stopped process that has no step left holds no port; before, the stop hook is always possible.\<close>

lemma stops_clean:
  assumes "listen_and_serve st listen port new_process = (P, None)" and "(life_step what stopping)\<^sup>*\<^sup>* P Q"
  shows "(\<forall>R. \<not> life_step what stopping Q R) \<longleftrightarrow> sv_stopped Q \<and> sv_bound Q = None"
proof -
  have inv: "life_inv port Q" by (rule life_inv_run[OF assms(2) life_inv_start[OF assms(1)]])
  show ?thesis
  proof
    assume stuck: "\<forall>R. \<not> life_step what stopping Q R"
    have stopped: "sv_stopped Q" using stuck life_step.stop by blast
    have "sv_serve Q \<noteq> Spawned" using stuck stopped life_step.serve_late by blast
    with stopped show "sv_stopped Q \<and> sv_bound Q = None" using inv by (auto simp: life_inv_def)
  next
    assume "sv_stopped Q \<and> sv_bound Q = None"
    then show "\<forall>R. \<not> life_step what stopping Q R" using inv by (auto simp: life_inv_def elim!: life_stepE split: if_splits)
  qed
qed

text \<open>A server whose \<open>Serve\<close> has failed is a process that goes on without a port, and nothing but a
  signal ends it.\<close>

lemma failed_server_lingers:
  assumes "listen_and_serve st listen port new_process = (P, None)"
  shows "\<exists>Q. (life_step what stopping)\<^sup>*\<^sup>* P Q \<and> sv_bound Q = None \<and> \<not> sv_stopped Q \<and>
    (\<forall>R. life_step what stopping Q R \<longrightarrow> R = stop_serving stopping Q)"
proof -
  let ?P = "P\<lparr>sv_serve := Serving\<rparr>"
  let ?Q = "serve_returns what (Some (LibErr ''accept'')) ?P"
  have "sv_serve P = Spawned" "\<not> sv_stopped P"
    using assms by (auto simp: listen_and_serve_def new_process_def split: option.splits)
  then have "life_step what stopping P ?P" by (rule life_step.serve)
  moreover have "life_step what stopping ?P ?Q" by (rule life_step.serve_fails) simp
  moreover have "R = stop_serving stopping ?Q" if "life_step what stopping ?Q R" for R
    using that by (rule life_stepE) (simp_all add: serve_returns_def)
  moreover have "sv_bound ?Q = None" "\<not> sv_stopped ?Q" using \<open>\<not> sv_stopped P\<close> by (simp_all add: serve_returns_def)
  ultimately show ?thesis using two_steps[of "life_step what stopping" P ?P ?Q] by (intro exI[of _ ?Q]) blast
qed

text \<open>A process that is stopped before its goroutine runs logs an error of the server.\<close>

lemma early_stop_logs_error:
  assumes "listen_and_serve st listen port new_process = (P, None)"
  shows "\<exists>Q. (life_step what stopping)\<^sup>*\<^sup>* P Q \<and> sv_bound Q = None \<and> LogServeError what server_stopped \<in> set (sv_log Q)"
proof -
  let ?P = "stop_serving stopping P"
  let ?Q = "serve_returns what (Some server_stopped) ?P"
  have "sv_serve P = Spawned" "\<not> sv_stopped P"
    using assms by (auto simp: listen_and_serve_def new_process_def split: option.splits)
  then have go: "life_step what stopping P ?P" and "sv_serve ?P = Spawned" "sv_stopped ?P"
    by (simp_all add: life_step.stop) (simp_all add: stop_serving_def)
  then have late: "life_step what stopping ?P ?Q" by (simp add: life_step.serve_late)
  have "sv_bound ?Q = None" "LogServeError what server_stopped \<in> set (sv_log ?Q)"
    by (simp_all add: serve_returns_def)
  then show ?thesis using two_steps[of "life_step what stopping" P ?P ?Q] go late by (intro exI[of _ ?Q]) blast
qed

end
