(* ===== verification/Spec2Isabelle.thy ===== *)
theory Spec2Isabelle
  imports Spot_Props User_Handler Servers Idempotency Retry Client_Commands Order_Types Sql_Transactions Shutdown
    Redis_Calls Key_Pair Validate Health Service_Config Wiring Auth_Roles User_System Order_Market Cache_Admin Client_Main Order_System Lifecycle
begin

text \<open>
  The exchange system: three gRPC servers and a command line client, with the packages they share
  (\<open>src/shared\<close>). The user service registers users, checks passwords and issues tokens; the spot
  service lists markets, through a cache; the order service stores orders after asking the spot
  service for the market, behind a circuit breaker; the client keeps a token in a file and calls
  the other services.

  \<^bold>\<open>Foundations.\<close> \<open>Go_Prelude\<close>: time, durations (64 bits where they wrap), contexts. A context is a
  function from the number of the poll to what \<open>ctx.Err()\<close> answers there, so that a cancellation can
  fall between any two polls. \<open>Go_Map\<close>: Go's maps as association lists with one entry per key; the
  order of a range loop, which Go leaves open, comes from a number that the operation takes as an
  argument. \<open>Go_Strings\<close>: the functions of package strings that are used. \<open>Interleaving\<close>: calls that
  run at the same time as a pool of programs, any of which makes the next atomic step (\<open>pool_step\<close>); the locale
  \<open>interleaving\<close> gives, for programs of any kind, what a call may rely on while others run. \<open>Errors\<close>: package-level error values, wrapped
  errors and \<open>errors.Is\<close>, status errors. \<open>Proto\<close>: messages and enumerations. \<open>Uid\<close>: \<open>shared/uid\<close>.

  \<^bold>\<open>Spot service.\<close> \<open>Lru_Cache\<close> is \<open>spot-service/internal/cache/lru.go\<close>: the map from keys to list
  elements, the entries and the list, with the well-formedness invariant and the abstract recency queue; \<open>Lru_Runs\<close>
  lifts both to any sequence of calls: the cache refines the queue, stays within capacity and keeps
  what was used recently. \<open>Cache_Port\<close> is \<open>shared/ports/cache.go\<close>: the locales \<open>cache_port\<close> and
  \<open>reliable_cache\<close>, interpreted with the LRU cache. \<open>Spot_Domain\<close> (domain, repository, mapper),
  \<open>Spot_Service\<close> (\<open>service.go\<close> and the gRPC handler) and \<open>Spot_Props\<close>: what \<open>ViewMarkets\<close> returns, and that the cache
  cannot be seen in the answers of \<open>GetMarketByID\<close>. \<open>Spot_Programs\<close>: \<open>GetMarketByID\<close> as a program of cache and repository
  operations, and the same for calls at the same time (locale \<open>cached_source\<close>, interpreted with the LRU cache).

  \<^bold>\<open>User service.\<close> \<open>User_Domain\<close>, \<open>User_Repo\<close> (\<open>repository/memory.go\<close>), \<open>Auth_Ports\<close> (the contracts
  of both repositories as locales, interpreted with the in-memory ones), \<open>Jwt_Manager\<close> and \<open>Key_Pair\<close>
  (tokens and key files of \<open>jwtmanager/jwt.go\<close>), \<open>Auth_Service\<close> (\<open>service/auth.go\<close>), \<open>Auth_Runs\<close> (the branches of every operation and what each keeps of the
  stores, in the locale \<open>auth_ports\<close>), \<open>Auth_Props\<close> (the step relation of whole calls: log-in,
  refresh, log-out). \<open>Auth_Programs\<close>: each method as a program whose steps are the repository operations, which run alone is
  the function of \<open>Auth_Service\<close>; \<open>Auth_Concurrent\<close>: the locale \<open>auth_calls\<close>, over any repositories with the contracts of
  \<open>Auth_Ports\<close>, with what a step relies on and keeps, and what a call has achieved when it is accepted; \<open>Auth_Races\<close> and
  \<open>Auth_Roles\<close>: the in-memory repositories under every interleaving, and what each interleaving of a refresh with a second refresh, or with a
  log-out of all sessions, comes to. \<open>Jwt_Validator\<close> (\<open>shared/jwtvalidator\<close>), \<open>User_Handler\<close> (gRPC handler and interceptor), \<open>User_System\<close>
  (requests through interceptor, handler and service, any number at the same time, with the tokens that the answers give
  away: nobody becomes an administrator).

  \<^bold>\<open>Order service.\<close> \<open>Order_Domain\<close> (domain, mappers, in-memory repository), \<open>Order_Service\<close> (the port as the
  locale \<open>order_repository\<close>, and as the weaker \<open>order_counter\<close> that is all the limit on orders needs;
  \<open>CreateOrder\<close> in one piece and as the parts between which other calls run),
  \<open>Order_Runs\<close> (the step relation of concurrent calls and the bound on the orders of a user), \<open>Order_Types\<close> (the shape
  of stored orders), \<open>Postgres_Repo\<close> (the repository over SQL tables with numeric columns and transactions, a provider
  of \<open>order_counter\<close>: the database gives an identifier another spelling), \<open>Sql_Transactions\<close> (its transactions
  when they overlap: serial in effect, no price taken twice, no deadlock), \<open>Circuit_Breaker\<close>,
  \<open>Market_Checker\<close>, \<open>Order_Props\<close>, \<open>Order_Handler\<close>, \<open>Order_System\<close> (the server with the methods of the handler, over any sequence of requests), \<open>Order_Market\<close> (the market check against a spot service that serves other calls).

  \<^bold>\<open>Shared.\<close> \<open>Idempotency\<close> (both stores under the locale \<open>idempotency_store\<close>, with interpretations; sequences of calls, deletions
  and ticks of the cleanup), \<open>Retry\<close> (both loops, under any context), \<open>Shared_Grpc\<close> (interceptors, metrics and rate limits, over
  handlers that may panic and one log that the chain shares), \<open>Servers\<close> (the
  chains of interceptors as the processes build them, with their limits and options), \<open>Redis_Cache\<close> (the cache on a Redis server that others share:
  the locale \<open>redis_server\<close> gives the adapter the contract \<open>cache_port\<close>, for keys with a prefix of their own; the choice
  of a cache in the spot service), \<open>Redis_Calls\<close> (the calls of the spot service among the commands of others: the locale
  \<open>shared_redis\<close>), \<open>Cache_Admin\<close> (closing and statistics of caches and of the stores of idempotency keys), \<open>Shutdown\<close> (registration, signal, closing under a deadline, as a step relation),
  \<open>Health\<close> (the shared handler and that of the spot service), \<open>Validate\<close> (the field checks, with the decoding of UTF-8),
  \<open>Log_Redact\<close> (the redaction of messages), \<open>Service_Config\<close> (all fields of the three configurations and of the shared one, their
  defaults, checks and loading), \<open>Startup\<close> (the constructors of the Redis cache, the database pool, the logger and the client's
  connections, and what they leave open), \<open>Wiring\<close> (the providers of each process and which processes start, over the locale
  \<open>container\<close>), \<open>Lifecycle\<close> (the hooks that start and stop a server, and the goroutine that serves).

  \<^bold>\<open>Client.\<close> \<open>Token_Manager\<close> (with its mutex: an operation that waits for a lock its own goroutine
  holds is the value \<open>None\<close>), \<open>Order_Client\<close> (the gRPC client and the order commands) and \<open>Client_Commands\<close> (every
  command as a process: prompts, configuration, the token file between processes) and \<open>Client_Main\<close> (the order commands with the
  goroutine that waits for a signal and the stack of their deferred calls, as a step relation, and \<open>main\<close> with its flags and exit codes).

  \<^bold>\<open>State and concurrency.\<close> Stores are passed explicitly. An operation that holds its lock from start
  to end is one step. \<open>CreateOrder\<close>, which holds no lock between its reads and its write, has a step
  for each, a transaction of \<open>Save\<close> has a step for each statement, and the two reads and writes of the Redis store of idempotency keys are separate as well. The methods of the user
  service and \<open>GetMarketByID\<close> are programs over the operations of repositories and cache, and their properties hold for every number of
  calls and every order of their steps; a race is a property as well, that states which orders of the steps have it.

  \<^bold>\<open>Fuel and bounds.\<close> No definition uses fuel: the loops run over lists, or over the number of attempts
  left. A pointer that is nil is \<open>None\<close>; a nil pointer that the code follows is a panic,
  an outcome of its own.

  \<^bold>\<open>Parameters.\<close> Code outside the repository is an argument: decimals and timestamps, the JSON codec of markets and
  tokens, \<open>uuid.Parse\<close>, bcrypt, signing and parsing of JWTs, the circuit breaker's
  state machine, the token bucket, the counters of the metrics, the Redis client, the parsing and printing of SQL values (the locks of the database are the documented
  ones, in \<open>save_guard\<close>), the tables of Unicode, rounding of
  floating-point numbers and their conversion to integers out of range, the clock, random identifiers and remote calls. What the properties need of them are named predicates.

  \<^bold>\<open>Not modelled.\<close> Log entries other than those of the interceptors, and printing, which only call libraries; reading the environment
  and parsing the command line; the generated gRPC
  stubs and the reflection of the messages.
\<close>

section \<open>From the command line to the order store\<close>

definition metadata_of :: "outgoing \<Rightarrow> metadata" where
  "metadata_of md = Some (\<lambda>k. map snd (filter (\<lambda>p. fst p = k) md))"

text \<open>The call of \<open>CreateOrder\<close> over the network that arrives, at the server with its interceptors.\<close>

definition order_rpc ::
  "'l rate_lib \<Rightarrow> ('m, 'l rate_limiter \<times> 'r \<times> 'c, create_order_response) prometheus_lib \<Rightarrow> 'm \<Rightarrow> string \<Rightarrow> time \<Rightarrow> time \<Rightarrow>
   (string \<Rightarrow> bool) \<Rightarrow> ('r, 'ts) order_ops \<Rightarrow> 'c market_client option \<Rightarrow> create_env \<Rightarrow> string \<Rightarrow>
   (create_order_request, log_entry list \<times> 'm \<times> 'l rate_limiter \<times> 'r \<times> 'c, create_order_response) rpc"
where
  "order_rpc R L m0 fresh t1 t2 parses ops client E hid md req st =
     (case order_server R L m0 fresh ''/order.v1.OrderService/CreateOrder'' t1 t2 (returning (oh_CreateOrder parses ops client E hid req)) (metadata_of md) st of
        (st', Returned res) \<Rightarrow> (st', res)
      | (st', Panicked m) \<Rightarrow> (st', Inl (StatusErr CodeUnavailable m)))"

lemma order_rpc_refused:
  assumes "monitors L"
  shows "\<exists>lg' m' l' c msg. order_rpc R L m0 fresh t1 t2 parses ops client E hid md req (lg, m, l, s) = ((lg', m', l', s), Inl (StatusErr c msg)) \<and>
     c \<in> {CodeUnauthenticated, CodeResourceExhausted}"
proof -
  let ?h = "\<lambda>_. oh_CreateOrder parses ops client E hid req"
  obtain lg' m' l' where "order_server R L m0 fresh ''/order.v1.OrderService/CreateOrder'' t1 t2 (returning (oh_CreateOrder parses ops client E hid req))
      (metadata_of md) (lg, m, l, s) =
    (if snd (Allow R t1 l) then ((lg', m', l', fst (?h md None s)), Returned (snd (?h md None s))) else ((lg', m', l', s), service_exhausted))"
    using chain_returns[OF assms, of fresh "''/order.v1.OrderService/CreateOrder''" m0 R t1 t2 ?h "metadata_of md" lg m l s]
    unfolding order_server_def by blast
  then show ?thesis by (simp add: order_rpc_def oh_CreateOrder_def service_exhausted_def)
qed

lemma order_rpc_answer:
  assumes "monitors L"
  shows "\<exists>lg' m' l' e. (case order_rpc R L m0 fresh t1 t2 parses ops client E hid md req (lg, m, l, s) of (r', res) \<Rightarrow> Some ((t, r'), res)) =
     Some ((t, lg', m', l', s), Inl e)"
  using order_rpc_refused[OF assms, of R m0 fresh t1 t2 parses ops client E hid md req lg m l s] by auto

text \<open>C29: the command \<open>create-order\<close> of the client never places an order, logged in or not: in any process
  and with any token file it returns an error, and the file, the order store and the market client of the server stay.\<close>

theorem cli_order_never_placed:
  assumes "monitors L"
  shows "\<exists>lg' m' l' e. createCmd P now (order_rpc R L m0 fresh t1 t2 parses ops client E hid) marketID orderType price quantity (disk, lg, m, l, s) =
     Some ((disk, lg', m', l', s), Inl e)"
proof (cases "pre_create marketID orderType price quantity")
  case (Inl e)
  then show ?thesis by (simp add: createCmd_def)
next
  case (Inr x)
  let ?rpc = "order_rpc R L m0 fresh t1 t2 parses ops client E hid"
  note c = createCmd_def[of P now _ marketID orderType price quantity, unfolded Inr sum.case runCreateOrder_def]
  show ?thesis
  proof (rule order_process_cases[of P "executeCreateOrder tm_HasToken (Some (tm_GetAccessToken now)) [] ?rpc
      marketID (toProtoOrderType orderType) price quantity" disk "(lg, m, l, s)"])
    fix tm :: token_manager assume tm: "tm_mu tm = free_mutex" "tm_disk tm = disk"
    have "\<exists>lg' m' l' e. create_order_cmd tm_HasToken (Some (tm_GetAccessToken now)) ?rpc
      marketID orderType price quantity (tm, lg, m, l, s) = Some ((tm, lg', m', l', s), Inl e)"
      by (simp add: create_order_cmd_exact[OF tm(1)] order_rpc_answer[OF assms] split: sum.split)
    moreover assume "order_process P (executeCreateOrder tm_HasToken (Some (tm_GetAccessToken now)) [] ?rpc
      marketID (toProtoOrderType orderType) price quantity) (disk, lg, m, l, s) =
      map_option (\<lambda>((tm', r), res). ((tm_disk tm', r), res)) (executeCreateOrder tm_HasToken (Some (tm_GetAccessToken now)) [] ?rpc
      marketID (toProtoOrderType orderType) price quantity (tm, lg, m, l, s))"
    ultimately show ?thesis using Inr tm(2) by (cases s) (auto simp: c create_order_cmd_def)
  qed (auto simp: c)
qed

theorem cli_order_never_placed_witness:
  "\<forall>disk. \<exists>lg' m' l' e. createCmd wit_process 5 (order_rpc wit_rates wit_metrics 0 ''r'' 0 0 (\<lambda>_. True)
      (pg_orders wit_sql id id (no_faults 0 0) :: (database, time) order_ops) (None :: unit market_client option) wit_create ''h'')
      ''m'' ''SELL'' ''1'' ''2'' (disk, [], 0, NewRateLimiter wit_rates (service_limits 100 50), wit_db, ()) =
    Some ((disk, lg', m', l', wit_db, ()), Inl e)"
proof
  fix disk
  from cli_order_never_placed[OF wit_metrics_monitors] show "\<exists>lg' m' l' e. createCmd wit_process 5 (order_rpc wit_rates wit_metrics 0 ''r'' 0 0 (\<lambda>_. True)
      (pg_orders wit_sql id id (no_faults 0 0) :: (database, time) order_ops) (None :: unit market_client option) wit_create ''h'')
      ''m'' ''SELL'' ''1'' ''2'' (disk, [], 0, NewRateLimiter wit_rates (service_limits 100 50), wit_db, ()) =
    Some ((disk, lg', m', l', wit_db, ()), Inl e)" .
qed

end
